(* ===== verification/Prelude.thy ===== *)
theory Prelude
  imports Main "HOL-Library.Word"
begin

text \<open>
  Shared vocabulary of the development: the collections that feed the simplifier, the result type
  in which every Rust panic or \<open>Err\<close> of the modelled code is a value, list helpers that stand for
  the \<open>Vec\<close> operations of the Rust standard library, and the insertion-ordered map that stands for
  the \<open>IndexMap\<close> the runtime uses for dictionaries (its interface is a locale, interpreted here on
  association lists with distinct keys).
\<close>

named_theorems res_simps "rewrite rules for results"
named_theorems imap_simps "rewrite rules for insertion-ordered maps"
named_theorems int_bridge "rewrite rules between machine words and integers"

text \<open>\<open>std::cmp::Ordering\<close>\<close>

datatype ordering = Less | Equal | Greater

section \<open>Results\<close>

type_synonym ('e, 'a) result = "'e + 'a"

abbreviation Ok :: "'a \<Rightarrow> 'e + 'a" where
  "Ok x \<equiv> Inr x"

abbreviation Err :: "'e \<Rightarrow> 'e + 'a" where
  "Err e \<equiv> Inl e"

definition bind_res :: "'e + 'a \<Rightarrow> ('a \<Rightarrow> 'e + 'b) \<Rightarrow> 'e + 'b" where
  "bind_res r f = (case r of Inl e \<Rightarrow> Inl e | Inr x \<Rightarrow> f x)"

lemma bind_res_simps [simp, res_simps]:
  "bind_res (Inl e) f = Inl e"
  "bind_res (Inr x) f = f x"
  by (simp_all add: bind_res_def)

lemma bind_res_cong [fundef_cong]:
  "r = r' \<Longrightarrow> (\<And>x. r' = Inr x \<Longrightarrow> f x = f' x) \<Longrightarrow> bind_res r f = bind_res r' f'"
  by (cases r') simp_all

lemma bind_res_eq_Inr [res_simps]:
  "bind_res r f = Inr y \<longleftrightarrow> (\<exists>x. r = Inr x \<and> f x = Inr y)"
  by (cases r) auto

lemma bind_res_eq_Inl [res_simps]:
  "bind_res r f = Inl e \<longleftrightarrow> r = Inl e \<or> (\<exists>x. r = Inr x \<and> f x = Inl e)"
  by (cases r) auto

section \<open>Vectors\<close>

text \<open>\<open>Vec::insert\<close>, \<open>Vec::remove\<close> and indexed assignment panic outside the vector.\<close>

definition vec_insert :: "nat \<Rightarrow> 'a \<Rightarrow> 'a list \<Rightarrow> 'a list option" where
  "vec_insert i x xs = (if i \<le> length xs then Some (take i xs @ x # drop i xs) else None)"

definition vec_remove :: "nat \<Rightarrow> 'a list \<Rightarrow> 'a list option" where
  "vec_remove i xs = (if i < length xs then Some (take i xs @ drop (Suc i) xs) else None)"

definition vec_set :: "nat \<Rightarrow> 'a \<Rightarrow> 'a list \<Rightarrow> 'a list option" where
  "vec_set i x xs = (if i < length xs then Some (xs[i := x]) else None)"

definition vec_get :: "'a list \<Rightarrow> nat \<Rightarrow> 'a option" where
  "vec_get xs i = (if i < length xs then Some (xs ! i) else None)"

lemma vec_get_Some_iff: "vec_get xs i = Some x \<longleftrightarrow> i < length xs \<and> xs ! i = x"
  by (simp add: vec_get_def)

lemma length_vec_insert: "vec_insert i x xs = Some ys \<Longrightarrow> length ys = Suc (length xs)"
  by (auto simp: vec_insert_def split: if_splits)

lemma length_vec_remove: "vec_remove i xs = Some ys \<Longrightarrow> Suc (length ys) = length xs"
  by (auto simp: vec_remove_def split: if_splits)

lemma length_vec_set: "vec_set i x xs = Some ys \<Longrightarrow> length ys = length xs"
  by (auto simp: vec_set_def split: if_splits)

lemma vec_remove_insert: "vec_insert i x xs = Some ys \<Longrightarrow> vec_remove i ys = Some xs"
  by (auto simp: vec_insert_def vec_remove_def min_def split: if_splits)

lemma mem_size_list_less [termination_simp]:
  "x \<in> set xs \<Longrightarrow> f x < Suc (size_list f xs)"
  by (induction xs) auto

section \<open>Insertion-ordered maps\<close>

text \<open>
  \<open>IndexMap\<close> keeps its entries in insertion order; inserting an existing key replaces the value in
  place, a new key goes to the end, and \<open>remove\<close> (an alias of \<open>swap_remove\<close>) moves the last entry into
  the hole it leaves.
\<close>

type_synonym ('k, 'v) imap = "('k \<times> 'v) list"

fun imap_get :: "('k, 'v) imap \<Rightarrow> 'k \<Rightarrow> 'v option" where
  "imap_get [] k = None"
| "imap_get ((k', v) # m) k = (if k' = k then Some v else imap_get m k)"

fun imap_insert :: "'k \<Rightarrow> 'v \<Rightarrow> ('k, 'v) imap \<Rightarrow> ('k, 'v) imap" where
  "imap_insert k v [] = [(k, v)]"
| "imap_insert k v ((k', v') # m) = (if k' = k then (k, v) # m else (k', v') # imap_insert k v m)"

definition imap_keys :: "('k, 'v) imap \<Rightarrow> 'k list" where
  "imap_keys m = map fst m"

definition imap_contains :: "('k, 'v) imap \<Rightarrow> 'k \<Rightarrow> bool" where
  "imap_contains m k = (imap_get m k \<noteq> None)"

fun imap_index :: "('k, 'v) imap \<Rightarrow> 'k \<Rightarrow> nat option" where
  "imap_index [] k = None"
| "imap_index ((k', v) # m) k = (if k' = k then Some 0 else map_option Suc (imap_index m k))"

definition imap_remove :: "'k \<Rightarrow> ('k, 'v) imap \<Rightarrow> ('k, 'v) imap" where
  "imap_remove k m =
     (case imap_index m k of
        None \<Rightarrow> m
      | Some i \<Rightarrow> if Suc i = length m then butlast m else butlast (m[i := last m]))"

definition imap_inv :: "('k, 'v) imap \<Rightarrow> bool" where
  "imap_inv m = distinct (map fst m)"

fun imap_extend :: "('k, 'v) imap \<Rightarrow> ('k, 'v) imap \<Rightarrow> ('k, 'v) imap" where
  "imap_extend m [] = m"
| "imap_extend m ((k, v) # d) = imap_extend (imap_insert k v m) d"

lemma imap_get_map_of: "imap_get m k = map_of m k"
  by (induction m) auto

lemma imap_get_insert [simp, imap_simps]:
  "imap_get (imap_insert k v m) k' = (if k' = k then Some v else imap_get m k')"
  by (induction m) auto

lemma imap_keys_simps [simp]:
  "imap_keys [] = []" "imap_keys ((k, v) # m) = k # imap_keys m"
  by (simp_all add: imap_keys_def)

lemma imap_get_None_iff [imap_simps]: "imap_get m k = None \<longleftrightarrow> k \<notin> set (imap_keys m)"
  by (induction m k rule: imap_get.induct) auto

lemma imap_contains_iff [imap_simps]: "imap_contains m k \<longleftrightarrow> k \<in> set (imap_keys m)"
  by (simp add: imap_contains_def imap_get_None_iff)

lemma imap_keys_insert [imap_simps]:
  "imap_keys (imap_insert k v m) = imap_keys m @ (if k \<in> set (imap_keys m) then [] else [k])"
  by (induction k v m rule: imap_insert.induct) auto

lemma imap_inv_insert [imap_simps, intro]: "imap_inv m \<Longrightarrow> imap_inv (imap_insert k v m)"
  using imap_keys_insert [of k v m] by (auto simp: imap_inv_def imap_keys_def)

lemma imap_get_SomeD: "imap_get m k = Some v \<Longrightarrow> (k, v) \<in> set m"
  by (simp add: imap_get_map_of map_of_SomeD)

lemma imap_get_eq_Some_iff: "imap_inv m \<Longrightarrow> imap_get m k = Some v \<longleftrightarrow> (k, v) \<in> set m"
  by (simp add: imap_get_map_of imap_inv_def)

lemma imap_inv_simps [simp]:
  "imap_inv []" "imap_inv ((k, v) # m) \<longleftrightarrow> k \<notin> set (imap_keys m) \<and> imap_inv m"
  by (simp_all add: imap_inv_def imap_keys_def)

lemma length_imap_insert [imap_simps]:
  "length (imap_insert k v m) = (if imap_contains m k then length m else Suc (length m))"
  by (induction k v m rule: imap_insert.induct) (auto simp: imap_contains_iff)

text \<open>
  What the clients of a map rely on. The recurring loop \<open>for (k, v) in &delta { obj.insert(k, v) }\<close>
  is analysed once over this interface.
\<close>

locale index_map =
  fixes empty :: 'm
    and insert :: "'k \<Rightarrow> 'v \<Rightarrow> 'm \<Rightarrow> 'm"
    and get :: "'m \<Rightarrow> 'k \<Rightarrow> 'v option"
    and keys :: "'m \<Rightarrow> 'k list"
    and inv :: "'m \<Rightarrow> bool"
  assumes get_empty: "get empty k = None"
    and get_insert: "get (insert k v m) k' = (if k' = k then Some v else get m k')"
    and keys_insert: "keys (insert k v m) = keys m @ (if k \<in> set (keys m) then [] else [k])"
    and get_None: "get m k = None \<longleftrightarrow> k \<notin> set (keys m)"
    and inv_empty: "inv empty"
    and inv_insert: "inv m \<Longrightarrow> inv (insert k v m)"
begin

definition insert_all :: "'m \<Rightarrow> ('k \<times> 'v) list \<Rightarrow> 'm" where
  "insert_all m d = foldl (\<lambda>m (k, v). insert k v m) m d"

lemma insert_all_simps:
  "insert_all m [] = m" "insert_all m ((k, v) # d) = insert_all (insert k v m) d"
  by (simp_all add: insert_all_def)

lemma inv_insert_all: "inv m \<Longrightarrow> inv (insert_all m d)"
  by (induction d arbitrary: m) (auto simp: insert_all_simps inv_insert)

lemma keys_insert_all: "set (keys (insert_all m d)) = set (keys m) \<union> fst ` set d"
proof (induction d arbitrary: m)
  case (Cons p d)
  obtain k v where p: "p = (k, v)" by (cases p)
  have "set (keys (insert k v m)) = set (keys m) \<union> {k}" by (auto simp: keys_insert)
  with Cons.IH [of "insert k v m"] p show ?case by (auto simp: insert_all_simps)
qed (simp add: insert_all_simps)

lemma keys_insert_all_prefix: "\<exists>ks. keys (insert_all m d) = keys m @ ks"
proof (induction d arbitrary: m)
  case (Cons p d)
  obtain k v where p: "p = (k, v)" by (cases p)
  obtain ks where "keys (insert_all (insert k v m) d) = keys (insert k v m) @ ks"
    using Cons.IH by blast
  then show ?case by (auto simp: p insert_all_simps keys_insert)
qed (simp add: insert_all_simps)

lemma get_insert_all:
  "distinct (map fst d) \<Longrightarrow>
    get (insert_all m d) k = (case map_of d k of None \<Rightarrow> get m k | Some v \<Rightarrow> Some v)"
proof (induction d arbitrary: m)
  case (Cons p d)
  obtain k' v where p: "p = (k', v)" by (cases p)
  with Cons.prems have "map_of d k' = None" by (simp add: map_of_eq_None_iff)
  with Cons p show ?case by (auto simp: insert_all_simps get_insert split: option.splits)
qed (simp add: insert_all_simps)

end

interpretation imap: index_map "[]" imap_insert imap_get imap_keys imap_inv
  by unfold_locales (auto simp: imap_keys_insert imap_get_None_iff)

lemma imap_extend_insert_all: "imap_extend m d = imap.insert_all m d"
  by (induction m d rule: imap_extend.induct) (auto simp: imap.insert_all_simps)

lemma imap_inv_extend [intro]: "imap_inv m \<Longrightarrow> imap_inv (imap_extend m d)"
  unfolding imap_extend_insert_all by (rule imap.inv_insert_all)

lemma set_imap_keys_extend [imap_simps]:
  "set (imap_keys (imap_extend m d)) = set (imap_keys m) \<union> set (imap_keys d)"
  unfolding imap_extend_insert_all imap.keys_insert_all by (simp add: imap_keys_def)

lemma imap_get_extend [imap_simps]:
  "imap_inv d \<Longrightarrow>
     imap_get (imap_extend m d) k =
       (case imap_get d k of None \<Rightarrow> imap_get m k | Some v \<Rightarrow> Some v)"
  using imap.get_insert_all [of d m k]
  by (simp add: imap_extend_insert_all imap_inv_def imap_get_map_of [of d])

lemma imap_index_Some:
  "imap_index m k = Some i \<Longrightarrow> i < length m \<and> fst (m ! i) = k"
  by (induction m arbitrary: i) (auto split: if_splits)

lemma imap_index_None [imap_simps]: "imap_index m k = None \<longleftrightarrow> k \<notin> set (imap_keys m)"
  by (induction m k rule: imap_index.induct) auto

lemma imap_index_split:
  "imap_index m k = Some i \<Longrightarrow>
    \<exists>xs v ys. m = xs @ (k, v) # ys \<and> length xs = i \<and> k \<notin> set (imap_keys xs)"
proof (induction m arbitrary: i)
  case (Cons p m)
  obtain k' v where p: "p = (k', v)" by (cases p)
  show ?case
  proof (cases "k' = k")
    case True
    with Cons.prems p show ?thesis by (intro exI [of _ "[]"]) auto
  next
    case False
    with Cons.prems p obtain j where j: "imap_index m k = Some j" "i = Suc j" by auto
    then obtain xs w ys where "m = xs @ (k, w) # ys" "length xs = j" "k \<notin> set (imap_keys xs)"
      using Cons.IH by blast
    with False p j show ?thesis by (intro exI [of _ "(k', v) # xs"]) auto
  qed
qed simp

text \<open>Removal swaps the last entry into the hole.\<close>

lemma imap_remove_split:
  assumes "m = xs @ (k, v) # ys" "k \<notin> set (imap_keys xs)"
  shows "imap_remove k m =
    (if ys = [] then xs else xs @ last ys # butlast ys)"
proof -
  have "imap_index (xs @ (k, v) # ys) k = Some (length xs)"
    using assms(2) by (induction xs) auto
  then show ?thesis
    using assms(1) by (cases ys rule: rev_cases)
      (auto simp: imap_remove_def list_update_append butlast_append split: nat.splits)
qed

lemma set_imap_remove:
  assumes "imap_inv m"
  shows "set (imap_remove k m) = {p \<in> set m. fst p \<noteq> k}" and "imap_inv (imap_remove k m)"
proof -
  have "set (imap_remove k m) = {p \<in> set m. fst p \<noteq> k} \<and> imap_inv (imap_remove k m)"
  proof (cases "imap_index m k")
    case None
    then have "k \<notin> fst ` set m" by (simp add: imap_index_None imap_keys_def)
    with None assms show ?thesis by (auto simp: imap_remove_def)
  next
    case (Some i)
    from imap_index_split [OF this]
    obtain xs v ys where m: "m = xs @ (k, v) # ys" "k \<notin> set (imap_keys xs)"
      by (elim exE conjE)
    have "fst p \<noteq> k" if "p \<in> set xs \<union> set ys" for p
    proof -
      have "k \<notin> fst ` set xs" "k \<notin> fst ` set ys"
        using m assms by (simp_all add: imap_inv_def imap_keys_def)
      with that show ?thesis by blast
    qed
    then have keep: "{p \<in> set m. fst p \<noteq> k} = set xs \<union> set ys" using m(1) by auto
    show ?thesis
    proof (cases ys rule: rev_cases)
      case Nil
      with imap_remove_split [OF m] m(1) assms keep show ?thesis by (simp add: imap_inv_def)
    next
      case (snoc zs z)
      have eq: "imap_remove k m = xs @ z # zs" using imap_remove_split [OF m] snoc by simp
      have "distinct (map fst (xs @ (k, v) # zs @ [z]))"
        using assms m(1) snoc by (simp only: imap_inv_def append_assoc append_Cons)
      then have "distinct (map fst (xs @ z # zs))" by auto
      with eq keep snoc show ?thesis by (auto simp: imap_inv_def)
    qed
  qed
  then show "set (imap_remove k m) = {p \<in> set m. fst p \<noteq> k}" "imap_inv (imap_remove k m)" by auto
qed

lemma imap_get_remove [imap_simps]:
  assumes "imap_inv m"
  shows "imap_get (imap_remove k m) k' = (if k' = k then None else imap_get m k')"
proof -
  have "imap_get (imap_remove k m) k' = Some v \<longleftrightarrow> k' \<noteq> k \<and> imap_get m k' = Some v" for v
    using set_imap_remove [OF assms, of k] assms by (auto simp: imap_get_eq_Some_iff)
  then show ?thesis by (metis not_Some_eq)
qed

lemma imap_insert_new: "k \<notin> set (imap_keys m) \<Longrightarrow> imap_insert k v m = m @ [(k, v)]"
  by (induction m) auto

lemma imap_keys_append [simp]: "imap_keys (xs @ ys) = imap_keys xs @ imap_keys ys"
  by (simp add: imap_keys_def)

lemma imap_get_map_prod: "imap_get (map (map_prod id f) m) k = map_option f (imap_get m k)"
  by (induction m) auto

lemma list_all2_fundef_cong [fundef_cong]:
  "xs = xs' \<Longrightarrow> ys = ys' \<Longrightarrow> (\<And>x y. x \<in> set xs' \<Longrightarrow> f x y = g x y) \<Longrightarrow> list_all2 f xs ys = list_all2 g xs' ys'"
  by (auto intro: list.rel_mono_strong)

end
