(* ===== verification/RustInt.thy ===== *)
theory RustInt
  imports Prelude "HOL-Library.Signed_Division"
begin

text \<open>
  The machine integers of the runtime: KCL's \<open>int\<close> is Rust's \<open>i64\<close>, list indices pass through
  \<open>i32\<close>, lengths are \<open>usize\<close> (here \<open>nat\<close>, below $2^{63}$ by Rust's allocation limit). The unchecked operators
  wrap, as the release profile of the workspace compiles them; the checked operations return
  \<open>None\<close> on overflow. The second half is \<open>runtime/src/value/val_overflow.rs\<close> for the integers.
\<close>

unbundle bit_operations_syntax

type_synonym i64 = "64 word"
type_synonym i32 = "32 word"

section \<open>Ranges and casts\<close>

definition in_i64 :: "int \<Rightarrow> bool" where
  "in_i64 r = (- 9223372036854775808 \<le> r \<and> r \<le> 9223372036854775807)"

definition in_i32 :: "int \<Rightarrow> bool" where
  "in_i32 r = (- 2147483648 \<le> r \<and> r \<le> 2147483647)"

definition i64_MAX :: i64 where
  "i64_MAX = 9223372036854775807"

definition i64_MIN :: i64 where
  "i64_MIN = - 9223372036854775808"

text \<open>\<open>x as i32\<close>, \<open>x as u32\<close> and \<open>x as usize\<close> for an \<open>i64\<close>: truncation and reinterpretation.\<close>

definition as_i32 :: "i64 \<Rightarrow> i32" where
  "as_i32 x = word_of_int (sint x)"

definition as_u32 :: "i64 \<Rightarrow> nat" where
  "as_u32 x = nat (sint x mod 4294967296)"

definition as_usize :: "i64 \<Rightarrow> nat" where
  "as_usize x = unat x"

lemma sint_i64_range: "in_i64 (sint (a :: i64))"
  using sint_greater_eq [of a] sint_less [of a] by (simp add: in_i64_def)

lemma sint_i32_range: "in_i32 (sint (a :: i32))"
  using sint_greater_eq [of a] sint_less [of a] by (simp add: in_i32_def)

lemma sint_of_in_i64 [int_bridge]: "in_i64 r \<Longrightarrow> sint (word_of_int r :: i64) = r"
  by (simp add: in_i64_def sint_sbintrunc' signed_take_bit_int_eq_self)

lemma sint_of_in_i32 [int_bridge]: "in_i32 r \<Longrightarrow> sint (word_of_int r :: i32) = r"
  by (simp add: in_i32_def sint_sbintrunc' signed_take_bit_int_eq_self)

lemma i64_eq_iff: "(a :: i64) = b \<longleftrightarrow> sint a = sint b"
  by (auto intro: signed_word_eqI)

lemma as_u32_nonneg: "0 \<le> sint b \<Longrightarrow> sint b < 4294967296 \<Longrightarrow> as_u32 b = nat (sint b)"
  by (simp add: as_u32_def)

section \<open>Checked arithmetic\<close>

definition i64_checked_add :: "i64 \<Rightarrow> i64 \<Rightarrow> i64 option" where
  "i64_checked_add a b = (if in_i64 (sint a + sint b) then Some (a + b) else None)"

definition i64_checked_sub :: "i64 \<Rightarrow> i64 \<Rightarrow> i64 option" where
  "i64_checked_sub a b = (if in_i64 (sint a - sint b) then Some (a - b) else None)"

definition i64_checked_mul :: "i64 \<Rightarrow> i64 \<Rightarrow> i64 option" where
  "i64_checked_mul a b = (if in_i64 (sint a * sint b) then Some (a * b) else None)"

definition i64_checked_div :: "i64 \<Rightarrow> i64 \<Rightarrow> i64 option" where
  "i64_checked_div a b =
     (if sint b = 0 \<or> \<not> in_i64 (sint a sdiv sint b) then None
      else Some (word_of_int (sint a sdiv sint b)))"

definition i64_checked_pow :: "i64 \<Rightarrow> nat \<Rightarrow> i64 option" where
  "i64_checked_pow a n = (if in_i64 (sint a ^ n) then Some (a ^ n) else None)"

definition i64_checked_shl :: "i64 \<Rightarrow> nat \<Rightarrow> i64 option" where
  "i64_checked_shl a n = (if n < 64 then Some (push_bit n a) else None)"

definition i64_checked_shr :: "i64 \<Rightarrow> nat \<Rightarrow> i64 option" where
  "i64_checked_shr a n = (if n < 64 then Some (signed_drop_bit n a) else None)"

definition i32_checked_add :: "i32 \<Rightarrow> i32 \<Rightarrow> i32 option" where
  "i32_checked_add a b = (if in_i32 (sint a + sint b) then Some (a + b) else None)"

definition i32_checked_sub :: "i32 \<Rightarrow> i32 \<Rightarrow> i32 option" where
  "i32_checked_sub a b = (if in_i32 (sint a - sint b) then Some (a - b) else None)"

definition i32_checked_mul :: "i32 \<Rightarrow> i32 \<Rightarrow> i32 option" where
  "i32_checked_mul a b = (if in_i32 (sint a * sint b) then Some (a * b) else None)"

definition i32_checked_div :: "i32 \<Rightarrow> i32 \<Rightarrow> i32 option" where
  "i32_checked_div a b =
     (if sint b = 0 \<or> \<not> in_i32 (sint a sdiv sint b) then None
      else Some (word_of_int (sint a sdiv sint b)))"

definition i32_checked_pow :: "i32 \<Rightarrow> nat \<Rightarrow> i32 option" where
  "i32_checked_pow a n = (if in_i32 (sint a ^ n) then Some (a ^ n) else None)"

definition i32_checked_shl :: "i32 \<Rightarrow> nat \<Rightarrow> i32 option" where
  "i32_checked_shl a n = (if n < 32 then Some (push_bit n a) else None)"

definition i32_checked_shr :: "i32 \<Rightarrow> nat \<Rightarrow> i32 option" where
  "i32_checked_shr a n = (if n < 32 then Some (signed_drop_bit n a) else None)"

text \<open>
  \<open>/\<close> and \<open>%\<close> on \<open>i64\<close> truncate; both panic on a zero divisor and on \<open>i64::MIN / -1\<close>, in every
  build profile. \<open>None\<close> is the panic.
\<close>

definition i64_div :: "i64 \<Rightarrow> i64 \<Rightarrow> i64 option" where
  "i64_div a b =
     (if sint b = 0 \<or> (a = i64_MIN \<and> sint b = - 1) then None
      else Some (word_of_int (sint a sdiv sint b)))"

definition i64_rem :: "i64 \<Rightarrow> i64 \<Rightarrow> i64 option" where
  "i64_rem a b =
     (if sint b = 0 \<or> (a = i64_MIN \<and> sint b = - 1) then None
      else Some (word_of_int (sint a smod sint b)))"

text \<open>\<open><<\<close> and \<open>>>\<close> on \<open>i64\<close> mask the shift amount in the release profile; \<open>>>\<close> is arithmetic.\<close>

definition i64_shl :: "i64 \<Rightarrow> i64 \<Rightarrow> i64" where
  "i64_shl a b = push_bit (unat b mod 64) a"

definition i64_shr :: "i64 \<Rightarrow> i64 \<Rightarrow> i64" where
  "i64_shr a b = signed_drop_bit (unat b mod 64) a"

section \<open>\<open>val_overflow.rs\<close>, the integer predicates\<close>

definition is_i32_overflow :: "i64 \<Rightarrow> bool" where
  "is_i32_overflow v = (sint v > 2147483647 \<or> sint v < - 2147483648)"

definition is_i32_overflow2 :: "i64 \<Rightarrow> i64 \<Rightarrow> bool" where
  "is_i32_overflow2 v1 v2 = (is_i32_overflow v1 \<or> is_i32_overflow v2)"

definition is_i32_overflow_add :: "i64 \<Rightarrow> i64 \<Rightarrow> bool" where
  "is_i32_overflow_add v1 v2 =
     (is_i32_overflow2 v1 v2 \<or> i32_checked_add (as_i32 v1) (as_i32 v2) = None)"

definition is_i32_overflow_sub :: "i64 \<Rightarrow> i64 \<Rightarrow> bool" where
  "is_i32_overflow_sub v1 v2 =
     (is_i32_overflow2 v1 v2 \<or> i32_checked_sub (as_i32 v1) (as_i32 v2) = None)"

definition is_i32_overflow_mul :: "i64 \<Rightarrow> i64 \<Rightarrow> bool" where
  "is_i32_overflow_mul v1 v2 =
     (is_i32_overflow2 v1 v2 \<or> i32_checked_mul (as_i32 v1) (as_i32 v2) = None)"

definition is_i32_overflow_div :: "i64 \<Rightarrow> i64 \<Rightarrow> bool" where
  "is_i32_overflow_div v1 v2 =
     (is_i32_overflow2 v1 v2 \<or> i32_checked_div (as_i32 v1) (as_i32 v2) = None)"

definition is_i32_overflow_pow :: "i64 \<Rightarrow> i64 \<Rightarrow> bool" where
  "is_i32_overflow_pow v1 v2 =
     (is_i32_overflow2 v1 v2 \<or> i32_checked_pow (as_i32 v1) (as_u32 v2) = None)"

definition is_i32_overflow_shl :: "i64 \<Rightarrow> i64 \<Rightarrow> bool" where
  "is_i32_overflow_shl v1 v2 =
     (is_i32_overflow2 v1 v2 \<or> i32_checked_shl (as_i32 v1) (as_u32 v2) = None)"

definition is_i32_overflow_shr :: "i64 \<Rightarrow> i64 \<Rightarrow> bool" where
  "is_i32_overflow_shr v1 v2 =
     (is_i32_overflow2 v1 v2 \<or> i32_checked_shr (as_i32 v1) (as_u32 v2) = None)"

definition is_i64_overflow_add :: "i64 \<Rightarrow> i64 \<Rightarrow> bool" where
  "is_i64_overflow_add v1 v2 = (i64_checked_add v1 v2 = None)"

definition is_i64_overflow_sub :: "i64 \<Rightarrow> i64 \<Rightarrow> bool" where
  "is_i64_overflow_sub v1 v2 = (i64_checked_sub v1 v2 = None)"

definition is_i64_overflow_mul :: "i64 \<Rightarrow> i64 \<Rightarrow> bool" where
  "is_i64_overflow_mul v1 v2 = (i64_checked_mul v1 v2 = None)"

definition is_i64_overflow_div :: "i64 \<Rightarrow> i64 \<Rightarrow> bool" where
  "is_i64_overflow_div v1 v2 = (i64_checked_div v1 v2 = None)"

definition is_i64_overflow_pow :: "i64 \<Rightarrow> i64 \<Rightarrow> bool" where
  "is_i64_overflow_pow v1 v2 = (is_i32_overflow v2 \<or> i64_checked_pow v1 (as_u32 v2) = None)"

definition is_i64_overflow_shl :: "i64 \<Rightarrow> i64 \<Rightarrow> bool" where
  "is_i64_overflow_shl v1 v2 = (is_i32_overflow v2 \<or> i64_checked_shl v1 (as_u32 v2) = None)"

definition is_i64_overflow_shr :: "i64 \<Rightarrow> i64 \<Rightarrow> bool" where
  "is_i64_overflow_shr v1 v2 = (is_i32_overflow v2 \<or> i64_checked_shr v1 (as_u32 v2) = None)"

lemmas i32_overflow_defs =
  is_i32_overflow_def is_i32_overflow2_def is_i32_overflow_add_def is_i32_overflow_sub_def
  is_i32_overflow_mul_def i32_checked_add_def i32_checked_sub_def i32_checked_mul_def

lemmas i64_overflow_defs =
  is_i64_overflow_add_def is_i64_overflow_sub_def is_i64_overflow_mul_def
  i64_checked_add_def i64_checked_sub_def i64_checked_mul_def

subsection \<open>What the predicates decide\<close>

lemma is_i32_overflow_iff: "is_i32_overflow v \<longleftrightarrow> \<not> in_i32 (sint v)"
  by (auto simp: is_i32_overflow_def in_i32_def)

lemma sint_as_i32 [int_bridge]: "in_i32 (sint v) \<Longrightarrow> sint (as_i32 v) = sint v"
  unfolding as_i32_def by (rule sint_of_in_i32)

lemma sint_add_i64 [int_bridge]: "in_i64 (sint a + sint b) \<Longrightarrow> sint ((a :: i64) + b) = sint a + sint b"
  using sint_of_in_i64 [of "sint a + sint b"] by simp

lemma sint_sub_i64 [int_bridge]: "in_i64 (sint a - sint b) \<Longrightarrow> sint ((a :: i64) - b) = sint a - sint b"
  using sint_of_in_i64 [of "sint a - sint b"] by simp

lemma sint_mul_i64 [int_bridge]: "in_i64 (sint a * sint b) \<Longrightarrow> sint ((a :: i64) * b) = sint a * sint b"
  using sint_of_in_i64 [of "sint a * sint b"] by simp

lemma word_of_int_pow: "word_of_int (sint a ^ n) = (a :: i64) ^ n"
  by (induction n) (simp_all flip: wi_hom_mult)

lemma sint_pow_i64 [int_bridge]: "in_i64 (sint a ^ n) \<Longrightarrow> sint ((a :: i64) ^ n) = sint a ^ n"
  using sint_of_in_i64 [of "sint a ^ n"] by (simp add: word_of_int_pow)

lemma is_i32_overflow_add_iff:
  "is_i32_overflow_add a b \<longleftrightarrow>
     \<not> in_i32 (sint a) \<or> \<not> in_i32 (sint b) \<or> \<not> in_i32 (sint a + sint b)"
  by (auto simp: is_i32_overflow_add_def is_i32_overflow2_def is_i32_overflow_iff
      i32_checked_add_def sint_as_i32 split: if_splits)

lemma is_i32_overflow_sub_iff:
  "is_i32_overflow_sub a b \<longleftrightarrow>
     \<not> in_i32 (sint a) \<or> \<not> in_i32 (sint b) \<or> \<not> in_i32 (sint a - sint b)"
  by (auto simp: is_i32_overflow_sub_def is_i32_overflow2_def is_i32_overflow_iff
      i32_checked_sub_def sint_as_i32 split: if_splits)

lemma is_i32_overflow_mul_iff:
  "is_i32_overflow_mul a b \<longleftrightarrow>
     \<not> in_i32 (sint a) \<or> \<not> in_i32 (sint b) \<or> \<not> in_i32 (sint a * sint b)"
  by (auto simp: is_i32_overflow_mul_def is_i32_overflow2_def is_i32_overflow_iff
      i32_checked_mul_def sint_as_i32 split: if_splits)

lemma is_i32_overflow_pow_iff:
  "is_i32_overflow_pow a b \<longleftrightarrow>
     \<not> in_i32 (sint a) \<or> \<not> in_i32 (sint b) \<or> \<not> in_i32 (sint a ^ as_u32 b)"
  by (auto simp: is_i32_overflow_pow_def is_i32_overflow2_def is_i32_overflow_iff
      i32_checked_pow_def sint_as_i32 split: if_splits)

lemma in_i32_imp_in_i64: "in_i32 r \<Longrightarrow> in_i64 r"
  by (simp add: in_i32_def in_i64_def)

lemma as_u32_small:
  assumes "in_i32 (sint b)" "as_u32 b < 64"
  shows "0 \<le> sint b \<and> sint b < 64"
proof -
  have "\<not> sint b < 0"
  proof
    assume neg: "sint b < 0"
    with assms(1) have "sint b mod 4294967296 = sint b + 4294967296"
      using mod_pos_pos_trivial [of "sint b + 4294967296" 4294967296] by (simp add: in_i32_def)
    with neg assms show False by (simp add: as_u32_def in_i32_def)
  qed
  with assms show ?thesis by (auto simp: as_u32_def in_i32_def)
qed

lemma unat_eq_nat_sint: "0 \<le> sint b \<Longrightarrow> unat (b :: i64) = nat (sint b)"
  using sint_less [of b] uint_sint [of b] by (simp add: unat_eq_nat_uint take_bit_int_eq_self)

lemma i64_shl_checked:
  assumes "\<not> is_i64_overflow_shl a b"
  shows "0 \<le> sint b" "sint b < 64" "i64_shl a b = push_bit (nat (sint b)) a"
proof -
  from assms have "in_i32 (sint b)" "as_u32 b < 64"
    by (auto simp: is_i64_overflow_shl_def is_i32_overflow_iff i64_checked_shl_def split: if_splits)
  then have r: "0 \<le> sint b \<and> sint b < 64" by (rule as_u32_small)
  then show "0 \<le> sint b" "sint b < 64" by simp_all
  with r show "i64_shl a b = push_bit (nat (sint b)) a"
    by (simp add: i64_shl_def unat_eq_nat_sint)
qed

end
