(* ===== verification/RustFloat.thy ===== *)
theory RustFloat
  imports RustInt
begin

text \<open>
  Rust's \<open>f64\<close> (IEEE 754 binary64) as the runtime uses it: finite values are
  \<open>(-1)^s * m * 2^e\<close> with \<open>m \<ge> 0\<close>, every operation computes the exact result and rounds it to nearest, ties to
  even. \<open>powf\<close> is left to the platform by the standard library (\<open>f64::powf\<close> documents no precision), so the
  definitions that use it take it as an argument. The last section is the floating-point half of
  \<open>runtime/src/value/val_overflow.rs\<close>.
\<close>

section \<open>Representation and rounding\<close>

datatype f64 = NaN | Infinite bool | Fin bool int int

function bitlen :: "int \<Rightarrow> int" where
  "bitlen n = (if n \<le> 0 then 0 else 1 + bitlen (n div 2))"
  by pat_completeness auto
termination
  by (relation "measure nat") auto

declare bitlen.simps [simp del]

text \<open>\<open>f64_round s n d k\<close> rounds \<open>(-1)^s * n / d * 2^k\<close> (with \<open>d > 0\<close>).\<close>

definition f64_round_at :: "bool \<Rightarrow> int \<Rightarrow> int \<Rightarrow> int \<Rightarrow> int \<Rightarrow> f64" where
  "f64_round_at s n d k e =
     (let t = k - e;
          num = (if 0 \<le> t then n * 2 ^ nat t else n);
          den = (if 0 \<le> t then d else d * 2 ^ nat (- t));
          q = num div den;
          r = num mod den;
          q' = (if den < 2 * r \<or> (2 * r = den \<and> odd q) then q + 1 else q);
          m = (if q' = 2 ^ 53 then 2 ^ 52 else q');
          e' = (if q' = 2 ^ 53 then e + 1 else e)
      in if 971 < e' then Infinite s else Fin s m e')"

definition f64_exponent :: "int \<Rightarrow> int \<Rightarrow> int \<Rightarrow> int" where
  "f64_exponent n d k =
     (let e = k + bitlen n - bitlen d - 53;
          t = k - e;
          num = (if 0 \<le> t then n * 2 ^ nat t else n);
          den = (if 0 \<le> t then d else d * 2 ^ nat (- t))
      in max (- 1074) (if 2 ^ 53 \<le> num div den then e + 1 else e))"

definition f64_round :: "bool \<Rightarrow> int \<Rightarrow> int \<Rightarrow> int \<Rightarrow> f64" where
  "f64_round s n d k = (if n = 0 then Fin s 0 0 else f64_round_at s n d k (f64_exponent n d k))"

definition f64_scaled :: "bool \<Rightarrow> int \<Rightarrow> int \<Rightarrow> int \<Rightarrow> int" where
  "f64_scaled s m e e0 = (if s then - 1 else 1) * m * 2 ^ nat (e - e0)"

section \<open>Comparison\<close>

fun f64_eq :: "f64 \<Rightarrow> f64 \<Rightarrow> bool" where
  "f64_eq (Infinite s) (Infinite s') = (s = s')"
| "f64_eq (Fin s m e) (Fin s' m' e') =
     (f64_scaled s m e (min e e') = f64_scaled s' m' e' (min e e'))"
| "f64_eq _ _ = False"

fun f64_lt :: "f64 \<Rightarrow> f64 \<Rightarrow> bool" where
  "f64_lt (Infinite s) (Infinite s') = (s \<and> \<not> s')"
| "f64_lt (Infinite s) (Fin _ _ _) = s"
| "f64_lt (Fin _ _ _) (Infinite s) = (\<not> s)"
| "f64_lt (Fin s m e) (Fin s' m' e') =
     (f64_scaled s m e (min e e') < f64_scaled s' m' e' (min e e'))"
| "f64_lt _ _ = False"

definition f64_le :: "f64 \<Rightarrow> f64 \<Rightarrow> bool" where
  "f64_le x y = (f64_lt x y \<or> f64_eq x y)"

section \<open>Arithmetic\<close>

definition f64_exact :: "bool \<Rightarrow> int \<Rightarrow> int \<Rightarrow> f64" where
  "f64_exact s v e = (if v = 0 then Fin s 0 0 else f64_round (v < 0) \<bar>v\<bar> 1 e)"

fun f64_neg :: "f64 \<Rightarrow> f64" where
  "f64_neg NaN = NaN"
| "f64_neg (Infinite s) = Infinite (\<not> s)"
| "f64_neg (Fin s m e) = Fin (\<not> s) m e"

fun f64_add :: "f64 \<Rightarrow> f64 \<Rightarrow> f64" where
  "f64_add NaN _ = NaN"
| "f64_add _ NaN = NaN"
| "f64_add (Infinite s) (Infinite s') = (if s = s' then Infinite s else NaN)"
| "f64_add (Infinite s) _ = Infinite s"
| "f64_add _ (Infinite s) = Infinite s"
| "f64_add (Fin s m e) (Fin s' m' e') =
     f64_exact (s \<and> s') (f64_scaled s m e (min e e') + f64_scaled s' m' e' (min e e')) (min e e')"

definition f64_sub :: "f64 \<Rightarrow> f64 \<Rightarrow> f64" where
  "f64_sub x y = f64_add x (f64_neg y)"

fun f64_mul :: "f64 \<Rightarrow> f64 \<Rightarrow> f64" where
  "f64_mul NaN _ = NaN"
| "f64_mul _ NaN = NaN"
| "f64_mul (Infinite s) (Infinite s') = Infinite (s \<noteq> s')"
| "f64_mul (Infinite s) (Fin s' m _) = (if m = 0 then NaN else Infinite (s \<noteq> s'))"
| "f64_mul (Fin s m _) (Infinite s') = (if m = 0 then NaN else Infinite (s \<noteq> s'))"
| "f64_mul (Fin s m e) (Fin s' m' e') = f64_round (s \<noteq> s') (m * m') 1 (e + e')"

fun f64_div :: "f64 \<Rightarrow> f64 \<Rightarrow> f64" where
  "f64_div NaN _ = NaN"
| "f64_div _ NaN = NaN"
| "f64_div (Infinite _) (Infinite _) = NaN"
| "f64_div (Infinite s) (Fin s' _ _) = Infinite (s \<noteq> s')"
| "f64_div (Fin s _ _) (Infinite s') = Fin (s \<noteq> s') 0 0"
| "f64_div (Fin s m e) (Fin s' m' e') =
     (if m' = 0 then if m = 0 then NaN else Infinite (s \<noteq> s')
      else f64_round (s \<noteq> s') m m' (e - e'))"

text \<open>\<open>%\<close> on floats is the truncated remainder: the sign of the dividend, and always exact.\<close>

fun f64_rem :: "f64 \<Rightarrow> f64 \<Rightarrow> f64" where
  "f64_rem NaN _ = NaN"
| "f64_rem _ NaN = NaN"
| "f64_rem (Infinite _) _ = NaN"
| "f64_rem x (Infinite _) = x"
| "f64_rem (Fin s m e) (Fin _ m' e') =
     (if m' = 0 then NaN
      else let e0 = min e e' in
        f64_round s ((m * 2 ^ nat (e - e0)) mod (m' * 2 ^ nat (e' - e0))) 1 e0)"

fun f64_floor :: "f64 \<Rightarrow> f64" where
  "f64_floor (Fin s m e) =
     (if 0 \<le> e then Fin s m e
      else f64_exact s ((if s then - m else m) div 2 ^ nat (- e)) 0)"
| "f64_floor x = x"

section \<open>Conversions\<close>

definition f64_of_int :: "int \<Rightarrow> f64" where
  "f64_of_int v = f64_exact False v 0"

definition f64_of_i64 :: "i64 \<Rightarrow> f64" where
  "f64_of_i64 a = f64_of_int (sint a)"

definition f64_trunc :: "bool \<Rightarrow> int \<Rightarrow> int \<Rightarrow> int" where
  "f64_trunc s m e =
     (if s then - 1 else 1) * (if 0 \<le> e then m * 2 ^ nat e else m div 2 ^ nat (- e))"

text \<open>\<open>x as i64\<close> truncates, saturates at the bounds and maps NaN to 0.\<close>

fun i64_of_f64 :: "f64 \<Rightarrow> i64" where
  "i64_of_f64 NaN = 0"
| "i64_of_f64 (Infinite s) = (if s then i64_MIN else i64_MAX)"
| "i64_of_f64 (Fin s m e) =
     (let v = f64_trunc s m e in
      if v < - 9223372036854775808 then i64_MIN
      else if 9223372036854775807 < v then i64_MAX
      else word_of_int v)"

abbreviation f64_zero :: f64 where
  "f64_zero \<equiv> Fin False 0 0"

text \<open>\<open>f32::MAX as f64\<close>: \<open>(2^24 - 1) * 2^104\<close>.\<close>

definition f32_MAX :: f64 where
  "f32_MAX = Fin False 16777215 104"

definition f32_MIN :: f64 where
  "f32_MIN = Fin True 16777215 104"

section \<open>Order laws\<close>

lemma f64_scaled_shift:
  "e0' \<le> e0 \<Longrightarrow> e0 \<le> e \<Longrightarrow> f64_scaled s m e e0' = f64_scaled s m e e0 * 2 ^ nat (e0 - e0')"
  by (simp add: f64_scaled_def flip: power_add nat_add_distrib)

lemma f64_scaled_less_iff:
  assumes "e0' \<le> min e e'"
  shows "f64_scaled s m e (min e e') < f64_scaled s' m' e' (min e e') \<longleftrightarrow>
    f64_scaled s m e e0' < f64_scaled s' m' e' e0'"
proof -
  let ?p = "2 ^ nat (min e e' - e0') :: int"
  have "f64_scaled s m e e0' = f64_scaled s m e (min e e') * ?p"
    "f64_scaled s' m' e' e0' = f64_scaled s' m' e' (min e e') * ?p"
    using assms by (auto intro!: f64_scaled_shift)
  then show ?thesis by simp
qed

lemma f64_scaled_eq_iff:
  assumes "e0' \<le> min e e'"
  shows "f64_scaled s m e (min e e') = f64_scaled s' m' e' (min e e') \<longleftrightarrow>
    f64_scaled s m e e0' = f64_scaled s' m' e' e0'"
proof -
  let ?p = "2 ^ nat (min e e' - e0') :: int"
  have "f64_scaled s m e e0' = f64_scaled s m e (min e e') * ?p"
    "f64_scaled s' m' e' e0' = f64_scaled s' m' e' (min e e') * ?p"
    using assms by (auto intro!: f64_scaled_shift)
  then show ?thesis by simp
qed

lemma f64_eq_sym: "f64_eq x y = f64_eq y x"
  by (cases x; cases y) (auto simp: min.commute)

lemma f64_lt_irrefl [simp]: "\<not> f64_lt x x"
  by (cases x) auto

lemma f64_eq_trans: "f64_eq x y \<Longrightarrow> f64_eq y z \<Longrightarrow> f64_eq x z"
proof (cases x; cases y; cases z)
  fix s1 m1 e1 s2 m2 e2 s3 m3 e3
  assume eqs: "f64_eq x y" "f64_eq y z"
    and xyz: "x = Fin s1 m1 e1" "y = Fin s2 m2 e2" "z = Fin s3 m3 e3"
  define e0 where "e0 = min e1 (min e2 e3)"
  have le: "e0 \<le> min e1 e2" "e0 \<le> min e2 e3" "e0 \<le> min e1 e3"
    by (auto simp: e0_def min_def)
  from eqs xyz have "f64_scaled s1 m1 e1 e0 = f64_scaled s2 m2 e2 e0"
    "f64_scaled s2 m2 e2 e0 = f64_scaled s3 m3 e3 e0"
    by (simp_all add: f64_scaled_eq_iff [OF le(1)] f64_scaled_eq_iff [OF le(2)])
  then show "f64_eq x z" using xyz by (simp add: f64_scaled_eq_iff [OF le(3)])
qed auto

lemma f64_lt_trans: "f64_lt x y \<Longrightarrow> f64_lt y z \<Longrightarrow> f64_lt x z"
proof (cases x; cases y; cases z)
  fix s1 m1 e1 s2 m2 e2 s3 m3 e3
  assume lts: "f64_lt x y" "f64_lt y z"
    and xyz: "x = Fin s1 m1 e1" "y = Fin s2 m2 e2" "z = Fin s3 m3 e3"
  define e0 where "e0 = min e1 (min e2 e3)"
  have le: "e0 \<le> min e1 e2" "e0 \<le> min e2 e3" "e0 \<le> min e1 e3"
    by (auto simp: e0_def min_def)
  from lts xyz have "f64_scaled s1 m1 e1 e0 < f64_scaled s2 m2 e2 e0"
    "f64_scaled s2 m2 e2 e0 < f64_scaled s3 m3 e3 e0"
    by (simp_all add: f64_scaled_less_iff [OF le(1)] f64_scaled_less_iff [OF le(2)])
  then show "f64_lt x z" using xyz by (simp add: f64_scaled_less_iff [OF le(3)])
qed auto

lemma f64_lt_not_eq: "f64_lt x y \<Longrightarrow> \<not> f64_eq x y"
  by (cases x; cases y) auto

lemma f64_lt_asym: "f64_lt x y \<Longrightarrow> \<not> f64_lt y x"
  using f64_lt_trans [of x y x] by auto

section \<open>\<open>val_overflow.rs\<close>, the floating-point predicates\<close>

definition is_f32_overflow :: "f64 \<Rightarrow> bool" where
  "is_f32_overflow v = (f64_lt f32_MAX v \<or> f64_lt v f32_MIN)"

definition is_f32_overflow2 :: "f64 \<Rightarrow> f64 \<Rightarrow> bool" where
  "is_f32_overflow2 v1 v2 = (is_f32_overflow v1 \<or> is_f32_overflow v2)"

definition is_f32_overflow_add :: "f64 \<Rightarrow> f64 \<Rightarrow> bool" where
  "is_f32_overflow_add v1 v2 = (is_f32_overflow2 v1 v2 \<or> is_f32_overflow (f64_add v1 v2))"

definition is_f32_overflow_sub :: "f64 \<Rightarrow> f64 \<Rightarrow> bool" where
  "is_f32_overflow_sub v1 v2 = (is_f32_overflow2 v1 v2 \<or> is_f32_overflow (f64_sub v1 v2))"

definition is_f32_overflow_mul :: "f64 \<Rightarrow> f64 \<Rightarrow> bool" where
  "is_f32_overflow_mul v1 v2 = (is_f32_overflow2 v1 v2 \<or> is_f32_overflow (f64_mul v1 v2))"

definition is_f32_overflow_div :: "f64 \<Rightarrow> f64 \<Rightarrow> bool" where
  "is_f32_overflow_div v1 v2 = (is_f32_overflow2 v1 v2 \<or> is_f32_overflow (f64_div v1 v2))"

definition is_f32_overflow_pow :: "(f64 \<Rightarrow> f64 \<Rightarrow> f64) \<Rightarrow> f64 \<Rightarrow> f64 \<Rightarrow> bool" where
  "is_f32_overflow_pow powf v1 v2 =
     (is_f32_overflow2 v1 v2 \<or> is_i32_overflow (i64_of_f64 v2) \<or> is_f32_overflow (powf v1 v2))"

end
