(* ===== verification/Value.thy ===== *)
theory Value
  imports RustFloat
begin

text \<open>
  The runtime values of KCL (\<open>runtime/src/api/kclvm.rs\<close>) and the operations every other part of the
  runtime is built from: kinds, tests and coercions (\<open>val_kind.rs\<close>, \<open>val_is_in.rs\<close>,
  \<open>val_as_val.rs\<close>), truth values (\<open>val_logic.rs\<close>), lengths (\<open>val_len.rs\<close>), type names
  (\<open>val_type.rs\<close>), unary operators (\<open>val_unary.rs\<close>) and copies (\<open>val_clone.rs\<close>).

  A \<open>ValueRef\<close> is a reference-counted cell; the model keeps the tree of values the reference leads
  to, so an operation that mutates a cell returns the new tree. Two references to one cell are not
  distinguished from two equal cells.

  A Rust \<open>String\<close> is a sequence of UTF-8 bytes, here a \<open>char list\<close> of the same bytes.
\<close>

section \<open>Rust strings\<close>

text \<open>\<open>chars()\<close> groups each leading byte with the continuation bytes \<open>10xxxxxx\<close> that follow it.\<close>

definition is_continuation :: "char \<Rightarrow> bool" where
  "is_continuation c = (of_char c div 64 = (2 :: nat))"

fun str_chars :: "string \<Rightarrow> string list" where
  "str_chars [] = []"
| "str_chars (c # s) =
     (case str_chars s of
        [] \<Rightarrow> [[c]]
      | g # gs \<Rightarrow>
          if (case g of [] \<Rightarrow> False | d # _ \<Rightarrow> is_continuation d) then (c # g) # gs
          else [c] # g # gs)"

fun str_lt :: "string \<Rightarrow> string \<Rightarrow> bool" where
  "str_lt _ [] = False"
| "str_lt [] (_ # _) = True"
| "str_lt (c # s) (d # t) =
     (if of_char c < (of_char d :: nat) then True
      else if of_char d < (of_char c :: nat) then False
      else str_lt s t)"

definition str_le :: "string \<Rightarrow> string \<Rightarrow> bool" where
  "str_le s t = (s = t \<or> str_lt s t)"

fun str_starts_with :: "string \<Rightarrow> string \<Rightarrow> bool" where
  "str_starts_with s [] = True"
| "str_starts_with [] (_ # _) = False"
| "str_starts_with (c # s) (d # p) = (c = d \<and> str_starts_with s p)"

fun str_contains :: "string \<Rightarrow> string \<Rightarrow> bool" where
  "str_contains [] p = str_starts_with [] p"
| "str_contains (c # s) p = (str_starts_with (c # s) p \<or> str_contains s p)"

definition digit_char :: "nat \<Rightarrow> char" where
  "digit_char n = char_of (48 + n)"

fun nat_to_string :: "nat \<Rightarrow> string" where
  "nat_to_string n =
     (if n < 10 then [digit_char n] else nat_to_string (n div 10) @ [digit_char (n mod 10)])"

declare nat_to_string.simps [simp del]

definition int_to_string :: "int \<Rightarrow> string" where
  "int_to_string i = (if i < 0 then ''-'' @ nat_to_string (nat (- i)) else nat_to_string (nat i))"

lemma concat_str_chars: "concat (str_chars s) = s"
  by (induction s) (auto split: list.splits)

lemma str_chars_nonempty: "g \<in> set (str_chars s) \<Longrightarrow> g \<noteq> []"
  by (induction s arbitrary: g) (auto split: list.splits if_splits)

lemma str_chars_eq_Nil [simp]: "str_chars s = [] \<longleftrightarrow> s = []"
  using concat_str_chars [of s] by (cases s) (auto split: list.splits)

lemma length_str_chars: "length (str_chars s) \<le> length s"
  by (induction s) (auto split: list.splits)

lemma str_starts_with_iff: "str_starts_with s p \<longleftrightarrow> (\<exists>t. s = p @ t)"
  by (induction s p rule: str_starts_with.induct) auto

lemma str_contains_iff: "str_contains s p \<longleftrightarrow> (\<exists>u t. s = u @ p @ t)"
proof (induction s)
  case Nil
  then show ?case by (auto simp: str_starts_with_iff)
next
  case (Cons c s)
  have "(\<exists>u t. c # s = u @ p @ t) \<longleftrightarrow>
    (\<exists>t. c # s = p @ t) \<or> (\<exists>u t. s = u @ p @ t)" (is "?l \<longleftrightarrow> ?r")
  proof
    assume ?l
    then obtain u t where "c # s = u @ p @ t" by blast
    then show ?r by (cases u) auto
  next
    assume ?r
    then show ?l by (metis append_Cons append_Nil)
  qed
  with Cons show ?case by (simp add: str_starts_with_iff)
qed

lemma str_lt_irrefl [simp]: "\<not> str_lt s s"
  by (induction s) auto

lemma str_lt_trans: "str_lt s t \<Longrightarrow> str_lt t u \<Longrightarrow> str_lt s u"
proof (induction s u arbitrary: t rule: str_lt.induct)
  case (3 c s d u)
  then show ?case by (cases t) (auto split: if_splits)
qed (auto elim: str_lt.elims)

lemma str_lt_Nil [simp]: "str_lt [] s \<longleftrightarrow> s \<noteq> []"
  by (cases s) auto

lemma str_lt_linear: "str_lt s t \<or> s = t \<or> str_lt t s"
  by (induction s t rule: str_lt.induct) (auto simp: not_less_iff_gr_or_eq split: list.splits)

section \<open>Values\<close>

datatype config_entry_op = ConfigUnion | ConfigOverride | ConfigInsert

datatype 'v dict_struct = DictValue
  (dv_values: "(string, 'v) imap")
  (dv_ops: "(string, config_entry_op) imap")
  (dv_insert_indexs: "(string, i32) imap")
  (dv_attr_map: "(string, string) imap")
  (dv_potential_schema: "string option")

datatype 'v schema_struct = SchemaValue
  (sv_name: string)
  (sv_pkgpath: string)
  (sv_config: "'v dict_struct")
  (sv_config_keys: "string list")
  (sv_config_meta: 'v)
  (sv_optional_mapping: 'v)
  (sv_args: 'v)
  (sv_kwargs: 'v)

datatype 'v func_struct = FuncValue
  (fv_fn_ptr: "64 word")
  (fv_check_fn_ptr: "64 word")
  (fv_closure: 'v)
  (fv_name: string)
  (fv_runtime_type: string)
  (fv_is_external: bool)
  (fv_proxy: "nat option")

datatype val =
    undefined_value
  | none_value
  | bool_value bool
  | int_value i64
  | float_value f64
  | str_value string
  | list_value "val list"
  | dict_value "val dict_struct"
  | schema_value "val schema_struct"
  | func_value "val func_struct"
  | unit_value f64 i64 string

datatype kind =
    KindInvalid | KindUndefined | KindNone | KindBool | KindInt | KindFloat | KindStr | KindList
  | KindDict | KindSchema | KindError | KindAny | KindUnion | KindBoolLit | KindIntLit
  | KindFloatLit | KindStrLit | KindUnit | KindFunc

type_synonym dict_val = "val dict_struct"

section \<open>Panics\<close>

text \<open>
  One constructor per family of panics of the value operations, with the data its message prints;
  the panics of the builtin functions carry the name of the function and the fixed part of the message.
  \<open>RustPanic\<close> stands for the panics of the language itself: arithmetic (\<open>Arith\<close>), indexing
  (\<open>Bounds\<close>), allocation (\<open>Capacity\<close>) and \<open>unwrap\<close> of a missing value (\<open>Unwrap\<close>).
\<close>

datatype rust_panic = Arith | Bounds | Capacity | Unwrap

datatype rt_error =
    IntOverflow32 int
  | IntOverflow64 int
  | FloatOverflow32 f64
  | UnsupportedBinOp string string string
  | UnsupportedCmp string string string
  | BadUnaryOperand string string
  | ConcatError string
  | StrIndexOutOfRange i64
  | ListIndexOutOfRange i64
  | NotSubscriptable string string
  | IndexOutOfBounds nat i32
  | NotIterable string
  | NoLen string
  | InvalidObject string
  | UnionFailure string string
  | ConflictError "string list" string string
  | OnlyListIndexed string
  | BuiltinPanic string
  | RustPanic rust_panic

type_synonym 'a res = "(rt_error, 'a) result"

section \<open>Constructors, kinds and tests\<close>

definition DictValue_default :: dict_val where
  "DictValue_default = DictValue [] [] [] [] None"

definition dict_new :: "(string \<times> val) list \<Rightarrow> val" where
  "dict_new es = dict_value (DictValue (imap_extend [] es) [] [] [] None)"

definition list_new :: "val list \<Rightarrow> val" where
  "list_new vs = list_value vs"

fun val_kind :: "val \<Rightarrow> kind" where
  "val_kind undefined_value = KindUndefined"
| "val_kind none_value = KindNone"
| "val_kind (bool_value _) = KindBool"
| "val_kind (int_value _) = KindInt"
| "val_kind (float_value _) = KindFloat"
| "val_kind (str_value _) = KindStr"
| "val_kind (list_value _) = KindList"
| "val_kind (dict_value _) = KindDict"
| "val_kind (schema_value _) = KindSchema"
| "val_kind (func_value _) = KindFunc"
| "val_kind (unit_value _ _ _) = KindUnit"

fun type_str :: "val \<Rightarrow> string" where
  "type_str undefined_value = ''UndefinedType''"
| "type_str none_value = ''NoneType''"
| "type_str (bool_value _) = ''bool''"
| "type_str (int_value _) = ''int''"
| "type_str (float_value _) = ''float''"
| "type_str (unit_value _ raw suffix) =
     ''number_multiplier('' @ int_to_string (sint raw) @ suffix @ '')''"
| "type_str (str_value _) = ''str''"
| "type_str (list_value _) = ''list''"
| "type_str (dict_value _) = ''dict''"
| "type_str (schema_value s) = sv_name s"
| "type_str (func_value f) = (if fv_runtime_type f = [] then ''function'' else ''type'')"

fun is_undefined :: "val \<Rightarrow> bool" where
  "is_undefined undefined_value = True"
| "is_undefined _ = False"

fun is_none :: "val \<Rightarrow> bool" where
  "is_none none_value = True"
| "is_none _ = False"

definition is_bool :: "val \<Rightarrow> bool" where
  "is_bool v = (val_kind v = KindBool)"

definition is_int :: "val \<Rightarrow> bool" where
  "is_int v = (val_kind v = KindInt)"

definition is_float :: "val \<Rightarrow> bool" where
  "is_float v = (val_kind v = KindFloat)"

definition is_str :: "val \<Rightarrow> bool" where
  "is_str v = (val_kind v = KindStr)"

definition is_list :: "val \<Rightarrow> bool" where
  "is_list v = (val_kind v = KindList)"

definition is_dict :: "val \<Rightarrow> bool" where
  "is_dict v = (val_kind v = KindDict)"

definition is_schema :: "val \<Rightarrow> bool" where
  "is_schema v = (val_kind v = KindSchema)"

definition is_func :: "val \<Rightarrow> bool" where
  "is_func v = (val_kind v = KindFunc)"

fun is_number :: "val \<Rightarrow> bool" where
  "is_number (int_value _) = True"
| "is_number (float_value _) = True"
| "is_number _ = False"

fun is_builtin :: "val \<Rightarrow> bool" where
  "is_builtin (int_value _) = True"
| "is_builtin (float_value _) = True"
| "is_builtin (bool_value _) = True"
| "is_builtin (str_value _) = True"
| "is_builtin _ = False"

fun is_config :: "val \<Rightarrow> bool" where
  "is_config (schema_value _) = True"
| "is_config (dict_value _) = True"
| "is_config _ = False"

fun is_list_or_config :: "val \<Rightarrow> bool" where
  "is_list_or_config (list_value _) = True"
| "is_list_or_config (schema_value _) = True"
| "is_list_or_config (dict_value _) = True"
| "is_list_or_config _ = False"

fun is_none_or_undefined :: "val \<Rightarrow> bool" where
  "is_none_or_undefined none_value = True"
| "is_none_or_undefined undefined_value = True"
| "is_none_or_undefined _ = False"

fun is_unit :: "val \<Rightarrow> bool" where
  "is_unit (unit_value _ _ _) = True"
| "is_unit _ = False"

fun is_scalar :: "val \<Rightarrow> bool" where
  "is_scalar none_value = True"
| "is_scalar (bool_value _) = True"
| "is_scalar (int_value _) = True"
| "is_scalar (float_value _) = True"
| "is_scalar (str_value _) = True"
| "is_scalar (unit_value _ _ _) = True"
| "is_scalar _ = False"

lemmas is_kind_defs =
  is_bool_def is_int_def is_float_def is_str_def is_list_def is_dict_def is_schema_def is_func_def

section \<open>Truth values and coercions\<close>

fun is_truthy :: "val \<Rightarrow> bool" where
  "is_truthy undefined_value = False"
| "is_truthy none_value = False"
| "is_truthy (bool_value v) = v"
| "is_truthy (int_value v) = (v \<noteq> 0)"
| "is_truthy (float_value v) = (\<not> f64_eq v f64_zero)"
| "is_truthy (str_value v) = (v \<noteq> [])"
| "is_truthy (list_value v) = (v \<noteq> [])"
| "is_truthy (dict_value v) = (dv_values v \<noteq> [])"
| "is_truthy (schema_value v) = (dv_values (sv_config v) \<noteq> [])"
| "is_truthy (func_value _) = True"
| "is_truthy (unit_value v _ _) = (\<not> f64_eq v f64_zero)"

definition logic_and :: "val \<Rightarrow> val \<Rightarrow> bool" where
  "logic_and v x = (is_truthy v \<and> is_truthy x)"

definition logic_or :: "val \<Rightarrow> val \<Rightarrow> bool" where
  "logic_or v x = (is_truthy v \<or> is_truthy x)"

definition as_bool :: "val \<Rightarrow> bool" where
  "as_bool v = is_truthy v"

fun as_int :: "val \<Rightarrow> i64" where
  "as_int (int_value v) = v"
| "as_int (float_value v) = i64_of_f64 v"
| "as_int (unit_value v _ _) = i64_of_f64 v"
| "as_int _ = 0"

fun must_as_strict_int :: "val \<Rightarrow> i64 res" where
  "must_as_strict_int (int_value v) = Ok v"
| "must_as_strict_int _ = Err (InvalidObject ''invalid int value'')"

fun as_float :: "val \<Rightarrow> f64" where
  "as_float (int_value v) = f64_of_i64 v"
| "as_float (float_value v) = v"
| "as_float (unit_value v _ _) = v"
| "as_float _ = f64_zero"

fun as_num :: "val \<Rightarrow> f64" where
  "as_num (float_value v) = v"
| "as_num (int_value v) = f64_of_i64 v"
| "as_num _ = f64_zero"

fun as_str :: "val \<Rightarrow> string" where
  "as_str (str_value v) = v"
| "as_str _ = []"

fun as_list_ref :: "val \<Rightarrow> val list res" where
  "as_list_ref (list_value v) = Ok v"
| "as_list_ref _ = Err (InvalidObject ''invalid list value'')"

fun as_dict_ref :: "val \<Rightarrow> dict_val res" where
  "as_dict_ref (dict_value v) = Ok v"
| "as_dict_ref (schema_value v) = Ok (sv_config v)"
| "as_dict_ref _ = Err (InvalidObject ''invalid dict value'')"

fun as_schema :: "val \<Rightarrow> val schema_struct res" where
  "as_schema (schema_value v) = Ok v"
| "as_schema _ = Err (InvalidObject ''invalid schema value'')"

fun as_function :: "val \<Rightarrow> val func_struct res" where
  "as_function (func_value v) = Ok v"
| "as_function _ = Err (InvalidObject ''invalid func value'')"

fun as_unit :: "val \<Rightarrow> (f64 \<times> i64 \<times> string) res" where
  "as_unit (unit_value v raw unit) = Ok (v, raw, unit)"
| "as_unit _ = Err (InvalidObject ''invalid unit value'')"

fun val_len :: "val \<Rightarrow> nat res" where
  "val_len (str_value s) = Ok (length s)"
| "val_len (list_value v) = Ok (length v)"
| "val_len (dict_value v) = Ok (length (dv_values v))"
| "val_len (schema_value v) = Ok (length (dv_values (sv_config v)))"
| "val_len v = Err (NoLen (type_str v))"

definition val_is_empty :: "val \<Rightarrow> bool res" where
  "val_is_empty v = bind_res (val_len v) (\<lambda>n. Ok (n = 0))"

section \<open>Unary operators\<close>

fun unary_plus :: "val \<Rightarrow> val res" where
  "unary_plus (int_value a) = Ok (int_value a)"
| "unary_plus (float_value a) = Ok (float_value a)"
| "unary_plus v = Err (BadUnaryOperand ''+'' (type_str v))"

fun unary_minus :: "val \<Rightarrow> val res" where
  "unary_minus (int_value a) = Ok (int_value (0 - a))"
| "unary_minus (float_value a) = Ok (float_value (f64_sub f64_zero a))"
| "unary_minus v = Err (BadUnaryOperand ''-'' (type_str v))"

definition unary_not :: "val \<Rightarrow> val" where
  "unary_not v = int_value (NOT (as_int v))"

definition unary_l_not :: "val \<Rightarrow> val" where
  "unary_l_not v = bool_value (\<not> is_truthy v)"

section \<open>Shapes, induction and well-formedness\<close>

text \<open>
  \<open>dict_entries\<close> is \<open>as_dict_ref().values\<close> and \<open>list_items\<close> the vector of a list, both used under
  a match that has established the constructor.
\<close>

fun list_items :: "val \<Rightarrow> val list" where
  "list_items (list_value xs) = xs"
| "list_items _ = []"

fun dict_entries :: "val \<Rightarrow> (string, val) imap" where
  "dict_entries (dict_value d) = dv_values d"
| "dict_entries (schema_value s) = dv_values (sv_config s)"
| "dict_entries _ = []"

lemma size_list_items: "is_list v \<Longrightarrow> size_list size (list_items v) < size v"
  by (cases v) (auto simp: is_list_def)

lemma size_list_snd_le:
  "size_list (\<lambda>p. size (snd p)) xs \<le> size_list (size_prod (\<lambda>_. 0) size) xs"
  by (induction xs) auto

lemma size_dict_entries: "is_config v \<Longrightarrow> size_list (\<lambda>p. size (snd p)) (dict_entries v) < size v"
proof (cases v)
  case (dict_value d)
  then show ?thesis
    using size_list_snd_le [of "dv_values d"] by (cases d) auto
next
  case (schema_value s)
  then show ?thesis
    using size_list_snd_le [of "dv_values (sv_config s)"] by (cases s; cases "sv_config s") auto
qed auto

lemma mem_size_list_le: "x \<in> set xs \<Longrightarrow> f x \<le> size_list f xs"
  by (induction xs) auto

lemma val_induct [case_names List Config Leaf]:
  assumes list: "\<And>vs. (\<And>v. v \<in> set vs \<Longrightarrow> P v) \<Longrightarrow> P (list_value vs)"
    and config: "\<And>c. is_config c \<Longrightarrow> (\<And>k v. (k, v) \<in> set (dict_entries c) \<Longrightarrow> P v) \<Longrightarrow> P c"
    and leaf: "\<And>v. \<not> is_list_or_config v \<Longrightarrow> P v"
  shows "P v"
proof (induction v rule: measure_induct_rule [of size])
  case (less v)
  consider (l) vs where "v = list_value vs" | (c) "is_config v" | (n) "\<not> is_list_or_config v"
    by (cases v) auto
  then show ?case
  proof cases
    case l
    then show ?thesis
      using less mem_size_list_le [of _ vs size] by (auto intro!: list le_imp_less_Suc)
  next
    case c
    show ?thesis
    proof (rule config [OF c])
      fix k w
      assume "(k, w) \<in> set (dict_entries v)"
      then have "size w \<le> size_list (\<lambda>p. size (snd p)) (dict_entries v)"
        using mem_size_list_le [of "(k, w)" _ "\<lambda>p. size (snd p)"] by simp
      also have "\<dots> < size v" using c by (rule size_dict_entries)
      finally show "P w" by (rule less)
    qed
  next
    case n
    then show ?thesis by (rule leaf)
  qed
qed

text \<open>
  The invariant of every value the runtime builds: its dictionaries are maps, so no key occurs
  twice in any of their tables.
\<close>

definition dv_inv :: "'v dict_struct \<Rightarrow> bool" where
  "dv_inv d = (imap_inv (dv_values d) \<and> imap_inv (dv_ops d) \<and>
     imap_inv (dv_insert_indexs d) \<and> imap_inv (dv_attr_map d))"

fun config_struct :: "val \<Rightarrow> dict_val" where
  "config_struct (dict_value d) = d"
| "config_struct (schema_value s) = sv_config s"
| "config_struct _ = DictValue [] [] [] [] None"

lemma dict_entries_config: "dict_entries v = dv_values (config_struct v)"
  by (cases v) auto

function val_all :: "(val \<Rightarrow> bool) \<Rightarrow> val \<Rightarrow> bool" where
  "val_all P v =
     (P v \<and>
      (if is_list v then (\<forall>w \<in> set (list_items v). val_all P w)
       else if is_config v then (\<forall>p \<in> set (dict_entries v). val_all P (snd p))
       else True))"
  by pat_completeness auto
termination
proof (relation "measure (size \<circ> snd)", goal_cases)
  case (2 P v w)
  then show ?case using size_list_items [of v] mem_size_list_le [of w "list_items v" size] by simp
next
  case (3 P v p)
  then show ?case
    using size_dict_entries [of v] mem_size_list_le [of p "dict_entries v" "\<lambda>p. size (snd p)"]
    by simp
qed simp

declare val_all.simps [simp del]

lemma val_all_simps [simp]:
  "val_all P (list_value vs) \<longleftrightarrow> P (list_value vs) \<and> (\<forall>w \<in> set vs. val_all P w)"
  "val_all P (dict_value d) \<longleftrightarrow> P (dict_value d) \<and> (\<forall>p \<in> set (dv_values d). val_all P (snd p))"
  "val_all P (schema_value s) \<longleftrightarrow>
     P (schema_value s) \<and> (\<forall>p \<in> set (dv_values (sv_config s)). val_all P (snd p))"
  by (simp_all add: is_list_def val_all.simps [of P "list_value vs"]
      val_all.simps [of P "dict_value d"] val_all.simps [of P "schema_value s"])

lemma val_all_leaf [simp]: "\<not> is_list_or_config v \<Longrightarrow> val_all P v \<longleftrightarrow> P v"
  by (cases v) (auto simp: is_list_def val_all.simps)

lemma val_all_config:
  "is_config c \<Longrightarrow> val_all P c \<longleftrightarrow> P c \<and> (\<forall>p \<in> set (dict_entries c). val_all P (snd p))"
  by (cases c) auto

definition wf_val :: "val \<Rightarrow> bool" where
  "wf_val v = val_all (\<lambda>c. is_config c \<longrightarrow> dv_inv (config_struct c)) v"

lemma wf_val_list [simp]: "wf_val (list_value vs) \<longleftrightarrow> (\<forall>w \<in> set vs. wf_val w)"
  by (simp add: wf_val_def)

lemma wf_val_dict [simp]:
  "wf_val (dict_value d) \<longleftrightarrow> dv_inv d \<and> (\<forall>p \<in> set (dv_values d). wf_val (snd p))"
  by (simp add: wf_val_def)

lemma wf_val_schema [simp]:
  "wf_val (schema_value s) \<longleftrightarrow>
     dv_inv (sv_config s) \<and> (\<forall>p \<in> set (dv_values (sv_config s)). wf_val (snd p))"
  by (simp add: wf_val_def)

lemma wf_val_leaf [simp]: "\<not> is_list_or_config v \<Longrightarrow> wf_val v"
  by (cases v) (simp_all add: wf_val_def)

lemma wf_val_entryD: "wf_val c \<Longrightarrow> (k, v) \<in> set (dict_entries c) \<Longrightarrow> wf_val v"
  by (cases c) force+

lemma wf_val_entries_inv: "wf_val c \<Longrightarrow> imap_inv (dict_entries c)"
  by (cases c) (auto simp: dv_inv_def)

section \<open>Copies\<close>

definition dv_update_entry ::
    "string \<Rightarrow> 'v \<Rightarrow> config_entry_op \<Rightarrow> i32 option \<Rightarrow> 'v dict_struct \<Rightarrow> 'v dict_struct" where
  "dv_update_entry key v op index d =
     DictValue (imap_insert key v (dv_values d)) (imap_insert key op (dv_ops d))
       (case index of
          None \<Rightarrow> dv_insert_indexs d
        | Some i \<Rightarrow> imap_insert key i (dv_insert_indexs d))
       (dv_attr_map d) (dv_potential_schema d)"

definition dv_set_potential_schema :: "string \<Rightarrow> 'v dict_struct \<Rightarrow> 'v dict_struct" where
  "dv_set_potential_schema t d =
     (if t = [] then d
      else DictValue (dv_values d) (dv_ops d) (dv_insert_indexs d) (dv_attr_map d) (Some t))"

definition dv_update_attr_map :: "string \<Rightarrow> string \<Rightarrow> 'v dict_struct \<Rightarrow> 'v dict_struct" where
  "dv_update_attr_map k t d =
     DictValue (dv_values d) (dv_ops d) (dv_insert_indexs d) (imap_insert k t (dv_attr_map d))
       (dv_potential_schema d)"

definition op_or_union :: "(string, config_entry_op) imap \<Rightarrow> string \<Rightarrow> config_entry_op" where
  "op_or_union ops k = (case imap_get ops k of None \<Rightarrow> ConfigUnion | Some op \<Rightarrow> op)"

definition unwrap_or_default :: "string option \<Rightarrow> string" where
  "unwrap_or_default o1 = (case o1 of None \<Rightarrow> [] | Some s \<Rightarrow> s)"

text \<open>
  The loops of \<open>deep_copy\<close> over the entries of a dict and of a schema's config; the latter also
  carries the attribute type annotations over.
\<close>

fun deep_copy :: "val \<Rightarrow> val"
  and copy_entries :: "(string, config_entry_op) imap \<Rightarrow> (string, i32) imap \<Rightarrow>
    (string, string) imap \<Rightarrow> (string, val) imap \<Rightarrow> dict_val \<Rightarrow> dict_val" where
  "deep_copy (list_value vs) = list_value (map deep_copy vs)"
| "deep_copy (dict_value (DictValue vs ops idx am ps)) =
     dict_value (dv_set_potential_schema (unwrap_or_default ps)
       (copy_entries ops idx [] vs DictValue_default))"
| "deep_copy (schema_value (SchemaValue name pkg (DictValue vs ops idx am ps) keys meta opt ar kw)) =
     schema_value (SchemaValue name pkg
       (copy_entries ops idx am vs
          (dv_set_potential_schema (unwrap_or_default ps) DictValue_default))
       keys meta opt ar kw)"
| "deep_copy v = v"
| "copy_entries ops idx am [] d = d"
| "copy_entries ops idx am ((k, v) # es) d =
     (let d' = dv_update_entry k (deep_copy v) (op_or_union ops k) (imap_get idx k) d in
      copy_entries ops idx am es
        (case imap_get am k of None \<Rightarrow> d' | Some t \<Rightarrow> dv_update_attr_map k t d'))"

end
