(* ===== verification/ValueCmp.thy ===== *)
theory ValueCmp
  imports Value
begin

text \<open>
  Comparison of runtime values (\<open>runtime/src/value/val_cmp.rs\<close>, the \<open>Ord\<close> instance in
  \<open>api/kclvm.rs\<close>), the \<open>in\<close> operator (\<open>val_is_in.rs\<close>) and the partial order \<open>value_subsume\<close> that the
  union operator checks (\<open>unification/subsume.rs\<close>).
\<close>

section \<open>Definitions\<close>

definition i64_of_bool :: "bool \<Rightarrow> i64" where
  "i64_of_bool b = (if b then 1 else 0)"

definition f64_of_bool :: "bool \<Rightarrow> f64" where
  "f64_of_bool b = f64_of_i64 (i64_of_bool b)"

fun cmp_equal :: "val \<Rightarrow> val \<Rightarrow> bool"
  and cmp_equal_list :: "val list \<Rightarrow> val list \<Rightarrow> bool"
  and cmp_equal_entries :: "(string, val) imap \<Rightarrow> (string, val) imap \<Rightarrow> bool" where
  "cmp_equal (int_value a) x =
     (case x of int_value b \<Rightarrow> a = b | float_value b \<Rightarrow> f64_eq (f64_of_i64 a) b | _ \<Rightarrow> False)"
| "cmp_equal (float_value a) x =
     (case x of int_value b \<Rightarrow> f64_eq a (f64_of_i64 b) | float_value b \<Rightarrow> f64_eq a b | _ \<Rightarrow> False)"
| "cmp_equal undefined_value x = (case x of undefined_value \<Rightarrow> True | _ \<Rightarrow> False)"
| "cmp_equal none_value x = (case x of none_value \<Rightarrow> True | _ \<Rightarrow> False)"
| "cmp_equal (bool_value a) x = (case x of bool_value b \<Rightarrow> a = b | _ \<Rightarrow> False)"
| "cmp_equal (str_value a) x = (case x of str_value b \<Rightarrow> a = b | _ \<Rightarrow> False)"
| "cmp_equal (list_value a) x =
     (case x of list_value b \<Rightarrow> length a = length b \<and> cmp_equal_list a b | _ \<Rightarrow> False)"
| "cmp_equal (dict_value (DictValue vs ops idx am ps)) x =
     (case x of
        dict_value b \<Rightarrow> length vs = length (dv_values b) \<and> cmp_equal_entries vs (dv_values b)
      | _ \<Rightarrow> False)"
| "cmp_equal (schema_value (SchemaValue nm pk (DictValue vs ops idx am ps) ks mt om ar kw)) x =
     (case x of
        schema_value b \<Rightarrow> length vs = length (dv_values (sv_config b)) \<and>
          cmp_equal_entries vs (dv_values (sv_config b))
      | _ \<Rightarrow> False)"
| "cmp_equal (func_value a) x =
     (case x of func_value b \<Rightarrow> fv_fn_ptr a = fv_fn_ptr b | _ \<Rightarrow> False)"
| "cmp_equal (unit_value r n u) x = False"
| "cmp_equal_list [] bs = True"
| "cmp_equal_list (a # as) bs =
     (case bs of [] \<Rightarrow> True | b # bs' \<Rightarrow> cmp_equal a b \<and> cmp_equal_list as bs')"
| "cmp_equal_entries [] bs = True"
| "cmp_equal_entries ((k, v) # es) bs =
     (case imap_get bs k of None \<Rightarrow> False | Some w \<Rightarrow> cmp_equal v w \<and> cmp_equal_entries es bs)"

definition cmp_not_equal :: "val \<Rightarrow> val \<Rightarrow> bool" where
  "cmp_not_equal v x = (\<not> cmp_equal v x)"

definition cmp_error :: "string \<Rightarrow> val \<Rightarrow> val \<Rightarrow> bool res" where
  "cmp_error op v x = Err (UnsupportedCmp op (type_str v) (type_str x))"

fun cmp_less_than :: "val \<Rightarrow> val \<Rightarrow> bool res"
  and cmp_less_than_list :: "val list \<Rightarrow> val list \<Rightarrow> bool res" where
  "cmp_less_than (int_value a) x =
     (case x of
        int_value b \<Rightarrow> Ok (sint a < sint b)
      | float_value b \<Rightarrow> Ok (f64_lt (f64_of_i64 a) b)
      | bool_value b \<Rightarrow> Ok (sint a < sint (i64_of_bool b))
      | _ \<Rightarrow> cmp_error ''<'' (int_value a) x)"
| "cmp_less_than (float_value a) x =
     (case x of
        int_value b \<Rightarrow> Ok (f64_lt a (f64_of_i64 b))
      | float_value b \<Rightarrow> Ok (f64_lt a b)
      | bool_value b \<Rightarrow> Ok (f64_lt a (f64_of_bool b))
      | _ \<Rightarrow> cmp_error ''<'' (float_value a) x)"
| "cmp_less_than (bool_value a) x =
     (case x of
        int_value b \<Rightarrow> Ok (sint (i64_of_bool a) < sint b)
      | float_value b \<Rightarrow> Ok (f64_lt (f64_of_bool a) b)
      | bool_value b \<Rightarrow> Ok (\<not> a \<and> b)
      | _ \<Rightarrow> cmp_error ''<'' (bool_value a) x)"
| "cmp_less_than (str_value a) x =
     (case x of str_value b \<Rightarrow> Ok (str_lt a b) | _ \<Rightarrow> cmp_error ''<'' (str_value a) x)"
| "cmp_less_than (list_value a) x =
     (case x of list_value b \<Rightarrow> cmp_less_than_list a b | _ \<Rightarrow> cmp_error ''<'' (list_value a) x)"
| "cmp_less_than v x = cmp_error ''<'' v x"
| "cmp_less_than_list [] bs = Ok (bs \<noteq> [])"
| "cmp_less_than_list (a # as) bs =
     (case bs of
        [] \<Rightarrow> Ok False
      | b # bs' \<Rightarrow> if \<not> cmp_equal a b then cmp_less_than a b else cmp_less_than_list as bs')"

fun cmp_less_than_or_equal :: "val \<Rightarrow> val \<Rightarrow> bool res"
  and cmp_less_than_or_equal_list :: "val list \<Rightarrow> val list \<Rightarrow> bool res" where
  "cmp_less_than_or_equal (int_value a) x =
     (case x of
        int_value b \<Rightarrow> Ok (sint a \<le> sint b)
      | float_value b \<Rightarrow> Ok (f64_le (f64_of_i64 a) b)
      | bool_value b \<Rightarrow> Ok (sint a \<le> sint (i64_of_bool b))
      | _ \<Rightarrow> cmp_error ''<='' (int_value a) x)"
| "cmp_less_than_or_equal (float_value a) x =
     (case x of
        int_value b \<Rightarrow> Ok (f64_le a (f64_of_i64 b))
      | float_value b \<Rightarrow> Ok (f64_le a b)
      | bool_value b \<Rightarrow> Ok (f64_le a (f64_of_bool b))
      | _ \<Rightarrow> cmp_error ''<='' (float_value a) x)"
| "cmp_less_than_or_equal (bool_value a) x =
     (case x of
        int_value b \<Rightarrow> Ok (sint (i64_of_bool a) \<le> sint b)
      | float_value b \<Rightarrow> Ok (f64_le (f64_of_bool a) b)
      | bool_value b \<Rightarrow> Ok (a \<longrightarrow> b)
      | _ \<Rightarrow> cmp_error ''<='' (bool_value a) x)"
| "cmp_less_than_or_equal (str_value a) x =
     (case x of str_value b \<Rightarrow> Ok (str_le a b) | _ \<Rightarrow> cmp_error ''<='' (str_value a) x)"
| "cmp_less_than_or_equal (list_value a) x =
     (case x of
        list_value b \<Rightarrow> cmp_less_than_or_equal_list a b
      | _ \<Rightarrow> cmp_error ''<='' (list_value a) x)"
| "cmp_less_than_or_equal v x = cmp_error ''<='' v x"
| "cmp_less_than_or_equal_list [] bs = Ok True"
| "cmp_less_than_or_equal_list (a # as) bs =
     (case bs of
        [] \<Rightarrow> Ok False
      | b # bs' \<Rightarrow>
          if \<not> cmp_equal a b then cmp_less_than_or_equal a b
          else cmp_less_than_or_equal_list as bs')"

fun cmp_greater_than :: "val \<Rightarrow> val \<Rightarrow> bool res"
  and cmp_greater_than_list :: "val list \<Rightarrow> val list \<Rightarrow> bool res" where
  "cmp_greater_than (int_value a) x =
     (case x of
        int_value b \<Rightarrow> Ok (sint a > sint b)
      | float_value b \<Rightarrow> Ok (f64_lt b (f64_of_i64 a))
      | bool_value b \<Rightarrow> Ok (sint a > sint (i64_of_bool b))
      | _ \<Rightarrow> cmp_error ''>'' (int_value a) x)"
| "cmp_greater_than (float_value a) x =
     (case x of
        int_value b \<Rightarrow> Ok (f64_lt (f64_of_i64 b) a)
      | float_value b \<Rightarrow> Ok (f64_lt b a)
      | bool_value b \<Rightarrow> Ok (f64_lt (f64_of_bool b) a)
      | _ \<Rightarrow> cmp_error ''>'' (float_value a) x)"
| "cmp_greater_than (bool_value a) x =
     (case x of
        int_value b \<Rightarrow> Ok (sint (i64_of_bool a) > sint b)
      | float_value b \<Rightarrow> Ok (f64_lt b (f64_of_bool a))
      | bool_value b \<Rightarrow> Ok (a \<and> \<not> b)
      | _ \<Rightarrow> cmp_error ''>'' (bool_value a) x)"
| "cmp_greater_than (str_value a) x =
     (case x of str_value b \<Rightarrow> Ok (str_lt b a) | _ \<Rightarrow> cmp_error ''>'' (str_value a) x)"
| "cmp_greater_than (list_value a) x =
     (case x of
        list_value b \<Rightarrow> cmp_greater_than_list a b
      | _ \<Rightarrow> cmp_error ''>'' (list_value a) x)"
| "cmp_greater_than v x = cmp_error ''>'' v x"
| "cmp_greater_than_list [] bs = Ok False"
| "cmp_greater_than_list (a # as) bs =
     (case bs of
        [] \<Rightarrow> Ok True
      | b # bs' \<Rightarrow>
          if \<not> cmp_equal a b then cmp_greater_than a b else cmp_greater_than_list as bs')"

fun cmp_greater_than_or_equal :: "val \<Rightarrow> val \<Rightarrow> bool res"
  and cmp_greater_than_or_equal_list :: "val list \<Rightarrow> val list \<Rightarrow> bool res" where
  "cmp_greater_than_or_equal (int_value a) x =
     (case x of
        int_value b \<Rightarrow> Ok (sint a \<ge> sint b)
      | float_value b \<Rightarrow> Ok (f64_le b (f64_of_i64 a))
      | bool_value b \<Rightarrow> Ok (sint a \<ge> sint (i64_of_bool b))
      | _ \<Rightarrow> cmp_error ''>='' (int_value a) x)"
| "cmp_greater_than_or_equal (float_value a) x =
     (case x of
        int_value b \<Rightarrow> Ok (f64_le (f64_of_i64 b) a)
      | float_value b \<Rightarrow> Ok (f64_le b a)
      | bool_value b \<Rightarrow> Ok (f64_le (f64_of_bool b) a)
      | _ \<Rightarrow> cmp_error ''>='' (float_value a) x)"
| "cmp_greater_than_or_equal (bool_value a) x =
     (case x of
        int_value b \<Rightarrow> Ok (sint (i64_of_bool a) \<ge> sint b)
      | float_value b \<Rightarrow> Ok (f64_le b (f64_of_bool a))
      | bool_value b \<Rightarrow> Ok (b \<longrightarrow> a)
      | _ \<Rightarrow> cmp_error ''>='' (bool_value a) x)"
| "cmp_greater_than_or_equal (str_value a) x =
     (case x of str_value b \<Rightarrow> Ok (str_le b a) | _ \<Rightarrow> cmp_error ''>='' (str_value a) x)"
| "cmp_greater_than_or_equal (list_value a) x =
     (case x of
        list_value b \<Rightarrow> cmp_greater_than_or_equal_list a b
      | _ \<Rightarrow> cmp_error ''>='' (list_value a) x)"
| "cmp_greater_than_or_equal v x = cmp_error ''>='' v x"
| "cmp_greater_than_or_equal_list [] bs = Ok (bs = [])"
| "cmp_greater_than_or_equal_list (a # as) bs =
     (case bs of
        [] \<Rightarrow> Ok True
      | b # bs' \<Rightarrow>
          if \<not> cmp_equal a b then cmp_greater_than_or_equal a b
          else cmp_greater_than_or_equal_list as bs')"

text \<open>
  \<open>Ord::cmp\<close> on values: \<open>None\<close> of the partial comparison is the panic "cannot compare".
\<close>

definition f64_partial_cmp :: "f64 \<Rightarrow> f64 \<Rightarrow> ordering option" where
  "f64_partial_cmp a b =
     (if f64_lt a b then Some Less else if f64_eq a b then Some Equal
      else if f64_lt b a then Some Greater else None)"

definition i64_cmp :: "i64 \<Rightarrow> i64 \<Rightarrow> ordering" where
  "i64_cmp a b = (if sint a < sint b then Less else if a = b then Equal else Greater)"

definition str_cmp :: "string \<Rightarrow> string \<Rightarrow> ordering" where
  "str_cmp a b = (if str_lt a b then Less else if a = b then Equal else Greater)"

definition val_cmp :: "val \<Rightarrow> val \<Rightarrow> ordering res" where
  "val_cmp v x =
     (case
        (case v of
           int_value a \<Rightarrow>
             (case x of
                int_value b \<Rightarrow> Some (i64_cmp a b)
              | float_value b \<Rightarrow> f64_partial_cmp (f64_of_i64 a) b
              | _ \<Rightarrow> None)
         | float_value a \<Rightarrow>
             (case x of
                int_value b \<Rightarrow> f64_partial_cmp a (f64_of_i64 b)
              | float_value b \<Rightarrow> f64_partial_cmp a b
              | _ \<Rightarrow> None)
         | str_value a \<Rightarrow> (case x of str_value b \<Rightarrow> Some (str_cmp a b) | _ \<Rightarrow> None)
         | _ \<Rightarrow> None)
      of Some ord \<Rightarrow> Ok ord
       | None \<Rightarrow> Err (UnsupportedCmp ''cmp'' (type_str v) (type_str x)))"

subsection \<open>Membership\<close>

fun list_any_equal :: "val \<Rightarrow> val list \<Rightarrow> bool" where
  "list_any_equal v [] = False"
| "list_any_equal v (w # ws) = (if cmp_equal v w then True else list_any_equal v ws)"

fun val_in :: "val \<Rightarrow> val \<Rightarrow> bool res" where
  "val_in v (str_value b) = Ok (case v of str_value a \<Rightarrow> str_contains b a | _ \<Rightarrow> False)"
| "val_in v (list_value l) = Ok (list_any_equal v l)"
| "val_in v (dict_value d) = Ok (imap_contains (dv_values d) (as_str v))"
| "val_in v (schema_value s) = Ok (imap_contains (dv_values (sv_config s)) (as_str v))"
| "val_in v x = Err (NotIterable (type_str x))"

definition val_not_in :: "val \<Rightarrow> val \<Rightarrow> bool res" where
  "val_not_in v x = bind_res (val_in v x) (\<lambda>b. Ok (\<not> b))"

fun has_key :: "val \<Rightarrow> string \<Rightarrow> bool" where
  "has_key (dict_value d) key = imap_contains (dv_values d) key"
| "has_key (schema_value s) key = imap_contains (dv_values (sv_config s)) key"
| "has_key _ key = False"

definition has_value :: "val \<Rightarrow> val \<Rightarrow> bool res" where
  "has_value v x = val_in x v"

subsection \<open>Subsumption of values\<close>

definition subsume_disjoint :: "(string, val) imap \<Rightarrow> (string, val) imap \<Rightarrow> bool" where
  "subsume_disjoint es fs = (es = [] \<or> list_all (\<lambda>k. \<not> imap_contains fs k) (imap_keys es))"

function value_subsume :: "bool \<Rightarrow> val \<Rightarrow> val \<Rightarrow> bool"
  and value_subsume_zip :: "bool \<Rightarrow> val list \<Rightarrow> val list \<Rightarrow> bool"
  and value_subsume_entries :: "bool \<Rightarrow> (string, val) imap \<Rightarrow> (string, val) imap \<Rightarrow> bool" where
  "value_subsume r v1 v2 =
     (if is_none_or_undefined v1 \<or> is_none_or_undefined v2 then True
      else if cmp_equal v1 v2 then True
      else if is_int v1 \<and> is_int v2 then as_int v1 = as_int v2
      else if is_float v1 \<and> is_float v2 then f64_eq (as_float v1) (as_float v2)
      else if is_bool v1 \<and> is_bool v2 then as_bool v1 = as_bool v2
      else if is_str v1 \<and> is_str v2 then as_str v1 = as_str v2
      else if is_list v1 \<and> is_list v2 then
        length (list_items v1) = length (list_items v2) \<and>
          value_subsume_zip r (list_items v1) (list_items v2)
      else if is_config v1 \<and> is_config v2 then
        (if subsume_disjoint (dict_entries v1) (dict_entries v2) then True
         else if r then value_subsume_entries r (dict_entries v1) (dict_entries v2)
         else True)
      else False)"
| "value_subsume_zip r [] ys = True"
| "value_subsume_zip r (x # xs) ys =
     (case ys of [] \<Rightarrow> True | y # ys' \<Rightarrow> value_subsume r x y \<and> value_subsume_zip r xs ys')"
| "value_subsume_entries r [] fs = True"
| "value_subsume_entries r ((k, v) # es) fs =
     (case imap_get fs k of
        None \<Rightarrow> value_subsume_entries r es fs
      | Some w \<Rightarrow> if \<not> value_subsume r v w then False else value_subsume_entries r es fs)"
  by pat_completeness auto

termination
  by (relation "measure (\<lambda>x. case x of
        Inl (r, v, w) \<Rightarrow> size v
      | Inr (Inl (r, xs, ys)) \<Rightarrow> size_list size xs
      | Inr (Inr (r, es, fs)) \<Rightarrow> size_list (\<lambda>p. size (snd p)) es)")
    (auto simp: size_list_items size_dict_entries)

declare value_subsume.simps [simp del]

section \<open>The scalar orders\<close>

text \<open>
  What \<open>PartialOrd\<close> promises of the scalar types the comparison operators dispatch to: \<open>lt\<close> is
  transitive, excludes equality, and \<open>le\<close> is their union. NaN makes \<open>eq\<close> partial, so reflexivity
  is not part of the contract.
\<close>

locale partial_ord =
  fixes eq lt le :: "'a \<Rightarrow> 'a \<Rightarrow> bool"
  assumes eq_sym: "eq x y \<Longrightarrow> eq y x"
    and lt_not_eq: "lt x y \<Longrightarrow> \<not> eq x y"
    and lt_irrefl: "\<not> lt x x"
    and lt_trans: "lt x y \<Longrightarrow> lt y z \<Longrightarrow> lt x z"
    and le_iff: "le x y \<longleftrightarrow> lt x y \<or> eq x y"
begin

lemma lt_asym: "lt x y \<Longrightarrow> \<not> lt y x"
  using lt_trans [of x y x] lt_irrefl by blast

lemma le_antisym: "le x y \<Longrightarrow> le y x \<Longrightarrow> eq x y"
  using lt_asym eq_sym by (auto simp: le_iff)

lemma lt_imp_not_le: "lt x y \<Longrightarrow> \<not> le y x"
  using lt_asym [of x y] lt_not_eq [of x y] eq_sym [of y x] by (auto simp: le_iff)

end

interpretation f64_ord: partial_ord f64_eq f64_lt f64_le
  by unfold_locales
    (auto simp: f64_le_def f64_lt_not_eq intro: f64_lt_trans f64_eq_sym [THEN iffD1])

interpretation str_ord: partial_ord "(=)" str_lt str_le
  by unfold_locales (auto simp: str_le_def intro: str_lt_trans)

interpretation i64_ord: partial_ord "(=)" "\<lambda>a b. sint (a :: i64) < sint b" "\<lambda>a b. sint a \<le> sint b"
  by unfold_locales (auto simp: i64_eq_iff)

section \<open>Equality of values\<close>

lemma cmp_equal_list_all2:
  "length as = length bs \<Longrightarrow> cmp_equal_list as bs \<longleftrightarrow> list_all2 cmp_equal as bs"
  by (induction as bs rule: list_induct2) auto

lemma cmp_equal_entries_iff:
  "cmp_equal_entries es fs \<longleftrightarrow>
     (\<forall>(k, v) \<in> set es. \<exists>w. imap_get fs k = Some w \<and> cmp_equal v w)"
  by (induction es) (auto split: option.splits)

lemma cmp_equal_dict [simp]:
  "cmp_equal (dict_value d) x \<longleftrightarrow>
     (\<exists>e. x = dict_value e \<and> length (dv_values d) = length (dv_values e) \<and>
        cmp_equal_entries (dv_values d) (dv_values e))"
  by (cases d; cases x) auto

lemma cmp_equal_schema [simp]:
  "cmp_equal (schema_value s) x \<longleftrightarrow>
     (\<exists>t. x = schema_value t \<and> length (dv_values (sv_config s)) = length (dv_values (sv_config t)) \<and>
        cmp_equal_entries (dv_values (sv_config s)) (dv_values (sv_config t)))"
  by (cases s; cases "sv_config s"; cases x) auto

text \<open>Two maps of one length with the keys of the first among those of the second have the same keys.\<close>

lemma imap_keys_eqI:
  assumes "imap_inv es" "imap_inv fs" "length es = length fs" "set (imap_keys es) \<subseteq> set (imap_keys fs)"
  shows "set (imap_keys es) = set (imap_keys fs)"
proof -
  have "card (set (imap_keys es)) = length es" "card (set (imap_keys fs)) = length fs"
    using assms(1,2) distinct_card [of "imap_keys es"] distinct_card [of "imap_keys fs"]
    by (simp_all add: imap_inv_def imap_keys_def)
  with assms(3,4) show ?thesis by (intro card_seteq) simp_all
qed

lemma cmp_equal_entries_sym:
  assumes inv: "imap_inv es" "imap_inv fs" and len: "length es = length fs"
    and eq: "cmp_equal_entries es fs"
    and IH: "\<And>k v w. (k, v) \<in> set es \<Longrightarrow> (k, w) \<in> set fs \<Longrightarrow> cmp_equal v w \<Longrightarrow> cmp_equal w v"
  shows "cmp_equal_entries fs es"
proof -
  have sub: "set (imap_keys es) \<subseteq> set (imap_keys fs)"
    using eq by (force simp: cmp_equal_entries_iff imap_keys_def imap_get_map_of dest: map_of_SomeD)
  have keys: "set (imap_keys es) = set (imap_keys fs)"
    using inv len sub by (rule imap_keys_eqI)
  have "\<exists>v. imap_get es k = Some v \<and> cmp_equal w v" if kw: "(k, w) \<in> set fs" for k w
  proof -
    from kw keys have "k \<in> set (imap_keys es)" by (force simp: imap_keys_def)
    then obtain v where v: "(k, v) \<in> set es" by (auto simp: imap_keys_def)
    with eq obtain w' where "imap_get fs k = Some w'" "cmp_equal v w'"
      by (force simp: cmp_equal_entries_iff)
    with kw inv have "cmp_equal v w" by (simp add: imap_get_eq_Some_iff [symmetric])
    with v kw IH have "cmp_equal w v" by blast
    with v inv show ?thesis by (auto simp: imap_get_eq_Some_iff)
  qed
  then show ?thesis by (auto simp: cmp_equal_entries_iff)
qed

lemma cmp_equal_symD:
  "wf_val v \<Longrightarrow> wf_val x \<Longrightarrow> cmp_equal v x \<Longrightarrow> cmp_equal x v"
proof (induction v arbitrary: x rule: val_induct)
  case (List vs)
  then obtain ws where x: "x = list_value ws" by (cases x) auto
  with List have len: "length vs = length ws" and eq: "list_all2 cmp_equal vs ws"
    by (auto simp: cmp_equal_list_all2)
  have "list_all2 cmp_equal ws vs"
    using List x len eq by (auto simp: list_all2_conv_all_nth)
  with x len show ?case by (simp add: cmp_equal_list_all2)
next
  case (Config c)
  have "cmp_equal_entries (dict_entries x) (dict_entries c)"
    if len: "length (dict_entries c) = length (dict_entries x)"
      and eq: "cmp_equal_entries (dict_entries c) (dict_entries x)"
  proof (rule cmp_equal_entries_sym [OF _ _ len eq])
    show "imap_inv (dict_entries c)" "imap_inv (dict_entries x)"
      using Config.prems by (simp_all add: wf_val_entries_inv)
    show "cmp_equal w v"
      if "(k, v) \<in> set (dict_entries c)" "(k, w) \<in> set (dict_entries x)" "cmp_equal v w" for k v w
      using that Config.IH Config.prems wf_val_entryD by blast
  qed
  with Config.hyps Config.prems(3) show ?case by (cases c; cases x) auto
next
  case (Leaf v)
  then show ?case by (cases v; cases x) (auto simp: f64_eq_sym)
qed

lemma cmp_equal_sym:
  assumes "wf_val v" "wf_val x"
  shows "cmp_equal v x = cmp_equal x v"
  using assms cmp_equal_symD by blast

text \<open>Equality is reflexive exactly on the values that hold no NaN and no number with a unit.\<close>

fun self_equal :: "val \<Rightarrow> bool" where
  "self_equal (float_value x) = (x \<noteq> NaN)"
| "self_equal (unit_value _ _ _) = False"
| "self_equal _ = True"

lemma f64_eq_refl_iff [simp]: "f64_eq x x \<longleftrightarrow> x \<noteq> NaN"
  by (cases x) auto

lemma cmp_equal_entries_refl_iff:
  "imap_inv es \<Longrightarrow> cmp_equal_entries es es \<longleftrightarrow> (\<forall>p \<in> set es. cmp_equal (snd p) (snd p))"
  by (auto simp: cmp_equal_entries_iff imap_get_eq_Some_iff [symmetric])

lemma cmp_equal_refl_iff: "wf_val v \<Longrightarrow> cmp_equal v v \<longleftrightarrow> val_all self_equal v"
proof (induction v rule: val_induct)
  case (List vs)
  then show ?case by (auto simp: cmp_equal_list_all2 list_all2_same)
next
  case (Config c)
  have "cmp_equal_entries (dict_entries c) (dict_entries c) \<longleftrightarrow>
    (\<forall>p \<in> set (dict_entries c). cmp_equal (snd p) (snd p))"
    using Config.prems by (intro cmp_equal_entries_refl_iff wf_val_entries_inv)
  moreover have "(\<forall>p \<in> set (dict_entries c). cmp_equal (snd p) (snd p)) \<longleftrightarrow>
    (\<forall>p \<in> set (dict_entries c). val_all self_equal (snd p))"
    using Config wf_val_entryD by (metis prod.collapse)
  ultimately show ?case using Config.hyps by (cases c) auto
next
  case (Leaf v)
  then show ?case by (cases v) auto
qed

section \<open>Order of values\<close>

lemma cmp_greater_less_list:
  assumes "\<forall>a \<in> set as. wf_val a" "\<forall>b \<in> set bs. wf_val b"
    and "\<And>a b r. a \<in> set as \<Longrightarrow> b \<in> set bs \<Longrightarrow> cmp_greater_than a b = Ok r \<longleftrightarrow> cmp_less_than b a = Ok r"
  shows "cmp_greater_than_list as bs = Ok r \<longleftrightarrow> cmp_less_than_list bs as = Ok r"
  using assms
proof (induction as arbitrary: bs)
  case Nil
  show ?case by (cases bs) auto
next
  case (Cons a as)
  show ?case
  proof (cases bs)
    case Nil
    then show ?thesis by simp
  next
    case (Cons b bs')
    have "cmp_greater_than_list as bs' = Ok r \<longleftrightarrow> cmp_less_than_list bs' as = Ok r"
      by (rule Cons.IH) (use Cons Cons.prems in auto)
    moreover have "cmp_equal a b = cmp_equal b a"
      using Cons Cons.prems by (intro cmp_equal_sym) auto
    ultimately show ?thesis by (simp add: Cons Cons.prems)
  qed
qed

lemma cmp_greater_less_or_equal_list:
  assumes "\<forall>a \<in> set as. wf_val a" "\<forall>b \<in> set bs. wf_val b"
    and "\<And>a b r. a \<in> set as \<Longrightarrow> b \<in> set bs \<Longrightarrow>
      cmp_greater_than_or_equal a b = Ok r \<longleftrightarrow> cmp_less_than_or_equal b a = Ok r"
  shows "cmp_greater_than_or_equal_list as bs = Ok r \<longleftrightarrow> cmp_less_than_or_equal_list bs as = Ok r"
  using assms
proof (induction as arbitrary: bs)
  case Nil
  show ?case by (cases bs) auto
next
  case (Cons a as)
  show ?case
  proof (cases bs)
    case Nil
    then show ?thesis by simp
  next
    case (Cons b bs')
    have "cmp_greater_than_or_equal_list as bs' = Ok r \<longleftrightarrow> cmp_less_than_or_equal_list bs' as = Ok r"
      by (rule Cons.IH) (use Cons Cons.prems in auto)
    moreover have "cmp_equal a b = cmp_equal b a"
      using Cons Cons.prems by (intro cmp_equal_sym) auto
    ultimately show ?thesis by (simp add: Cons Cons.prems)
  qed
qed

lemma cmp_error_neq_Ok [simp]: "cmp_error op v x \<noteq> Ok r"
  by (simp add: cmp_error_def)

lemma cmp_greater_less:
  "wf_val x \<Longrightarrow> wf_val y \<Longrightarrow> cmp_greater_than x y = Ok r \<longleftrightarrow> cmp_less_than y x = Ok r"
proof (induction x arbitrary: y r rule: val_induct)
  case (List vs)
  show ?case
  proof (cases y)
    case (list_value ws)
    with List show ?thesis
      by (simp, intro cmp_greater_less_list) auto
  qed auto
next
  case (Config c)
  then show ?case by (cases c; cases y) auto
next
  case (Leaf v)
  then show ?case by (cases v; cases y) auto
qed

lemma cmp_greater_less_or_equal:
  "wf_val x \<Longrightarrow> wf_val y \<Longrightarrow>
    cmp_greater_than_or_equal x y = Ok r \<longleftrightarrow> cmp_less_than_or_equal y x = Ok r"
proof (induction x arbitrary: y r rule: val_induct)
  case (List vs)
  show ?case
  proof (cases y)
    case (list_value ws)
    with List show ?thesis
      by (simp, intro cmp_greater_less_or_equal_list) auto
  qed auto
next
  case (Config c)
  then show ?case by (cases c; cases y) auto
next
  case (Leaf v)
  then show ?case by (cases v; cases y) auto
qed

definition no_bool :: "val \<Rightarrow> bool" where
  "no_bool v = val_all (\<lambda>w. \<not> is_bool w) v"

lemma cmp_le_list:
  assumes "\<And>a b r. a \<in> set as \<Longrightarrow> b \<in> set bs \<Longrightarrow> cmp_less_than_or_equal a b = Ok r \<longleftrightarrow>
    (\<exists>l. cmp_less_than a b = Ok l \<and> r = (l \<or> cmp_equal a b))"
  shows "cmp_less_than_or_equal_list as bs = Ok r \<longleftrightarrow>
    (\<exists>l. cmp_less_than_list as bs = Ok l \<and> r = (l \<or> length as = length bs \<and> cmp_equal_list as bs))"
  using assms by (induction as arbitrary: bs) (auto split: list.splits)

lemma cmp_less_than_or_equal_iff:
  "no_bool x \<Longrightarrow> no_bool y \<Longrightarrow>
    cmp_less_than_or_equal x y = Ok r \<longleftrightarrow>
      (\<exists>l. cmp_less_than x y = Ok l \<and> r = (l \<or> cmp_equal x y))"
proof (induction x arbitrary: y r rule: val_induct)
  case (List vs)
  show ?case
  proof (cases y)
    case (list_value ws)
    with List show ?thesis
      by (simp, intro cmp_le_list) (auto simp: no_bool_def)
  qed auto
next
  case (Config c)
  then show ?case by (cases c; cases y) auto
next
  case (Leaf v)
  then show ?case
    by (cases v; cases y) (auto simp: no_bool_def is_bool_def f64_le_def str_le_def i64_eq_iff)
qed

lemma cmp_less_than_list_asym:
  assumes "\<forall>a \<in> set as. wf_val a" "\<forall>b \<in> set bs. wf_val b"
    and "\<And>a b. a \<in> set as \<Longrightarrow> b \<in> set bs \<Longrightarrow> cmp_less_than a b = Ok True \<Longrightarrow> cmp_less_than b a = Ok False"
  shows "cmp_less_than_list as bs = Ok True \<Longrightarrow> cmp_less_than_list bs as = Ok False"
  using assms
proof (induction as arbitrary: bs)
  case Nil
  then show ?case by (cases bs) auto
next
  case (Cons a as)
  show ?case
  proof (cases bs)
    case Nil
    with Cons.prems show ?thesis by simp
  next
    case (Cons b bs')
    have "cmp_less_than_list as bs' = Ok True \<Longrightarrow> cmp_less_than_list bs' as = Ok False"
      by (rule Cons.IH) (use Cons Cons.prems in auto)
    moreover have "cmp_equal a b = cmp_equal b a"
      using Cons Cons.prems by (intro cmp_equal_sym) auto
    ultimately show ?thesis
      using Cons.prems(1) by (auto simp: Cons Cons.prems split: if_splits)
  qed
qed

lemma cmp_less_than_asym:
  "wf_val x \<Longrightarrow> wf_val y \<Longrightarrow> cmp_less_than x y = Ok True \<Longrightarrow> cmp_less_than y x = Ok False"
proof (induction x arbitrary: y rule: val_induct)
  case (List vs)
  show ?case
  proof (cases y)
    case (list_value ws)
    have "cmp_less_than_list vs ws = Ok True \<Longrightarrow> cmp_less_than_list ws vs = Ok False"
      by (rule cmp_less_than_list_asym) (use List list_value in auto)
    with List list_value show ?thesis by simp
  qed (use List in auto)
next
  case (Config c)
  from Config.hyps Config.prems show ?case by (cases c; cases y) auto
next
  case (Leaf v)
  then show ?case
    by (cases v; cases y; simp) (blast dest: f64_ord.lt_asym str_ord.lt_asym)+
qed

section \<open>Properties\<close>

text \<open>C20: \<open>==\<close> is symmetric on well-formed values: neither the order of the entries of a dict nor the
  kind of number on the left matters.\<close>

theorem equality_symmetric:
  assumes "wf_val v" "wf_val x"
  shows "cmp_equal v x = cmp_equal x v"
  using assms cmp_equal_symD by blast

theorem equality_symmetric_witness:
  "cmp_equal (dict_value (DictValue [(''a'', int_value 1), (''b'', none_value)] [] [] [] None))
     (dict_value (DictValue [(''b'', none_value), (''a'', float_value (f64_of_i64 1))] [] [] [] None)) =
   cmp_equal
     (dict_value (DictValue [(''b'', none_value), (''a'', float_value (f64_of_i64 1))] [] [] [] None))
     (dict_value (DictValue [(''a'', int_value 1), (''b'', none_value)] [] [] [] None))"
  by (rule equality_symmetric) code_simp+

text \<open>C23: a well-formed value equals itself exactly when it holds no NaN and no number with a unit
  suffix, at any depth; \<open>==\<close> on two such numbers is always false.\<close>

theorem equality_reflexive:
  assumes "wf_val v"
  shows "cmp_equal v v \<longleftrightarrow> val_all self_equal v"
  using assms by (rule cmp_equal_refl_iff)

theorem equality_reflexive_witness:
  "cmp_equal (list_value [int_value 1, unit_value (f64_of_i64 1024) 1 ''Ki''])
     (list_value [int_value 1, unit_value (f64_of_i64 1024) 1 ''Ki'']) \<longleftrightarrow>
   val_all self_equal (list_value [int_value 1, unit_value (f64_of_i64 1024) 1 ''Ki''])"
  by (rule equality_reflexive) code_simp

text \<open>C21: on well-formed values \<open>a > b\<close> returns what \<open>b < a\<close> returns, and \<open>a >= b\<close> what
  \<open>b <= a\<close> does; the one fails exactly when the other does.\<close>

theorem greater_is_converse_less:
  assumes "wf_val x" "wf_val y"
  shows "(\<forall>r. cmp_greater_than x y = Ok r \<longleftrightarrow> cmp_less_than y x = Ok r) \<and>
    (\<forall>r. cmp_greater_than_or_equal x y = Ok r \<longleftrightarrow> cmp_less_than_or_equal y x = Ok r)"
  using assms cmp_greater_less cmp_greater_less_or_equal by blast

theorem greater_is_converse_less_witness:
  "cmp_greater_than (list_value [int_value 2, str_value ''b'']) (list_value [int_value 2, str_value ''a''])
     = Ok True \<longleftrightarrow>
   cmp_less_than (list_value [int_value 2, str_value ''a'']) (list_value [int_value 2, str_value ''b''])
     = Ok True"
proof -
  have "wf_val (list_value [int_value 2, str_value ''b''])"
    "wf_val (list_value [int_value 2, str_value ''a''])"
    by code_simp+
  from greater_is_converse_less [OF this] show ?thesis by blast
qed

text \<open>\<open><\<close> is asymmetric: when \<open>a < b\<close> holds, \<open>b < a\<close> returns false (it neither holds nor fails).\<close>

theorem less_than_asymmetric:
  assumes "wf_val x" "wf_val y" "cmp_less_than x y = Ok True"
  shows "cmp_less_than y x = Ok False"
  using assms by (rule cmp_less_than_asym)

theorem less_than_asymmetric_witness:
  "cmp_less_than (list_value [int_value 3]) (list_value [int_value 2, int_value 9]) = Ok False"
  by (rule less_than_asymmetric) code_simp+

text \<open>C22: on values without booleans \<open><=\<close> is the disjunction of \<open><\<close> and \<open>==\<close>. (With booleans it is
  not: the orders convert them to integers and \<open>==\<close> does not.)\<close>

theorem less_or_equal_decomposes:
  assumes "no_bool x" "no_bool y"
  shows "cmp_less_than_or_equal x y = Ok r \<longleftrightarrow>
    (\<exists>l. cmp_less_than x y = Ok l \<and> r = (l \<or> cmp_equal x y))"
  using assms by (rule cmp_less_than_or_equal_iff)

theorem less_or_equal_decomposes_witness:
  "cmp_less_than_or_equal (list_value [int_value 1]) (list_value [int_value 1]) = Ok True \<longleftrightarrow>
    (\<exists>l. cmp_less_than (list_value [int_value 1]) (list_value [int_value 1]) = Ok l \<and>
      True = (l \<or> cmp_equal (list_value [int_value 1]) (list_value [int_value 1])))"
  by (rule less_or_equal_decomposes) code_simp+

text \<open>Comparisons that the operators' documentation would not lead one to expect.\<close>

lemma bool_order_not_equality:
  "cmp_less_than_or_equal (int_value 1) (bool_value True) = Ok True \<and>
   cmp_less_than (int_value 1) (bool_value True) = Ok False \<and>
   \<not> cmp_equal (int_value 1) (bool_value True)"
  by code_simp

lemma equality_not_transitive:
  "cmp_equal (int_value 9007199254740993) (float_value (f64_of_i64 9007199254740992)) \<and>
   cmp_equal (float_value (f64_of_i64 9007199254740992)) (int_value 9007199254740992) \<and>
   \<not> cmp_equal (int_value 9007199254740993) (int_value 9007199254740992)"
  by code_simp

lemma unit_never_equal: "\<not> cmp_equal (unit_value r n u) x"
  by simp

end
