(* ===== verification/ValueList.thy ===== *)
theory ValueList
  imports ValueCmp
begin

text \<open>
  Lists of runtime values (\<open>runtime/src/value/val_list.rs\<close>): indexed reads and writes, search, insertion
  and removal, unpacking, and slices of lists and strings. An operation that changes the list in
  its cell returns the new list. \<open>must_normalize_index\<close> is \<open>val_union.rs\<close>'s index normalisation.
\<close>

section \<open>Definitions\<close>

definition must_normalize_index :: "i32 \<Rightarrow> nat \<Rightarrow> nat res" where
  "must_normalize_index index len =
     (if sint index < 0 then
        (let pos_index = index + word_of_nat len in
         if 0 \<le> sint pos_index then Ok (nat (sint pos_index)) else Err (IndexOutOfBounds len index))
      else Ok (nat (sint index)))"

definition bounds_res :: "'a option \<Rightarrow> 'a res" where
  "bounds_res r = (case r of None \<Rightarrow> Err (RustPanic Bounds) | Some x \<Rightarrow> Ok x)"

definition list_n :: "nat \<Rightarrow> val \<Rightarrow> val" where
  "list_n n v = list_value (replicate n v)"

definition list_bool :: "bool list \<Rightarrow> val" where
  "list_bool xs = list_value (map bool_value xs)"

definition list_int :: "i64 list \<Rightarrow> val" where
  "list_int xs = list_value (map int_value xs)"

definition list_float :: "f64 list \<Rightarrow> val" where
  "list_float xs = list_value (map float_value xs)"

definition list_str :: "string list \<Rightarrow> val" where
  "list_str xs = list_value (map str_value xs)"

fun list_resize :: "val \<Rightarrow> nat \<Rightarrow> val res" where
  "list_resize (list_value xs) n =
     Ok (list_value
       (if n < length xs then take n xs
        else xs @ replicate (n - length xs) undefined_value))"
| "list_resize _ n = Err (InvalidObject ''Invalid list object in list_resize'')"

fun list_clear :: "val \<Rightarrow> val res" where
  "list_clear (list_value xs) = Ok (list_value [])"
| "list_clear _ = Err (InvalidObject ''Invalid list object in list_clear'')"

text \<open>An \<open>isize\<close> argument is an \<open>int\<close>; a negative sum cast to \<open>usize\<close> is beyond every vector.\<close>

definition list_index :: "int \<Rightarrow> nat \<Rightarrow> int" where
  "list_index i len = (if i < 0 then i + int len else i)"

fun list_get :: "val \<Rightarrow> int \<Rightarrow> val option res" where
  "list_get (list_value xs) i =
     (let index = list_index i (length xs) in
      if xs \<noteq> [] then
        (if 0 \<le> index \<and> index < int (length xs) then Ok (Some (xs ! nat index))
         else Err (RustPanic Bounds))
      else Ok None)"
| "list_get _ i = Err (InvalidObject ''Invalid list object in list_get'')"

fun list_get_option :: "val \<Rightarrow> int \<Rightarrow> val option res" where
  "list_get_option (list_value xs) i =
     (let index = list_index i (length xs) in
      Ok (if xs \<noteq> [] \<and> 0 \<le> index \<and> index < int (length xs) then Some (xs ! nat index) else None))"
| "list_get_option _ i = Err (InvalidObject ''Invalid list object in list_get_option'')"

fun list_set :: "val \<Rightarrow> nat \<Rightarrow> val \<Rightarrow> val res" where
  "list_set (list_value xs) i v = Ok (list_value (if i < length xs then xs[i := v] else xs))"
| "list_set _ i v = Err (InvalidObject ''Invalid list object in list_set'')"

fun list_must_set :: "val \<Rightarrow> nat \<Rightarrow> val \<Rightarrow> val res" where
  "list_must_set (list_value xs) i v =
     bind_res (bounds_res (vec_set i v xs)) (\<lambda>ys. Ok (list_value ys))"
| "list_must_set _ i v = Err (InvalidObject ''Invalid list object in list_set'')"

definition list_set_value :: "val \<Rightarrow> val \<Rightarrow> val \<Rightarrow> val res" where
  "list_set_value self i v =
     bind_res (must_as_strict_int i) (\<lambda>index.
     bind_res (val_len self) (\<lambda>n.
     bind_res (must_normalize_index (as_i32 index) n) (\<lambda>index.
     list_must_set self index v)))"

fun list_pop :: "val \<Rightarrow> (val \<times> val option) res" where
  "list_pop (list_value xs) =
     Ok (list_value (butlast xs), if xs = [] then None else Some (last xs))"
| "list_pop _ = Err (InvalidObject ''Invalid list object in list_pop'')"

fun list_pop_first :: "val \<Rightarrow> (val \<times> val option) res" where
  "list_pop_first (list_value xs) =
     Ok (case xs of [] \<Rightarrow> (list_value [], None) | y # ys \<Rightarrow> (list_value ys, Some y))"
| "list_pop_first _ = Err (InvalidObject ''Invalid list object in list_pop'')"

fun list_append :: "val \<Rightarrow> val \<Rightarrow> val res" where
  "list_append (list_value xs) v = Ok (list_value (xs @ [v]))"
| "list_append _ v = Err (InvalidObject ''Invalid list object in list_append'')"

fun list_append_unpack :: "val \<Rightarrow> val \<Rightarrow> val res" where
  "list_append_unpack (list_value xs) x =
     (case x of
        list_value ys \<Rightarrow> Ok (list_value (xs @ ys))
      | dict_value d \<Rightarrow> Ok (list_value (xs @ map str_value (imap_keys (dv_values d))))
      | schema_value s \<Rightarrow> Ok (list_value (xs @ map str_value (imap_keys (dv_values (sv_config s)))))
      | none_value \<Rightarrow> Ok (list_value xs)
      | undefined_value \<Rightarrow> Ok (list_value xs)
      | _ \<Rightarrow> Err (InvalidObject
          ''only list, dict and schema object can be used with unpack operators * and **''))"
| "list_append_unpack _ x = Err (InvalidObject ''Invalid list object in list_append_unpack'')"

fun list_append_unpack_first :: "val \<Rightarrow> val \<Rightarrow> val res" where
  "list_append_unpack_first (list_value xs) x =
     (case x of
        list_value ys \<Rightarrow> Ok (list_value (ys @ xs))
      | dict_value d \<Rightarrow> Ok (list_value (map str_value (imap_keys (dv_values d)) @ xs))
      | schema_value s \<Rightarrow> Ok (list_value (map str_value (imap_keys (dv_values (sv_config s))) @ xs))
      | none_value \<Rightarrow> Ok (list_value xs)
      | undefined_value \<Rightarrow> Ok (list_value xs)
      | _ \<Rightarrow> Ok (list_value (x # xs)))"
| "list_append_unpack_first _ x =
     Err (InvalidObject ''Invalid list object in list_append_unpack_first'')"

fun count_equal :: "val list \<Rightarrow> val \<Rightarrow> nat" where
  "count_equal [] item = 0"
| "count_equal (v # vs) item = (if cmp_equal v item then Suc (count_equal vs item) else count_equal vs item)"

fun list_count :: "val \<Rightarrow> val \<Rightarrow> nat res" where
  "list_count (list_value xs) item = Ok (count_equal xs item)"
| "list_count _ item = Err (InvalidObject ''Invalid list object in list_find'')"

fun find_equal :: "nat \<Rightarrow> val list \<Rightarrow> val \<Rightarrow> int" where
  "find_equal i [] item = - 1"
| "find_equal i (v # vs) item = (if cmp_equal v item then int i else find_equal (Suc i) vs item)"

fun list_find :: "val \<Rightarrow> val \<Rightarrow> int res" where
  "list_find (list_value xs) item = Ok (find_equal 0 xs item)"
| "list_find _ item = Err (InvalidObject ''Invalid list object in list_find'')"

fun list_insert_at :: "val \<Rightarrow> nat \<Rightarrow> val \<Rightarrow> val res" where
  "list_insert_at (list_value xs) i v =
     bind_res (bounds_res (vec_insert i v xs)) (\<lambda>ys. Ok (list_value ys))"
| "list_insert_at _ i v = Err (InvalidObject ''Invalid list object in list_insert_at'')"

fun list_remove_at :: "val \<Rightarrow> nat \<Rightarrow> val res" where
  "list_remove_at (list_value xs) i =
     bind_res (bounds_res (vec_remove i xs)) (\<lambda>ys. Ok (list_value ys))"
| "list_remove_at _ i = Err (InvalidObject ''Invalid list object in list_remove_at'')"

text \<open>\<open>list_remove\<close> keeps the index of the last match of its loop.\<close>

fun last_equal :: "nat \<Rightarrow> val list \<Rightarrow> val \<Rightarrow> nat option \<Rightarrow> nat option" where
  "last_equal i [] item acc = acc"
| "last_equal i (v # vs) item acc =
     last_equal (Suc i) vs item (if cmp_equal v item then Some i else acc)"

fun list_remove :: "val \<Rightarrow> val \<Rightarrow> val res" where
  "list_remove (list_value xs) item =
     (case last_equal 0 xs item None of
        None \<Rightarrow> Ok (list_value xs)
      | Some i \<Rightarrow> bind_res (bounds_res (vec_remove i xs)) (\<lambda>ys. Ok (list_value ys)))"
| "list_remove _ item = Err (InvalidObject ''Invalid list object in list_remove_at'')"

subsection \<open>Slices\<close>

definition slice_unpack :: "val \<Rightarrow> val \<Rightarrow> val \<Rightarrow> (i64 \<times> i64 \<times> i64) res" where
  "slice_unpack start stop step =
     bind_res
       (case step of
          int_value s \<Rightarrow>
            if s = 0 then Err (InvalidObject ''slice step cannot be zero'') else Ok s
        | _ \<Rightarrow> Ok 1)
       (\<lambda>step_val. Ok
         (case start of
            int_value s \<Rightarrow> s
          | _ \<Rightarrow> if sint step_val < 0 then i64_MAX else 0,
          case stop of
            int_value s \<Rightarrow> s
          | _ \<Rightarrow> if sint step_val < 0 then i64_MIN else i64_MAX,
          step_val))"

definition slice_adjust_index :: "i64 \<Rightarrow> i64 \<Rightarrow> i64 \<Rightarrow> i64" where
  "slice_adjust_index len i step =
     (if sint i < 0 then
        (let i' = i + len in
         if sint i' < 0 then (if sint step < 0 then - 1 else 0) else i')
      else if sint i \<ge> sint len then (if sint step < 0 then len - 1 else len)
      else i)"

definition slice_adjust_indices :: "i64 \<Rightarrow> i64 \<Rightarrow> i64 \<Rightarrow> i64 \<Rightarrow> (i64 \<times> i64 \<times> i64) res" where
  "slice_adjust_indices len start stop step =
     (if step = 0 then Err (InvalidObject ''assertion failed: step != 0'')
      else
        let start = slice_adjust_index len start step;
            stop = slice_adjust_index len stop step
        in bind_res
             (if sint step < 0 then
                (if sint stop < sint start then
                   (case i64_div (start - stop - 1) (- step) of
                      None \<Rightarrow> Err (RustPanic Arith)
                    | Some q \<Rightarrow> Ok (q + 1))
                 else Ok 0)
              else if sint start < sint stop then
                (case i64_div (stop - start - 1) step of
                   None \<Rightarrow> Err (RustPanic Arith)
                 | Some q \<Rightarrow> Ok (q + 1))
              else Ok 0)
             (\<lambda>slice_len. Ok (start, stop, slice_len)))"

fun slice_loop :: "'a list \<Rightarrow> nat \<Rightarrow> i64 \<Rightarrow> i64 \<Rightarrow> 'a list res" where
  "slice_loop xs 0 cur step = Ok []"
| "slice_loop xs (Suc n) cur step =
     bind_res (bounds_res (vec_get xs (as_usize cur))) (\<lambda>x.
     bind_res (slice_loop xs n (cur + step) step) (\<lambda>ys. Ok (x # ys)))"

definition slice_items :: "'a list \<Rightarrow> val \<Rightarrow> val \<Rightarrow> val \<Rightarrow> 'a list res" where
  "slice_items xs start stop step =
     bind_res (slice_unpack start stop step) (\<lambda>(start, stop, step).
     bind_res (slice_adjust_indices (word_of_nat (length xs)) start stop step)
       (\<lambda>(start, _, slice_len).
     slice_loop xs (nat (sint slice_len)) start step))"

fun list_slice :: "val \<Rightarrow> val \<Rightarrow> val \<Rightarrow> val \<Rightarrow> val res" where
  "list_slice (list_value xs) start stop step =
     bind_res (slice_items xs start stop step) (\<lambda>ys. Ok (list_value ys))"
| "list_slice (str_value s) start stop step =
     bind_res (slice_items (str_chars s) start stop step) (\<lambda>cs. Ok (str_value (concat cs)))"
| "list_slice v start stop step = Err (InvalidObject (''invalid slice object '' @ type_str v))"

section \<open>Indices\<close>

lemma sint_word_of_nat_i32: "len < 2147483648 \<Longrightarrow> sint (word_of_nat len :: i32) = int len"
  using sint_of_in_i32 [of "int len"] by (simp add: in_i32_def)

lemma sint_word_of_nat_i64: "in_i64 (int len) \<Longrightarrow> sint (word_of_nat len :: i64) = int len"
  using sint_of_in_i64 [of "int len"] by simp

lemma sint_add_i32: "in_i32 (sint a + sint b) \<Longrightarrow> sint ((a :: i32) + b) = sint a + sint b"
  using sint_of_in_i32 [of "sint a + sint b"] by simp

lemma must_normalize_index_eq:
  assumes "len < 2147483648"
  shows "must_normalize_index i len =
    (if 0 \<le> sint i then Ok (nat (sint i))
     else if 0 \<le> sint i + int len then Ok (nat (sint i + int len))
     else Err (IndexOutOfBounds len i))"
proof (cases "0 \<le> sint i")
  case False
  then have "in_i32 (sint i + sint (word_of_nat len :: i32))"
    using assms sint_i32_range [of i] by (simp add: in_i32_def sint_word_of_nat_i32)
  then have "sint (i + word_of_nat len) = sint i + int len"
    using assms by (simp add: sint_add_i32 sint_word_of_nat_i32)
  with False show ?thesis by (simp add: must_normalize_index_def Let_def)
qed (simp add: must_normalize_index_def)

section \<open>Slices compute over the mathematical integers\<close>

text \<open>
  The reference reading of a slice: bounds clamped as Python clamps them, the number of elements
  counted without overflow, and element \<open>j\<close> taken at \<open>start + j * step\<close>.
\<close>

definition clamp_index :: "int \<Rightarrow> int \<Rightarrow> int \<Rightarrow> int" where
  "clamp_index len i step =
     (if i < 0 then (if i + len < 0 then (if step < 0 then - 1 else 0) else i + len)
      else if len \<le> i then (if step < 0 then len - 1 else len)
      else i)"

definition slice_count :: "int \<Rightarrow> int \<Rightarrow> int \<Rightarrow> int" where
  "slice_count s e step =
     (if step < 0 then (if e < s then (s - e - 1) div (- step) + 1 else 0)
      else if s < e then (e - s - 1) div step + 1 else 0)"

definition slice_indices :: "int \<Rightarrow> int \<Rightarrow> int \<Rightarrow> int \<Rightarrow> int list" where
  "slice_indices len start stop step =
     (let s = clamp_index len start step; e = clamp_index len stop step in
      map (\<lambda>j. s + int j * step) [0..<nat (slice_count s e step)])"

lemma clamp_index_bounds:
  assumes "0 \<le> len"
  shows "step < 0 \<Longrightarrow> - 1 \<le> clamp_index len i step \<and> clamp_index len i step < len"
    and "0 \<le> step \<Longrightarrow> 0 \<le> clamp_index len i step \<and> clamp_index len i step \<le> len"
    and "- 1 \<le> clamp_index len i step" "clamp_index len i step \<le> len"
  using assms by (auto simp: clamp_index_def)

lemma slice_count_bounds:
  assumes "step \<noteq> 0" "s - e \<le> m" "e - s \<le> m" "0 \<le> m"
  shows "0 \<le> slice_count s e step" "slice_count s e step \<le> m"
proof -
  have div_le: "0 \<le> a \<Longrightarrow> 0 < b \<Longrightarrow> a div b \<le> a" for a b :: int
    using zdiv_mono2 [of a 1 b] by simp
  show "0 \<le> slice_count s e step"
    using assms by (auto simp: slice_count_def pos_imp_zdiv_nonneg_iff)
  show "slice_count s e step \<le> m"
    using assms div_le [of "s - e - 1" "- step"] div_le [of "e - s - 1" step]
    by (auto simp: slice_count_def)
qed

lemma slice_count_less:
  assumes "0 \<le> j" "j < slice_count s e step"
  shows "step < 0 \<Longrightarrow> e < s + j * step" and "0 < step \<Longrightarrow> s + j * step < e"
proof -
  have le: "k * d \<le> a" if "k \<le> a div d" "0 < d" for a d k :: int
    using mult_right_mono [of k "a div d" d] that pos_mod_sign [of d a] div_mult_mod_eq [of a d]
    by linarith
  {
    assume "step < 0"
    with assms have "j \<le> (s - e - 1) div (- step)" by (auto simp: slice_count_def split: if_splits)
    then have "j * (- step) \<le> s - e - 1" using \<open>step < 0\<close> by (intro le) auto
    then show "e < s + j * step" by simp
  }
  {
    assume "0 < step"
    with assms have "j \<le> (e - s - 1) div step" by (auto simp: slice_count_def split: if_splits)
    then have "j * step \<le> e - s - 1" using \<open>0 < step\<close> by (intro le) auto
    then show "s + j * step < e" by simp
  }
qed

lemma slice_index_in_range:
  assumes "0 \<le> len" "step \<noteq> 0" "i \<in> set (slice_indices len start stop step)"
  shows "0 \<le> i \<and> i < len"
proof -
  let ?s = "clamp_index len start step" and ?e = "clamp_index len stop step"
  obtain n where n: "n < nat (slice_count ?s ?e step)" "i = ?s + int n * step"
    using assms(3) by (auto simp: slice_indices_def Let_def)
  define j where "j = int n"
  have j: "0 \<le> j" "j < slice_count ?s ?e step" "i = ?s + j * step"
    using n by (auto simp: j_def)
  show ?thesis
  proof (cases "step < 0")
    case True
    then have e: "?e < i" using slice_count_less(1) [OF j(1,2)] j(3) by simp
    moreover have "i \<le> ?s" using True j by (simp add: mult_nonneg_nonpos)
    ultimately show ?thesis
      using clamp_index_bounds(1) [OF assms(1) True, of start]
        clamp_index_bounds(1) [OF assms(1) True, of stop]
      by linarith
  next
    case False
    with assms(2) have pos: "0 < step" by simp
    then have "i < ?e" using slice_count_less(2) [OF j(1,2)] j(3) by simp
    moreover have "?s \<le> i" using pos j by simp
    ultimately show ?thesis
      using clamp_index_bounds(2) [OF assms(1), of step start]
        clamp_index_bounds(2) [OF assms(1), of step stop] pos
      by linarith
  qed
qed

lemma slice_adjust_index_eq:
  assumes "in_i64 (int len)"
  shows "sint (slice_adjust_index (word_of_nat len) i step) = clamp_index (int len) (sint i) (sint step)"
proof -
  have len: "sint (word_of_nat len :: i64) = int len" using assms by (rule sint_word_of_nat_i64)
  have neg: "sint i < 0 \<Longrightarrow> sint (i + word_of_nat len) = sint i + int len"
    using assms sint_i64_range [of i] by (subst sint_add_i64) (auto simp: len in_i64_def)
  have "sint (word_of_nat len - 1 :: i64) = int len - 1"
    using assms by (subst sint_sub_i64) (auto simp: len in_i64_def)
  with len neg show ?thesis by (auto simp: slice_adjust_index_def clamp_index_def Let_def)
qed

lemma i64_div_nonneg:
  assumes a: "sint a = m" "0 \<le> m" and b: "sint b \<noteq> 0"
  shows "i64_div a b = Some (word_of_int (m sdiv sint b))"
  using assms by (auto simp: i64_div_def i64_MIN_def)

lemma sdiv_neg_step:
  assumes "0 \<le> m" "in_i64 m" "sint step < 0"
  shows "m sdiv sint (- step :: i64) = m div (- sint step)"
proof (cases "step = i64_MIN")
  case True
  have "sint (- i64_MIN) = - 9223372036854775808" "sint i64_MIN = - 9223372036854775808"
    by (simp_all add: i64_MIN_def)
  with True assms show ?thesis
    by (simp add: signed_divide_int_def in_i64_def sgn_if)
next
  case False
  have "sint i64_MIN = - 9223372036854775808" by (simp add: i64_MIN_def)
  with False have "sint step \<noteq> - 9223372036854775808" by (auto simp: i64_eq_iff)
  then have "sint (- step) = - sint step"
    using sint_sub_i64 [of 0 step] sint_i64_range [of step] by (simp add: in_i64_def)
  with assms show ?thesis
    by (simp add: signed_divide_int_def sgn_if)
qed

lemma slice_adjust_indices_eq:
  fixes start stop step :: i64
  assumes len: "in_i64 (int len)" and step: "step \<noteq> 0"
  defines "s \<equiv> clamp_index (int len) (sint start) (sint step)"
    and "e \<equiv> clamp_index (int len) (sint stop) (sint step)"
  shows "\<exists>s' e' n'. slice_adjust_indices (word_of_nat len) start stop step = Ok (s', e', n') \<and>
    sint s' = s \<and> sint e' = e \<and> sint n' = slice_count s e (sint step)"
proof -
  let ?s' = "slice_adjust_index (word_of_nat len) start step"
    and ?e' = "slice_adjust_index (word_of_nat len) stop step"
  have s: "sint ?s' = s" and e: "sint ?e' = e"
    using len by (simp_all add: s_def e_def slice_adjust_index_eq)
  have b: "- 1 \<le> s" "s \<le> int len" "- 1 \<le> e" "e \<le> int len"
    by (simp_all add: s_def e_def clamp_index_bounds(3,4))
  have st: "sint step \<noteq> 0" using step by (simp add: i64_eq_iff)
  have "sint step < 0 \<Longrightarrow> - 1 < s \<or> \<not> e < s" "\<not> sint step < 0 \<Longrightarrow> 0 \<le> s \<and> 0 \<le> e"
    using b clamp_index_bounds(2) [of "int len" "sint step"] by (auto simp: s_def e_def)
  note b = b this
  show ?thesis
  proof (cases "sint step < 0")
    case neg: True
    show ?thesis
    proof (cases "e < s")
      case True
      let ?m = "s - e - 1"
      have sl: "s < int len"
        using clamp_index_bounds(1) [of "int len" "sint step" "sint start"] neg by (auto simp: s_def)
      with True b have m: "0 \<le> ?m" "in_i64 ?m" using len by (auto simp: in_i64_def)
      have "sint (?s' - ?e') = s - e"
        using sl True b len s e by (subst sint_sub_i64) (auto simp: in_i64_def)
      then have "sint (?s' - ?e' - 1) = ?m"
        using m by (subst sint_sub_i64) auto
      moreover have "sint (- step) \<noteq> 0" using step i64_eq_iff [of "- step" 0] by simp
      ultimately have "i64_div (?s' - ?e' - 1) (- step) = Some (word_of_int (?m div (- sint step)))"
        using m neg by (simp add: i64_div_nonneg sdiv_neg_step)
      moreover have "sint (word_of_int (?m div (- sint step)) + 1 :: i64) = ?m div (- sint step) + 1"
      proof -
        have "?m div (- sint step) \<le> ?m" "0 \<le> ?m div (- sint step)"
          using m neg zdiv_mono2 [of ?m 1 "- sint step"] by (auto simp: pos_imp_zdiv_nonneg_iff)
        with m True b sl len show ?thesis
          by (subst sint_add_i64) (auto simp: in_i64_def sint_of_in_i64)
      qed
      ultimately show ?thesis using neg True s e step by (simp add: slice_adjust_indices_def slice_count_def Let_def)
    next
      case False
      with neg s e step show ?thesis by (simp add: slice_adjust_indices_def slice_count_def Let_def)
    qed
  next
    case pos: False
    show ?thesis
    proof (cases "s < e")
      case True
      let ?m = "e - s - 1"
      have m: "0 \<le> ?m" "in_i64 ?m" using len True b pos by (auto simp: in_i64_def)
      have "sint (?e' - ?s') = e - s"
        using True b len s e pos by (subst sint_sub_i64) (auto simp: in_i64_def)
      then have "sint (?e' - ?s' - 1) = ?m"
        using m by (subst sint_sub_i64) auto
      then have "i64_div (?e' - ?s' - 1) step = Some (word_of_int (?m div sint step))"
        using m pos st by (simp add: i64_div_nonneg signed_divide_int_def sgn_if)
      moreover have "sint (word_of_int (?m div sint step) + 1 :: i64) = ?m div sint step + 1"
      proof -
        have "?m div sint step \<le> ?m" "0 \<le> ?m div sint step"
          using m pos st zdiv_mono2 [of ?m 1 "sint step"] by (auto simp: pos_imp_zdiv_nonneg_iff)
        with m True b len pos show ?thesis
          by (subst sint_add_i64) (auto simp: in_i64_def sint_of_in_i64)
      qed
      ultimately show ?thesis using pos True s e step by (simp add: slice_adjust_indices_def slice_count_def Let_def)
    next
      case False
      with pos s e step show ?thesis by (simp add: slice_adjust_indices_def slice_count_def Let_def)
    qed
  qed
qed

lemma slice_loop_eq:
  assumes "\<forall>j < n. 0 \<le> sint cur + int j * sint step \<and> sint cur + int j * sint step < int (length xs)"
    and "in_i64 (int (length xs))"
  shows "slice_loop xs n cur step = Ok (map (\<lambda>j. xs ! nat (sint cur + int j * sint step)) [0..<n])"
  using assms(1)
proof (induction n arbitrary: cur)
  case (Suc n)
  have cur: "0 \<le> sint cur" "sint cur < int (length xs)" using Suc.prems by (auto dest: spec [of _ 0])
  have get: "vec_get xs (as_usize cur) = Some (xs ! nat (sint cur))"
    using cur by (simp add: vec_get_def as_usize_def unat_eq_nat_sint nat_less_iff)
  show ?case
  proof (cases n)
    case 0
    with get show ?thesis by (simp add: bounds_res_def)
  next
    case (Suc m)
    have "0 \<le> sint cur + sint step \<and> sint cur + sint step < int (length xs)"
      using Suc.prems Suc by (auto dest: spec [of _ 1])
    then have nxt: "sint (cur + step) = sint cur + sint step"
      using assms(2) by (intro sint_add_i64) (auto simp: in_i64_def)
    have "slice_loop xs n (cur + step) step =
        Ok (map (\<lambda>j. xs ! nat (sint (cur + step) + int j * sint step)) [0..<n])"
    proof (rule Suc.IH)
      show "\<forall>j < n. 0 \<le> sint (cur + step) + int j * sint step \<and>
          sint (cur + step) + int j * sint step < int (length xs)"
        using Suc.prems by (auto simp: nxt algebra_simps dest: spec [of _ "Suc _"])
    qed
    moreover have "map (\<lambda>j. xs ! nat (sint cur + int j * sint step)) [0..<Suc n] =
        xs ! nat (sint cur) # map (\<lambda>j. xs ! nat (sint (cur + step) + int j * sint step)) [0..<n]"
      by (simp only: map_upt_Suc) (simp add: nxt algebra_simps)
    ultimately show ?thesis using get by (simp add: bounds_res_def)
  qed
qed simp

lemma slice_items_int:
  assumes len: "in_i64 (int (length xs))" and step: "step \<noteq> 0"
  shows "slice_items xs (int_value start) (int_value stop) (int_value step) =
    Ok (map (\<lambda>i. xs ! nat i) (slice_indices (int (length xs)) (sint start) (sint stop) (sint step)))"
proof -
  let ?s = "clamp_index (int (length xs)) (sint start) (sint step)"
    and ?e = "clamp_index (int (length xs)) (sint stop) (sint step)"
  obtain s' e' n' where adj:
      "slice_adjust_indices (word_of_nat (length xs)) start stop step = Ok (s', e', n')"
      "sint s' = ?s" "sint n' = slice_count ?s ?e (sint step)"
    using slice_adjust_indices_eq [OF len step] by blast
  have st: "sint step \<noteq> 0" using step by (simp add: i64_eq_iff)
  have "\<forall>j < nat (sint n'). 0 \<le> sint s' + int j * sint step \<and>
      sint s' + int j * sint step < int (length xs)"
    using slice_index_in_range [of "int (length xs)" "sint step" _ "sint start" "sint stop"] st
    by (auto simp: adj slice_indices_def Let_def)
  then have "slice_loop xs (nat (sint n')) s' step =
      Ok (map (\<lambda>j. xs ! nat (sint s' + int j * sint step)) [0..<nat (sint n')])"
    using len by (rule slice_loop_eq)
  with adj step show ?thesis
    by (simp add: slice_items_def slice_unpack_def slice_indices_def Let_def comp_def)
qed

text \<open>
  The slice of a list takes exactly the indices between the clamped bounds, every \<open>step\<close>-th one
  from the start on.
\<close>

lemma slice_indices_mem:
  assumes "0 < step"
  shows "i \<in> set (slice_indices len start stop step) \<longleftrightarrow>
    clamp_index len start step \<le> i \<and> i < clamp_index len stop step \<and>
    step dvd (i - clamp_index len start step)"
    (is "_ \<longleftrightarrow> ?s \<le> i \<and> i < ?e \<and> _")
proof
  assume "i \<in> set (slice_indices len start stop step)"
  then obtain n where n: "n < nat (slice_count ?s ?e step)" "i = ?s + int n * step"
    by (auto simp: slice_indices_def Let_def)
  then show "?s \<le> i \<and> i < ?e \<and> step dvd (i - ?s)"
    using assms slice_count_less(2) [of "int n" ?s ?e step] by auto
next
  assume r: "?s \<le> i \<and> i < ?e \<and> step dvd (i - ?s)"
  then obtain k where k: "i - ?s = step * k" by auto
  with r assms have "0 \<le> k" by (metis diff_ge_0_iff_ge zero_le_mult_iff not_le order_less_imp_le)
  moreover have "k \<le> (?e - ?s - 1) div step"
    using zdiv_mono1 [of "step * k" "?e - ?s - 1" step] r k assms by auto
  ultimately have "nat k < nat (slice_count ?s ?e step)" "i = ?s + int (nat k) * step"
    using r k assms by (auto simp: slice_count_def mult.commute)
  then show "i \<in> set (slice_indices len start stop step)"
    unfolding slice_indices_def Let_def set_map set_upt by (intro image_eqI [of _ _ "nat k"]) simp_all
qed

section \<open>Search and update\<close>

lemma find_equal_spec:
  "find_equal i xs item = r \<Longrightarrow>
     (r = - 1 \<and> (\<forall>x \<in> set xs. \<not> cmp_equal x item)) \<or>
     (\<exists>j < length xs. r = int (i + j) \<and> cmp_equal (xs ! j) item \<and>
        (\<forall>k < j. \<not> cmp_equal (xs ! k) item))"
proof (induction xs arbitrary: i)
  case (Cons x xs)
  show ?case
  proof (cases "cmp_equal x item")
    case True
    with Cons.prems show ?thesis by auto
  next
    case False
    with Cons.prems have "find_equal (Suc i) xs item = r" by simp
    from Cons.IH [OF this]
    consider "r = - 1" "\<forall>x \<in> set xs. \<not> cmp_equal x item"
      | j where "j < length xs" "r = int (Suc i + j)" "cmp_equal (xs ! j) item"
        "\<forall>k < j. \<not> cmp_equal (xs ! k) item"
      by blast
    then show ?thesis
    proof cases
      case 2
      with False show ?thesis
        by (intro disjI2 exI [of _ "Suc j"]) (auto simp: less_Suc_eq_0_disj)
    qed (use False in simp)
  qed
qed simp

lemma last_equal_spec:
  "last_equal i xs item acc = r \<Longrightarrow>
     (r = acc \<and> (\<forall>x \<in> set xs. \<not> cmp_equal x item)) \<or>
     (\<exists>j < length xs. r = Some (i + j) \<and> cmp_equal (xs ! j) item)"
proof (induction xs arbitrary: i acc)
  case (Cons x xs)
  let ?acc = "if cmp_equal x item then Some i else acc"
  have "last_equal (Suc i) xs item ?acc = r" using Cons.prems by simp
  from Cons.IH [OF this]
  consider "r = ?acc" "\<forall>x \<in> set xs. \<not> cmp_equal x item"
    | j where "j < length xs" "r = Some (Suc i + j)" "cmp_equal (xs ! j) item"
    by blast
  then show ?case
  proof cases
    case 1
    then show ?thesis by (cases "cmp_equal x item") auto
  next
    case 2
    then show ?thesis by (intro disjI2 exI [of _ "Suc j"]) simp
  qed
qed simp

lemma count_equal_append: "count_equal (xs @ ys) item = count_equal xs item + count_equal ys item"
  by (induction xs) auto

lemma count_equal_eq_0 [simp]: "count_equal xs item = 0 \<longleftrightarrow> (\<forall>x \<in> set xs. \<not> cmp_equal x item)"
  by (induction xs) auto

lemma list_remove_count:
  assumes "list_remove (list_value xs) item = Ok v"
  shows "\<exists>ys. v = list_value ys \<and> count_equal ys item = count_equal xs item - 1"
proof (cases "last_equal 0 xs item None")
  case None
  then have c: "count_equal xs item = 0" using last_equal_spec [OF None] by simp
  from None assms have "v = list_value xs" by simp
  then show ?thesis by (intro exI [of _ xs]) (simp only: c, simp)
next
  case (Some i)
  then obtain j where j: "i = j" "j < length xs" "cmp_equal (xs ! j) item"
    using last_equal_spec [OF Some] by auto
  then have v: "v = list_value (take j xs @ drop (Suc j) xs)"
    using assms Some by (auto simp: bounds_res_def vec_remove_def split: if_splits)
  have "count_equal xs item = count_equal (take j xs @ xs ! j # drop (Suc j) xs) item"
    using j by (simp add: id_take_nth_drop [symmetric])
  with j v show ?thesis by (auto simp: count_equal_append)
qed

lemma list_append_pop: "list_append v x = Ok w \<Longrightarrow> list_pop w = Ok (v, Some x)"
  by (cases v) auto

lemma list_insert_remove_at: "list_insert_at v i x = Ok w \<Longrightarrow> list_remove_at w i = Ok v"
  by (cases v) (auto simp: bounds_res_def vec_remove_insert split: option.splits)

section \<open>Properties\<close>



text \<open>C28: for a positive step the indices of a slice are exactly those between the clamped bounds that
  lie a multiple of the step after the start.\<close>

theorem slice_selects_step_indices:
  assumes "in_i64 (int (length xs))" "0 < sint step"
  shows "\<exists>is. list_slice (list_value xs) (int_value start) (int_value stop) (int_value step) =
      Ok (list_value (map (\<lambda>i. xs ! nat i) is)) \<and>
    (\<forall>i. i \<in> set is \<longleftrightarrow>
      clamp_index (int (length xs)) (sint start) (sint step) \<le> i \<and>
      i < clamp_index (int (length xs)) (sint stop) (sint step) \<and>
      sint step dvd (i - clamp_index (int (length xs)) (sint start) (sint step)))"
proof -
  have "step \<noteq> 0" using assms(2) by auto
  with slice_items_int [OF assms(1) this, of start stop] slice_indices_mem [OF assms(2)] show ?thesis
    by auto
qed

theorem slice_selects_step_indices_witness:
  "\<exists>is. list_slice (list_value [none_value, none_value]) (int_value 0) (int_value 2) (int_value 1) =
      Ok (list_value (map (\<lambda>i. [none_value, none_value] ! nat i) is)) \<and>
    (\<forall>i. i \<in> set is \<longleftrightarrow> 0 \<le> i \<and> i < 2)"
proof -
  have "in_i64 (int (length [none_value, none_value]))" "0 < sint (1 :: i64)" by code_simp+
  from slice_selects_step_indices [OF this, of 0 2] show ?thesis
    by (simp add: clamp_index_def)
qed





end
