(* ===== verification/ValueBin.thy ===== *)
theory ValueBin
  imports ValueList
begin

text \<open>
  The binary operators of the runtime (\<open>runtime/src/value/val_bin.rs\<close>) except the union \<open>|\<close>, which is
  in \<open>ValueUnion\<close>. The configuration decides which overflow checks run; \<open>f64::powf\<close> is an argument
  of the power operator.
\<close>

section \<open>Definitions\<close>

record context_config =
  debug_mode :: bool
  strict_range_check :: bool
  disable_schema_check :: bool

definition strict_32 :: "context_config \<Rightarrow> bool" where
  "strict_32 cfg = strict_range_check cfg"

definition strict_64 :: "context_config \<Rightarrow> bool" where
  "strict_64 cfg = (debug_mode cfg \<or> \<not> strict_range_check cfg)"

text \<open>The overflow messages print the exact result as an \<open>i128\<close>.\<close>

definition i128_wrap :: "int \<Rightarrow> int" where
  "i128_wrap r = sint (word_of_int r :: 128 word)"

definition unsupported_bin_op :: "string \<Rightarrow> val \<Rightarrow> val \<Rightarrow> 'a res" where
  "unsupported_bin_op op v x = Err (UnsupportedBinOp op (type_str v) (type_str x))"

definition check_f32 :: "bool \<Rightarrow> bool \<Rightarrow> f64 \<Rightarrow> val res" where
  "check_f32 enabled overflow r =
     (if enabled \<and> overflow then Err (FloatOverflow32 r) else Ok (float_value r))"

definition bin_add :: "context_config \<Rightarrow> val \<Rightarrow> val \<Rightarrow> val res" where
  "bin_add cfg v x =
     (case v of
        int_value a \<Rightarrow>
          (case x of
             int_value b \<Rightarrow>
               (if strict_32 cfg \<and> is_i32_overflow_add a b then
                  Err (IntOverflow32 (sint a + sint b))
                else if strict_64 cfg \<and> is_i64_overflow_add a b then
                  Err (IntOverflow64 (sint a + sint b))
                else Ok (int_value (a + b)))
           | float_value b \<Rightarrow>
               check_f32 True (is_f32_overflow_add (f64_of_i64 a) b) (f64_add (f64_of_i64 a) b)
           | _ \<Rightarrow> unsupported_bin_op ''+'' v x)
      | float_value a \<Rightarrow>
          (case x of
             float_value b \<Rightarrow> check_f32 (strict_32 cfg) (is_f32_overflow_add a b) (f64_add a b)
           | int_value b \<Rightarrow>
               check_f32 True (is_f32_overflow_add a (f64_of_i64 b)) (f64_add a (f64_of_i64 b))
           | _ \<Rightarrow> unsupported_bin_op ''+'' v x)
      | str_value a \<Rightarrow>
          (case x of
             str_value b \<Rightarrow> Ok (str_value (a @ b))
           | _ \<Rightarrow> unsupported_bin_op ''+'' v x)
      | list_value a \<Rightarrow>
          (case x of
             list_value b \<Rightarrow> Ok (list_value (a @ b))
           | _ \<Rightarrow> Err (ConcatError (type_str x)))
      | _ \<Rightarrow> unsupported_bin_op ''+'' v x)"

text \<open>The 64-bit check of \<open>-\<close> raises the message of the 32-bit one.\<close>

definition bin_sub :: "context_config \<Rightarrow> val \<Rightarrow> val \<Rightarrow> val res" where
  "bin_sub cfg v x =
     (case v of
        int_value a \<Rightarrow>
          (case x of
             int_value b \<Rightarrow>
               (if strict_32 cfg \<and> is_i32_overflow_sub a b then
                  Err (IntOverflow32 (sint a - sint b))
                else if strict_64 cfg \<and> is_i64_overflow_sub a b then
                  Err (IntOverflow32 (sint a - sint b))
                else Ok (int_value (a - b)))
           | float_value b \<Rightarrow>
               check_f32 (strict_32 cfg) (is_f32_overflow_sub (f64_of_i64 a) b)
                 (f64_sub (f64_of_i64 a) b)
           | _ \<Rightarrow> unsupported_bin_op ''-'' v x)
      | float_value a \<Rightarrow>
          (case x of
             float_value b \<Rightarrow> check_f32 (strict_32 cfg) (is_f32_overflow_sub a b) (f64_sub a b)
           | int_value b \<Rightarrow>
               check_f32 (strict_32 cfg) (is_f32_overflow_sub a (f64_of_i64 b))
                 (f64_sub a (f64_of_i64 b))
           | _ \<Rightarrow> unsupported_bin_op ''-'' v x)
      | _ \<Rightarrow> unsupported_bin_op ''-'' v x)"

text \<open>
  \<open>str::repeat\<close> and the growth of a vector panic when the result exceeds the address space
  (\<open>isize::MAX\<close> bytes; a list element is one pointer).
\<close>

definition isize_MAX :: nat where
  "isize_MAX = 9223372036854775807"

definition str_repeat :: "string \<Rightarrow> nat \<Rightarrow> string res" where
  "str_repeat s n =
     (if length s * n \<le> isize_MAX then Ok (concat (replicate n s)) else Err (RustPanic Capacity))"

definition list_repeat :: "val list \<Rightarrow> nat \<Rightarrow> val list res" where
  "list_repeat xs n =
     (if 8 * (length xs * n) \<le> isize_MAX then Ok (concat (replicate n (map deep_copy xs)))
      else Err (RustPanic Capacity))"

definition bin_mul :: "context_config \<Rightarrow> val \<Rightarrow> val \<Rightarrow> val res" where
  "bin_mul cfg v x =
     (case v of
        int_value a \<Rightarrow>
          (case x of
             int_value b \<Rightarrow>
               (if strict_32 cfg \<and> is_i32_overflow_mul a b then
                  Err (IntOverflow32 (sint a * sint b))
                else if strict_64 cfg \<and> is_i64_overflow_mul a b then
                  Err (IntOverflow64 (sint a * sint b))
                else Ok (int_value (a * b)))
           | float_value b \<Rightarrow>
               check_f32 (strict_32 cfg) (is_f32_overflow_mul (f64_of_i64 a) b)
                 (f64_mul (f64_of_i64 a) b)
           | str_value b \<Rightarrow> bind_res (str_repeat b (as_usize a)) (\<lambda>s. Ok (str_value s))
           | list_value b \<Rightarrow> bind_res (list_repeat b (as_usize a)) (\<lambda>l. Ok (list_value l))
           | _ \<Rightarrow> unsupported_bin_op ''*'' v x)
      | float_value a \<Rightarrow>
          (case x of
             float_value b \<Rightarrow> check_f32 (strict_32 cfg) (is_f32_overflow_mul a b) (f64_mul a b)
           | int_value b \<Rightarrow>
               check_f32 (strict_32 cfg) (is_f32_overflow_mul a (f64_of_i64 b))
                 (f64_mul a (f64_of_i64 b))
           | _ \<Rightarrow> unsupported_bin_op ''*'' v x)
      | str_value a \<Rightarrow>
          (case x of
             int_value b \<Rightarrow> bind_res (str_repeat a (as_usize b)) (\<lambda>s. Ok (str_value s))
           | _ \<Rightarrow> unsupported_bin_op ''*'' v x)
      | list_value a \<Rightarrow>
          (case x of
             int_value b \<Rightarrow> bind_res (list_repeat a (as_usize b)) (\<lambda>l. Ok (list_value l))
           | _ \<Rightarrow> unsupported_bin_op ''*'' v x)
      | _ \<Rightarrow> unsupported_bin_op ''*'' v x)"

definition bin_div :: "val \<Rightarrow> val \<Rightarrow> val res" where
  "bin_div v x =
     (case v of
        int_value a \<Rightarrow>
          (case x of
             int_value b \<Rightarrow> Ok (float_value (f64_div (f64_of_i64 a) (f64_of_i64 b)))
           | float_value b \<Rightarrow> Ok (float_value (f64_div (f64_of_i64 a) b))
           | _ \<Rightarrow> unsupported_bin_op ''/'' v x)
      | float_value a \<Rightarrow>
          (case x of
             float_value b \<Rightarrow> Ok (float_value (f64_div a b))
           | int_value b \<Rightarrow> Ok (float_value (f64_div a (f64_of_i64 b)))
           | _ \<Rightarrow> unsupported_bin_op ''/'' v x)
      | _ \<Rightarrow> unsupported_bin_op ''/'' v x)"

definition i64_floor_mod :: "i64 \<Rightarrow> i64 \<Rightarrow> i64 res" where
  "i64_floor_mod x y =
     (case i64_rem x y of
        None \<Rightarrow> Err (RustPanic Arith)
      | Some r \<Rightarrow> Ok (if (sint x < 0) \<noteq> (sint y < 0) \<and> r \<noteq> 0 then r + y else r))"

definition i64_floor_div :: "i64 \<Rightarrow> i64 \<Rightarrow> i64 res" where
  "i64_floor_div x y =
     (case (i64_rem x y, i64_div x y) of
        (Some r, Some q) \<Rightarrow>
          Ok (if (sint x < 0) \<noteq> (sint y < 0) \<and> r \<noteq> 0 then q - 1 else q)
      | _ \<Rightarrow> Err (RustPanic Arith))"

definition bin_mod :: "val \<Rightarrow> val \<Rightarrow> val res" where
  "bin_mod v x =
     (case v of
        int_value a \<Rightarrow>
          (case x of
             int_value b \<Rightarrow> bind_res (i64_floor_mod a b) (\<lambda>r. Ok (int_value r))
           | float_value b \<Rightarrow> Ok (float_value (f64_rem (f64_of_i64 a) b))
           | _ \<Rightarrow> unsupported_bin_op ''%'' v x)
      | float_value a \<Rightarrow>
          (case x of
             float_value b \<Rightarrow> Ok (float_value (f64_rem a b))
           | int_value b \<Rightarrow> Ok (float_value (f64_rem a (f64_of_i64 b)))
           | _ \<Rightarrow> unsupported_bin_op ''%'' v x)
      | _ \<Rightarrow> unsupported_bin_op ''%'' v x)"

definition bin_pow :: "(f64 \<Rightarrow> f64 \<Rightarrow> f64) \<Rightarrow> context_config \<Rightarrow> val \<Rightarrow> val \<Rightarrow> val res" where
  "bin_pow powf cfg v x =
     (case v of
        int_value a \<Rightarrow>
          (case x of
             int_value b \<Rightarrow>
               (if strict_32 cfg \<and> is_i32_overflow_pow a b then
                  Err (IntOverflow32 (i128_wrap (sint a ^ as_u32 b)))
                else if strict_64 cfg \<and> is_i64_overflow_pow a b then
                  Err (IntOverflow64 (i128_wrap (sint a ^ as_u32 b)))
                else Ok (int_value (a ^ as_u32 b)))
           | float_value b \<Rightarrow>
               check_f32 (strict_32 cfg) (is_f32_overflow_pow powf (f64_of_i64 a) b)
                 (powf (f64_of_i64 a) b)
           | _ \<Rightarrow> unsupported_bin_op ''**'' v x)
      | float_value a \<Rightarrow>
          (case x of
             float_value b \<Rightarrow>
               check_f32 (strict_32 cfg) (is_f32_overflow_pow powf a b) (powf a b)
           | int_value b \<Rightarrow>
               check_f32 (strict_32 cfg) (is_f32_overflow_pow powf a (f64_of_i64 b))
                 (powf a (f64_of_i64 b))
           | _ \<Rightarrow> unsupported_bin_op ''**'' v x)
      | _ \<Rightarrow> unsupported_bin_op ''**'' v x)"

definition bin_floor_div :: "val \<Rightarrow> val \<Rightarrow> val res" where
  "bin_floor_div v x =
     (case v of
        int_value a \<Rightarrow>
          (case x of
             int_value b \<Rightarrow> bind_res (i64_floor_div a b) (\<lambda>r. Ok (int_value r))
           | float_value b \<Rightarrow> Ok (float_value (f64_floor (f64_div (f64_of_i64 a) b)))
           | _ \<Rightarrow> unsupported_bin_op ''//'' v x)
      | float_value a \<Rightarrow>
          (case x of
             float_value b \<Rightarrow> Ok (float_value (f64_floor (f64_div a b)))
           | int_value b \<Rightarrow> Ok (float_value (f64_floor (f64_div a (f64_of_i64 b))))
           | _ \<Rightarrow> unsupported_bin_op ''//'' v x)
      | _ \<Rightarrow> unsupported_bin_op ''//'' v x)"

definition bin_bit_lshift :: "context_config \<Rightarrow> val \<Rightarrow> val \<Rightarrow> val res" where
  "bin_bit_lshift cfg v x =
     (case (v, x) of
        (int_value a, int_value b) \<Rightarrow>
          (if strict_32 cfg \<and> is_i32_overflow_shl a b then
             Err (IntOverflow32 (i128_wrap (sint a * 2 ^ (as_u32 b mod 128))))
           else if strict_64 cfg \<and> is_i64_overflow_shl a b then
             Err (IntOverflow64 (i128_wrap (sint a * 2 ^ (as_u32 b mod 128))))
           else Ok (int_value (i64_shl a b)))
      | _ \<Rightarrow> unsupported_bin_op ''<<'' v x)"

definition bin_bit_rshift :: "context_config \<Rightarrow> val \<Rightarrow> val \<Rightarrow> val res" where
  "bin_bit_rshift cfg v x =
     (case (v, x) of
        (int_value a, int_value b) \<Rightarrow>
          (if strict_32 cfg \<and> is_i32_overflow_shr a b then
             Err (IntOverflow32 (sint a div 2 ^ (as_u32 b mod 128)))
           else if strict_64 cfg \<and> is_i64_overflow_shr a b then
             Err (IntOverflow64 (sint a div 2 ^ (as_u32 b mod 128)))
           else Ok (int_value (i64_shr a b)))
      | _ \<Rightarrow> unsupported_bin_op ''>>'' v x)"

definition bin_bit_and :: "val \<Rightarrow> val \<Rightarrow> val res" where
  "bin_bit_and v x =
     (case (v, x) of
        (int_value a, int_value b) \<Rightarrow> Ok (int_value (a AND b))
      | _ \<Rightarrow> unsupported_bin_op ''&'' v x)"

definition bin_bit_xor :: "val \<Rightarrow> val \<Rightarrow> val res" where
  "bin_bit_xor v x =
     (case (v, x) of
        (int_value a, int_value b) \<Rightarrow> Ok (int_value (a XOR b))
      | _ \<Rightarrow> unsupported_bin_op ''^'' v x)"

definition bin_subscr :: "val \<Rightarrow> val \<Rightarrow> val res" where
  "bin_subscr v x =
     (case v of
        str_value a \<Rightarrow>
          (case x of
             int_value b \<Rightarrow>
               bind_res (must_normalize_index (as_i32 b) (length (str_chars a))) (\<lambda>index.
                 if index < length a then
                   bind_res (bounds_res (vec_get (str_chars a) index)) (\<lambda>ch. Ok (str_value ch))
                 else Err (StrIndexOutOfRange b))
           | _ \<Rightarrow> Err (NotSubscriptable (type_str v) (type_str x)))
      | list_value a \<Rightarrow>
          (case x of
             int_value b \<Rightarrow>
               bind_res (must_normalize_index (as_i32 b) (length a)) (\<lambda>index.
                 if index < length a then Ok (a ! index) else Err (ListIndexOutOfRange b))
           | _ \<Rightarrow> Err (NotSubscriptable (type_str v) (type_str x)))
      | dict_value a \<Rightarrow>
          (case x of
             str_value b \<Rightarrow>
               Ok (case imap_get (dv_values a) b of Some y \<Rightarrow> y | None \<Rightarrow> undefined_value)
           | _ \<Rightarrow> Ok undefined_value)
      | schema_value a \<Rightarrow>
          (case x of
             str_value b \<Rightarrow>
               Ok (case imap_get (dv_values (sv_config a)) b of
                     Some y \<Rightarrow> y | None \<Rightarrow> undefined_value)
           | _ \<Rightarrow> Err (NotSubscriptable (type_str v) (type_str x)))
      | _ \<Rightarrow> Err (NotSubscriptable (type_str v) (type_str x)))"

definition bin_subscr_option :: "val \<Rightarrow> val \<Rightarrow> val res" where
  "bin_subscr_option v x = (if is_truthy v then bin_subscr v x else Ok none_value)"

section \<open>Integer arithmetic never wraps\<close>

text \<open>
  The contract the checked integer operators share: on two integers a returned value is the exact
  mathematical result and within the range the configuration selects. \<open>+\<close>, \<open>-\<close> and \<open>*\<close> moreover
  return whenever operands and result are in that range; \<open>**\<close> also refuses exponents beyond
  \<open>i32\<close>.
\<close>

definition in_range :: "context_config \<Rightarrow> int \<Rightarrow> bool" where
  "in_range cfg r = (if strict_range_check cfg then in_i32 r else in_i64 r)"

locale sound_int_op =
  fixes bin :: "context_config \<Rightarrow> val \<Rightarrow> val \<Rightarrow> val res"
    and exact :: "int \<Rightarrow> int \<Rightarrow> int"
  assumes exact_if_Ok: "bin cfg (int_value a) (int_value b) = Ok v \<Longrightarrow>
      \<exists>c. v = int_value c \<and> sint c = exact (sint a) (sint b) \<and> in_range cfg (sint c)"
begin

text \<open>A chain of operations on integers computes the fold of the exact operation, or fails.\<close>

lemma chain_exact:
  "foldl (\<lambda>acc b. bind_res acc (\<lambda>v. bin cfg v (int_value b))) (Ok (int_value a)) bs = Ok v \<Longrightarrow>
    \<exists>c. v = int_value c \<and> sint c = foldl exact (sint a) (map sint bs)"
proof (induction bs arbitrary: a)
  case (Cons b bs)
  let ?f = "\<lambda>acc b. bind_res acc (\<lambda>v. bin cfg v (int_value b))"
  have err: "foldl ?f (Inl e) bs \<noteq> Ok v" for e
    by (induction bs) auto
  obtain w where w: "bin cfg (int_value a) (int_value b) = Ok w"
    using Cons.prems err by (cases "bin cfg (int_value a) (int_value b)") auto
  then obtain c where c: "w = int_value c" "sint c = exact (sint a) (sint b)"
    using exact_if_Ok by blast
  with Cons.prems w have "foldl ?f (Ok (int_value c)) bs = Ok v" by simp
  from Cons.IH [OF this] c show ?case by simp
qed auto

end

locale checked_int_op = sound_int_op +
  assumes Ok_if_in_range: "in_range cfg (sint a) \<Longrightarrow> in_range cfg (sint b) \<Longrightarrow>
      in_range cfg (exact (sint a) (sint b)) \<Longrightarrow>
      \<exists>v. bin cfg (int_value a) (int_value b) = Ok v"
begin

lemma Ok_iff:
  assumes "in_range cfg (sint a)" "in_range cfg (sint b)"
  shows "bin cfg (int_value a) (int_value b) = Ok (int_value c) \<longleftrightarrow>
    sint c = exact (sint a) (sint b) \<and> in_range cfg (sint c)"
proof
  assume "bin cfg (int_value a) (int_value b) = Ok (int_value c)"
  from exact_if_Ok [OF this] show "sint c = exact (sint a) (sint b) \<and> in_range cfg (sint c)" by auto
next
  assume c: "sint c = exact (sint a) (sint b) \<and> in_range cfg (sint c)"
  then obtain v where v: "bin cfg (int_value a) (int_value b) = Ok v"
    using Ok_if_in_range [OF assms] by auto
  with exact_if_Ok [OF v] c show "bin cfg (int_value a) (int_value b) = Ok (int_value c)"
    by (auto simp: i64_eq_iff)
qed

end

lemmas strict_defs = strict_32_def strict_64_def in_range_def

interpretation add_op: checked_int_op bin_add "(+)"
proof (unfold_locales, goal_cases)
  case (1 cfg a b v)
  then show ?case
    by (auto simp: bin_add_def strict_defs is_i32_overflow_add_iff is_i64_overflow_add_def
        i64_checked_add_def sint_add_i64 in_i32_imp_in_i64 split: if_splits)
next
  case (2 cfg a b)
  then show ?case
    by (auto simp: bin_add_def strict_defs is_i32_overflow_add_iff is_i64_overflow_add_def
        i64_checked_add_def in_i32_imp_in_i64 split: if_splits)
qed

interpretation sub_op: checked_int_op bin_sub "(-)"
proof (unfold_locales, goal_cases)
  case (1 cfg a b v)
  then show ?case
    by (auto simp: bin_sub_def strict_defs is_i32_overflow_sub_iff is_i64_overflow_sub_def
        i64_checked_sub_def sint_sub_i64 in_i32_imp_in_i64 split: if_splits)
next
  case (2 cfg a b)
  then show ?case
    by (auto simp: bin_sub_def strict_defs is_i32_overflow_sub_iff is_i64_overflow_sub_def
        i64_checked_sub_def in_i32_imp_in_i64 split: if_splits)
qed

interpretation mul_op: checked_int_op bin_mul "(*)"
proof (unfold_locales, goal_cases)
  case (1 cfg a b v)
  then show ?case
    by (auto simp: bin_mul_def strict_defs is_i32_overflow_mul_iff is_i64_overflow_mul_def
        i64_checked_mul_def sint_mul_i64 in_i32_imp_in_i64 split: if_splits)
next
  case (2 cfg a b)
  then show ?case
    by (auto simp: bin_mul_def strict_defs is_i32_overflow_mul_iff is_i64_overflow_mul_def
        i64_checked_mul_def in_i32_imp_in_i64 split: if_splits)
qed

interpretation pow_op: sound_int_op "bin_pow powf" "\<lambda>a b. a ^ nat (b mod 4294967296)"
proof (unfold_locales, goal_cases)
  case (1 cfg a b v)
  then show ?case
    by (auto simp: bin_pow_def strict_defs is_i32_overflow_pow_iff is_i64_overflow_pow_def
        i64_checked_pow_def sint_pow_i64 in_i32_imp_in_i64 as_u32_def split: if_splits)
qed

section \<open>Integer division and remainder\<close>

lemma smod_eq_0_iff: "(x :: int) smod y = 0 \<longleftrightarrow> y dvd x"
proof -
  have "x smod y = 0 \<longleftrightarrow> \<bar>x\<bar> mod \<bar>y\<bar> = 0"
    by (cases "x = 0") (auto simp: signed_modulo_int_def sgn_if)
  then show ?thesis
    by (metis dvd_eq_mod_eq_0 abs_dvd_iff dvd_abs_iff)
qed

lemma int_floor_mod:
  fixes x y :: int
  assumes "y \<noteq> 0"
  shows "(if (x < 0) \<noteq> (y < 0) \<and> x smod y \<noteq> 0 then x smod y + y else x smod y) = x mod y"
proof -
  have "\<not> y dvd x \<Longrightarrow> sgn x \<noteq> sgn y \<longleftrightarrow> (x < 0) \<noteq> (y < 0)"
    using assms by (auto simp: sgn_if)
  then show ?thesis
    by (auto simp: smod_eq_0_iff modulo_int_eq_signed_modulo_int)
qed

lemma int_floor_div:
  fixes x y :: int
  assumes "y \<noteq> 0"
  shows "(if (x < 0) \<noteq> (y < 0) \<and> x smod y \<noteq> 0 then x sdiv y - 1 else x sdiv y) = x div y"
proof -
  have "\<not> y dvd x \<Longrightarrow> sgn x \<noteq> sgn y \<longleftrightarrow> (x < 0) \<noteq> (y < 0)"
    using assms by (auto simp: sgn_if)
  with assms show ?thesis
    by (auto simp: smod_eq_0_iff divide_int_eq_signed_divide_int)
qed

lemma mod_in_i64:
  assumes "y \<noteq> 0" "in_i64 y"
  shows "in_i64 (x mod y)"
proof (cases "0 < y")
  case True
  then show ?thesis
    using assms pos_mod_bound [OF True, of x] pos_mod_sign [OF True, of x] by (auto simp: in_i64_def)
next
  case False
  then have "y < 0" using assms by simp
  then show ?thesis
    using assms neg_mod_bound [OF \<open>y < 0\<close>, of x] neg_mod_sign [OF \<open>y < 0\<close>, of x]
    by (auto simp: in_i64_def)
qed

lemma smod_in_i64: "y \<noteq> 0 \<Longrightarrow> in_i64 y \<Longrightarrow> in_i64 (x smod y)"
  using smod_int_range [of y x] by (auto simp: in_i64_def abs_if split: if_splits)

lemma div_pos_bounds:
  fixes x y :: int
  assumes "0 < y"
  shows "0 \<le> x \<Longrightarrow> 0 \<le> x div y \<and> x div y \<le> x" and "x < 0 \<Longrightarrow> x \<le> x div y \<and> x div y < 0"
  using assms zdiv_mono2 [of x 1 y] zdiv_mono2_neg [of x 1 y]
  by (auto simp: pos_imp_zdiv_nonneg_iff pos_imp_zdiv_neg_iff)

lemma div_in_i64:
  assumes y: "y \<noteq> 0" and x: "in_i64 x" and no: "\<not> (x = - 9223372036854775808 \<and> y = - 1)"
  shows "in_i64 (x div y)"
proof (cases "0 < y")
  case True
  then show ?thesis using x div_pos_bounds [OF True, of x] by (cases "0 \<le> x") (auto simp: in_i64_def)
next
  case False
  then have pos: "0 < - y" using y by simp
  have eq: "x div y = (- x) div (- y)" by simp
  show ?thesis
  proof (cases "x = - 9223372036854775808")
    case True
    with no pos have "2 \<le> - y" by auto
    then have "(- x) div (- y) \<le> (- x) div 2" using True by (intro zdiv_mono2) auto
    then show ?thesis
      using True div_pos_bounds(1) [OF pos, of "- x"] unfolding eq by (auto simp: in_i64_def)
  next
    case False
    then show ?thesis
      using x div_pos_bounds [OF pos, of "- x"] unfolding eq by (cases "0 \<le> - x") (auto simp: in_i64_def)
  qed
qed

definition div_panics :: "i64 \<Rightarrow> i64 \<Rightarrow> bool" where
  "div_panics a b = (sint b = 0 \<or> (a = i64_MIN \<and> sint b = - 1))"

lemma i64_rem_floor:
  assumes "\<not> div_panics a b"
  obtains r where "i64_rem a b = Some r" "r = word_of_int (sint a smod sint b)"
    "r = 0 \<longleftrightarrow> sint a smod sint b = 0" "sint b \<noteq> 0"
proof -
  have b: "sint b \<noteq> 0" using assms by (simp add: div_panics_def)
  let ?r = "word_of_int (sint a smod sint b) :: i64"
  have r: "sint ?r = sint a smod sint b"
    using smod_in_i64 [OF b sint_i64_range] by (rule sint_of_in_i64)
  have "?r = 0 \<longleftrightarrow> sint a smod sint b = 0"
    unfolding i64_eq_iff [of ?r 0] r by simp
  moreover have "i64_rem a b = Some ?r"
    using assms b by (auto simp: i64_rem_def div_panics_def)
  ultimately show thesis using that b by blast
qed

lemma i64_floor_mod_eq:
  "i64_floor_mod a b =
     (if div_panics a b then Err (RustPanic Arith) else Ok (word_of_int (sint a mod sint b)))"
proof (cases "div_panics a b")
  case False
  then obtain r where r: "i64_rem a b = Some r" "r = word_of_int (sint a smod sint b)"
    "r = 0 \<longleftrightarrow> sint a smod sint b = 0" "sint b \<noteq> 0"
    by (rule i64_rem_floor)
  have "(if (sint a < 0) \<noteq> (sint b < 0) \<and> r \<noteq> 0 then r + b else r) =
      word_of_int (if (sint a < 0) \<noteq> (sint b < 0) \<and> sint a smod sint b \<noteq> 0
        then sint a smod sint b + sint b else sint a smod sint b)"
    unfolding r(3) by (simp only: r(2) if_distrib [of word_of_int] wi_hom_add [symmetric] of_int_sint scast_id)
  with False r(1) show ?thesis
    unfolding i64_floor_mod_def by (simp only: int_floor_mod [OF r(4)] option.case if_False)
qed (auto simp: i64_floor_mod_def i64_rem_def div_panics_def)

lemma i64_floor_div_eq:
  "i64_floor_div a b =
     (if div_panics a b then Err (RustPanic Arith) else Ok (word_of_int (sint a div sint b)))"
proof (cases "div_panics a b")
  case False
  then obtain r where r: "i64_rem a b = Some r" "r = word_of_int (sint a smod sint b)"
    "r = 0 \<longleftrightarrow> sint a smod sint b = 0" "sint b \<noteq> 0"
    by (rule i64_rem_floor)
  let ?q = "word_of_int (sint a sdiv sint b) :: i64"
  have q: "i64_div a b = Some ?q" using False by (auto simp: i64_div_def div_panics_def)
  have "(if (sint a < 0) \<noteq> (sint b < 0) \<and> r \<noteq> 0 then ?q - 1 else ?q) =
      word_of_int (if (sint a < 0) \<noteq> (sint b < 0) \<and> sint a smod sint b \<noteq> 0
        then sint a sdiv sint b - 1 else sint a sdiv sint b)"
    unfolding r(3) by (simp only: if_distrib [of word_of_int] wi_hom_sub [symmetric] word_1_wi)
  with False r(1) q show ?thesis
    unfolding i64_floor_div_def by (simp only: int_floor_div [OF r(4)] option.case prod.case if_False)
qed (auto simp: i64_floor_div_def i64_rem_def i64_div_def div_panics_def)

lemma sint_div_i64:
  assumes "\<not> div_panics a b"
  shows "sint (word_of_int (sint a div sint b) :: i64) = sint a div sint b"
proof (rule sint_of_in_i64)
  have "sint i64_MIN = - 9223372036854775808" by (simp add: i64_MIN_def)
  with assms show "in_i64 (sint a div sint b)"
    using sint_i64_range [of a] by (intro div_in_i64) (auto simp: div_panics_def i64_eq_iff)
qed

lemma sint_mod_i64:
  "\<not> div_panics a b \<Longrightarrow> sint (word_of_int (sint a mod sint b) :: i64) = sint a mod sint b"
  by (intro sint_of_in_i64 mod_in_i64 sint_i64_range) (auto simp: div_panics_def)

section \<open>Subscripts\<close>

lemma bin_subscr_list:
  assumes "length xs < 2147483648" "in_i32 (sint i)"
  shows "bin_subscr (list_value xs) (int_value i) =
    (if 0 \<le> sint i \<and> sint i < int (length xs) then Ok (xs ! nat (sint i))
     else if sint i < 0 \<and> - int (length xs) \<le> sint i then Ok (xs ! nat (sint i + int (length xs)))
     else if sint i < 0 then Err (IndexOutOfBounds (length xs) (as_i32 i))
     else Err (ListIndexOutOfRange i))"
  using assms
  by (auto simp: bin_subscr_def must_normalize_index_eq sint_as_i32)

section \<open>Properties\<close>



text \<open>A chain of integer powers, each result the base of the next, computes the exact powers or
  stops with an error: no intermediate value wraps.\<close>

lemma power_chain_exact:
  assumes "foldl (\<lambda>acc b. bind_res acc (\<lambda>v. bin_pow powf cfg v (int_value b))) (Ok (int_value a)) bs
    = Ok v"
  shows "\<exists>c. v = int_value c \<and>
    sint c = foldl (\<lambda>x b. x ^ nat (b mod 4294967296)) (sint a) (map sint bs)"
  using assms by (rule pow_op.chain_exact)

lemma power_chain_exact_at_input:
  "\<exists>c. int_value 64 = int_value c \<and>
    sint (c :: i64) = foldl (\<lambda>x b. x ^ nat (b mod 4294967296)) (sint (2 :: i64)) (map sint [3 :: i64, 2])"
  by (rule power_chain_exact [of "\<lambda>x _. x" "\<lparr>debug_mode = True, strict_range_check = False,
      disable_schema_check = False\<rparr>"]) code_simp

text \<open>C16: integer \<open>//\<close> and \<open>%\<close> are floor division and its remainder; they panic exactly for a zero
  divisor and for the one quotient that is out of range, and otherwise satisfy the division
  identity, the remainder having the sign of the divisor.\<close>

theorem floor_division:
  "(div_panics a b \<longrightarrow>
     bin_floor_div (int_value a) (int_value b) = Err (RustPanic Arith) \<and>
     bin_mod (int_value a) (int_value b) = Err (RustPanic Arith)) \<and>
   (\<not> div_panics a b \<longrightarrow>
     (\<exists>q r. bin_floor_div (int_value a) (int_value b) = Ok (int_value q) \<and>
        bin_mod (int_value a) (int_value b) = Ok (int_value r) \<and>
        sint q = sint a div sint b \<and> sint r = sint a mod sint b \<and>
        sint a = sint b * sint q + sint r \<and>
        (0 < sint b \<longrightarrow> 0 \<le> sint r \<and> sint r < sint b) \<and>
        (sint b < 0 \<longrightarrow> sint b < sint r \<and> sint r \<le> 0)))"
proof (cases "div_panics a b")
  case True
  then show ?thesis by (simp add: bin_floor_div_def bin_mod_def i64_floor_div_eq i64_floor_mod_eq)
next
  case False
  let ?q = "word_of_int (sint a div sint b) :: i64" and ?r = "word_of_int (sint a mod sint b) :: i64"
  have "sint a = sint b * sint ?q + sint ?r"
    by (simp only: sint_div_i64 [OF False] sint_mod_i64 [OF False] mult_div_mod_eq)
  with False show ?thesis
    by (simp add: bin_floor_div_def bin_mod_def i64_floor_div_eq i64_floor_mod_eq sint_div_i64
        sint_mod_i64 del: of_int_sint)
qed

theorem floor_division_witness:
  "\<exists>q r. bin_floor_div (int_value (- 7)) (int_value 2) = Ok (int_value q) \<and>
     bin_mod (int_value (- 7)) (int_value 2) = Ok (int_value r) \<and> sint (- 7 :: i64) = 2 * sint q + sint r"
proof -
  have "\<not> div_panics (- 7) 2" by code_simp
  with floor_division [of "- 7" 2] show ?thesis by fastforce
qed



text \<open>An index outside \<open>i32\<close> is truncated: it can name an element it should not.\<close>

lemma subscript_truncates:
  "bin_subscr (list_value [int_value 5, int_value 6]) (int_value 4294967296) = Ok (int_value 5)"
  by code_simp

lemma sub_overflow_message:
  "bin_sub \<lparr>debug_mode = False, strict_range_check = False, disable_schema_check = False\<rparr>
     (int_value i64_MIN) (int_value 1) = Err (IntOverflow32 (- 9223372036854775809))"
  by code_simp

end
