(* ===== verification/ValueBinAug.thy ===== *)
theory ValueBinAug
  imports ValueBin
begin

text \<open>
  The augmented assignments of the runtime (\<open>runtime/src/value/val_bin_aug.rs\<close>) except \<open>|=\<close>, which
  is in \<open>ValueUnion\<close>. The source updates the left operand in place; the model returns its new
  content, and an error leaves it as it was. An assignment on an integer keeps it an integer: the
  float operand of a mixed pair is converted with \<open>as i64\<close> and the sum, difference or product is
  the wrapping one.
\<close>

section \<open>Definitions\<close>

definition check_f32_or :: "bool \<Rightarrow> f64 \<Rightarrow> val \<Rightarrow> val res" where
  "check_f32_or failed r v = (if failed then Err (FloatOverflow32 r) else Ok v)"

definition arith_res :: "i64 option \<Rightarrow> val res" where
  "arith_res r = (case r of None \<Rightarrow> Err (RustPanic Arith) | Some q \<Rightarrow> Ok (int_value q))"

fun u32_of_f64 :: "f64 \<Rightarrow> nat" where
  "u32_of_f64 NaN = 0"
| "u32_of_f64 (Infinite s) = (if s then 0 else 4294967295)"
| "u32_of_f64 (Fin s m e) = nat (min 4294967295 (max 0 (f64_trunc s m e)))"

definition bin_aug_add :: "context_config \<Rightarrow> val \<Rightarrow> val \<Rightarrow> val res" where
  "bin_aug_add cfg v x =
     (case v of
        int_value a \<Rightarrow>
          (case x of
             int_value b \<Rightarrow>
               (if strict_32 cfg \<and> is_i32_overflow_add a b then
                  Err (IntOverflow32 (sint a + sint b))
                else if strict_64 cfg \<and> is_i64_overflow_add a b then
                  Err (IntOverflow64 (sint a + sint b))
                else Ok (int_value (a + b)))
           | float_value b \<Rightarrow>
               check_f32_or (is_f32_overflow_add (f64_of_i64 a) b) (f64_add (f64_of_i64 a) b)
                 (int_value (a + i64_of_f64 b))
           | _ \<Rightarrow> unsupported_bin_op ''+'' v x)
      | float_value a \<Rightarrow>
          (case x of
             float_value b \<Rightarrow> check_f32 (strict_32 cfg) (is_f32_overflow_add a b) (f64_add a b)
           | int_value b \<Rightarrow>
               check_f32 True (is_f32_overflow_add a (f64_of_i64 b)) (f64_add a (f64_of_i64 b))
           | _ \<Rightarrow> unsupported_bin_op ''+'' v x)
      | str_value a \<Rightarrow>
          (case x of
             str_value b \<Rightarrow> Ok (str_value (a @ b))
           | _ \<Rightarrow> unsupported_bin_op ''+'' v x)
      | list_value a \<Rightarrow>
          (case x of
             list_value b \<Rightarrow> Ok (list_value (a @ b))
           | _ \<Rightarrow> unsupported_bin_op ''+'' v x)
      | _ \<Rightarrow> unsupported_bin_op ''+'' v x)"

definition bin_aug_sub :: "context_config \<Rightarrow> val \<Rightarrow> val \<Rightarrow> val res" where
  "bin_aug_sub cfg v x =
     (case v of
        int_value a \<Rightarrow>
          (case x of
             int_value b \<Rightarrow>
               (if strict_32 cfg \<and> is_i32_overflow_sub a b then
                  Err (IntOverflow32 (sint a - sint b))
                else if strict_64 cfg \<and> is_i64_overflow_sub a b then
                  Err (IntOverflow32 (sint a - sint b))
                else Ok (int_value (a - b)))
           | float_value b \<Rightarrow>
               check_f32_or (strict_32 cfg \<and> is_f32_overflow_sub (f64_of_i64 a) b)
                 (f64_sub (f64_of_i64 a) b) (int_value (a - i64_of_f64 b))
           | _ \<Rightarrow> unsupported_bin_op ''-'' v x)
      | float_value a \<Rightarrow>
          (case x of
             float_value b \<Rightarrow> check_f32 (strict_32 cfg) (is_f32_overflow_sub a b) (f64_sub a b)
           | int_value b \<Rightarrow>
               check_f32 (strict_32 cfg) (is_f32_overflow_sub a (f64_of_i64 b))
                 (f64_sub a (f64_of_i64 b))
           | _ \<Rightarrow> unsupported_bin_op ''-'' v x)
      | _ \<Rightarrow> unsupported_bin_op ''-'' v x)"

text \<open>
  The list loop \<open>for _ in 1..n\<close> appends the first \<open>len\<close> elements \<open>n - 1\<close> times: for \<open>n = 0\<close> the
  list stays as it is.
\<close>

definition list_aug_repeat :: "val list \<Rightarrow> nat \<Rightarrow> val list res" where
  "list_aug_repeat xs n =
     (if 8 * (length xs * max 1 n) \<le> isize_MAX then Ok (xs @ concat (replicate (n - 1) xs))
      else Err (RustPanic Capacity))"

definition bin_aug_mul :: "context_config \<Rightarrow> val \<Rightarrow> val \<Rightarrow> val res" where
  "bin_aug_mul cfg v x =
     (case v of
        int_value a \<Rightarrow>
          (case x of
             int_value b \<Rightarrow>
               (if strict_32 cfg \<and> is_i32_overflow_mul a b then
                  Err (IntOverflow32 (sint a * sint b))
                else if strict_64 cfg \<and> is_i64_overflow_mul a b then
                  Err (IntOverflow64 (sint a * sint b))
                else Ok (int_value (a * b)))
           | float_value b \<Rightarrow>
               check_f32_or (strict_32 cfg \<and> is_f32_overflow_mul (f64_of_i64 a) b)
                 (f64_mul (f64_of_i64 a) b) (int_value (a * i64_of_f64 b))
           | _ \<Rightarrow> unsupported_bin_op ''*'' v x)
      | float_value a \<Rightarrow>
          (case x of
             float_value b \<Rightarrow> check_f32 (strict_32 cfg) (is_f32_overflow_mul a b) (f64_mul a b)
           | int_value b \<Rightarrow>
               check_f32 (strict_32 cfg) (is_f32_overflow_mul a (f64_of_i64 b))
                 (f64_mul a (f64_of_i64 b))
           | _ \<Rightarrow> unsupported_bin_op ''*'' v x)
      | str_value a \<Rightarrow>
          (case x of
             int_value b \<Rightarrow> bind_res (str_repeat a (as_usize b)) (\<lambda>s. Ok (str_value s))
           | _ \<Rightarrow> unsupported_bin_op ''*'' v x)
      | list_value a \<Rightarrow>
          (case x of
             int_value b \<Rightarrow> bind_res (list_aug_repeat a (as_usize b)) (\<lambda>l. Ok (list_value l))
           | _ \<Rightarrow> unsupported_bin_op ''*'' v x)
      | _ \<Rightarrow> unsupported_bin_op ''*'' v x)"

definition bin_aug_div :: "val \<Rightarrow> val \<Rightarrow> val res" where
  "bin_aug_div v x =
     (case v of
        int_value a \<Rightarrow>
          (case x of
             int_value b \<Rightarrow> arith_res (i64_div a b)
           | float_value b \<Rightarrow> arith_res (i64_div a (i64_of_f64 b))
           | _ \<Rightarrow> unsupported_bin_op ''/'' v x)
      | float_value a \<Rightarrow>
          (case x of
             int_value b \<Rightarrow> Ok (float_value (f64_div a (f64_of_i64 b)))
           | float_value b \<Rightarrow> Ok (float_value (f64_div a b))
           | _ \<Rightarrow> unsupported_bin_op ''/'' v x)
      | _ \<Rightarrow> unsupported_bin_op ''/'' v x)"

definition bin_aug_mod :: "val \<Rightarrow> val \<Rightarrow> val res" where
  "bin_aug_mod v x =
     (case v of
        int_value a \<Rightarrow>
          (case x of
             int_value b \<Rightarrow> bind_res (i64_floor_mod a b) (\<lambda>r. Ok (int_value r))
           | float_value b \<Rightarrow> arith_res (i64_rem a (i64_of_f64 b))
           | _ \<Rightarrow> unsupported_bin_op ''%'' v x)
      | float_value a \<Rightarrow>
          (case x of
             int_value b \<Rightarrow> Ok (float_value (f64_rem a (f64_of_i64 b)))
           | float_value b \<Rightarrow> Ok (float_value (f64_rem a b))
           | _ \<Rightarrow> unsupported_bin_op ''%'' v x)
      | _ \<Rightarrow> unsupported_bin_op ''%'' v x)"

definition bin_aug_pow :: "(f64 \<Rightarrow> f64 \<Rightarrow> f64) \<Rightarrow> context_config \<Rightarrow> val \<Rightarrow> val \<Rightarrow> val res" where
  "bin_aug_pow powf cfg v x =
     (case v of
        int_value a \<Rightarrow>
          (case x of
             int_value b \<Rightarrow>
               (if strict_32 cfg \<and> is_i32_overflow_pow a b then
                  Err (IntOverflow32 (i128_wrap (sint a ^ as_u32 b)))
                else if strict_64 cfg \<and> is_i64_overflow_pow a b then
                  Err (IntOverflow64 (i128_wrap (sint a ^ as_u32 b)))
                else Ok (int_value (a ^ as_u32 b)))
           | float_value b \<Rightarrow>
               check_f32_or (strict_32 cfg \<and> is_f32_overflow_pow powf (f64_of_i64 a) b)
                 (powf (f64_of_i64 a) b) (int_value (a ^ u32_of_f64 b))
           | _ \<Rightarrow> unsupported_bin_op ''**'' v x)
      | float_value a \<Rightarrow>
          (case x of
             float_value b \<Rightarrow>
               check_f32 (strict_32 cfg) (is_f32_overflow_pow powf a b) (powf a b)
           | int_value b \<Rightarrow>
               check_f32 (strict_32 cfg) (is_f32_overflow_pow powf a (f64_of_i64 b))
                 (powf a (f64_of_i64 b))
           | _ \<Rightarrow> unsupported_bin_op ''**'' v x)
      | _ \<Rightarrow> unsupported_bin_op ''**'' v x)"

text \<open>On floats \<open>//=\<close> does not round.\<close>

definition bin_aug_floor_div :: "val \<Rightarrow> val \<Rightarrow> val res" where
  "bin_aug_floor_div v x =
     (case v of
        int_value a \<Rightarrow>
          (case x of
             int_value b \<Rightarrow> bind_res (i64_floor_div a b) (\<lambda>r. Ok (int_value r))
           | float_value b \<Rightarrow> Ok (int_value (i64_of_f64 (f64_div (f64_of_i64 a) b)))
           | _ \<Rightarrow> unsupported_bin_op ''//'' v x)
      | float_value a \<Rightarrow>
          (case x of
             int_value b \<Rightarrow> Ok (float_value (f64_div a (f64_of_i64 b)))
           | float_value b \<Rightarrow> Ok (float_value (f64_div a b))
           | _ \<Rightarrow> unsupported_bin_op ''//'' v x)
      | _ \<Rightarrow> unsupported_bin_op ''//'' v x)"

definition bin_aug_bit_lshift :: "context_config \<Rightarrow> val \<Rightarrow> val \<Rightarrow> val res" where
  "bin_aug_bit_lshift cfg v x =
     (case (v, x) of
        (int_value a, int_value b) \<Rightarrow>
          (if strict_32 cfg \<and> is_i32_overflow_shl a b then
             Err (IntOverflow32 (i128_wrap (sint a * 2 ^ (as_u32 b mod 128))))
           else if strict_64 cfg \<and> is_i64_overflow_shl a b then
             Err (IntOverflow64 (i128_wrap (sint a * 2 ^ (as_u32 b mod 128))))
           else Ok (int_value (i64_shl a b)))
      | _ \<Rightarrow> unsupported_bin_op ''<<'' v x)"

definition bin_aug_bit_rshift :: "context_config \<Rightarrow> val \<Rightarrow> val \<Rightarrow> val res" where
  "bin_aug_bit_rshift cfg v x =
     (case (v, x) of
        (int_value a, int_value b) \<Rightarrow>
          (if strict_32 cfg \<and> is_i32_overflow_shr a b then
             Err (IntOverflow32 (sint a div 2 ^ (as_u32 b mod 128)))
           else if strict_64 cfg \<and> is_i64_overflow_shr a b then
             Err (IntOverflow64 (sint a div 2 ^ (as_u32 b mod 128)))
           else Ok (int_value (i64_shr a b)))
      | _ \<Rightarrow> unsupported_bin_op ''>>'' v x)"

text \<open>The message of a failed \<open>&=\<close> names the operator \<open>^\<close>.\<close>

definition bin_aug_bit_and :: "val \<Rightarrow> val \<Rightarrow> val res" where
  "bin_aug_bit_and v x =
     (case (v, x) of
        (int_value a, int_value b) \<Rightarrow> Ok (int_value (a AND b))
      | _ \<Rightarrow> unsupported_bin_op ''^'' v x)"

definition bin_aug_bit_xor :: "val \<Rightarrow> val \<Rightarrow> val res" where
  "bin_aug_bit_xor v x =
     (case (v, x) of
        (int_value a, int_value b) \<Rightarrow> Ok (int_value (a XOR b))
      | _ \<Rightarrow> unsupported_bin_op ''^'' v x)"

section \<open>Agreement with the plain operators\<close>

text \<open>
  The operators whose augmented form agrees with the plain one on every pair of operands that
  passes a guard, successes and errors alike. The integer operators take all pairs but a mixed
  integer/float one.
\<close>

locale aug_agrees =
  fixes aug bin :: "val \<Rightarrow> val \<Rightarrow> val res" and guard :: "val \<Rightarrow> val \<Rightarrow> bool"
  assumes agree: "guard v x \<Longrightarrow> aug v x = bin v x"
begin

text \<open>A chain of assignments to a variable computes what the chain of expressions does.\<close>

lemma chain_agree:
  assumes "\<And>v x w. P v \<Longrightarrow> x \<in> set xs \<Longrightarrow> guard v x \<and> (bin v x = Ok w \<longrightarrow> P w)" and "P v"
  shows "foldl (\<lambda>acc x. bind_res acc (\<lambda>v. aug v x)) (Ok v) xs =
    foldl (\<lambda>acc x. bind_res acc (\<lambda>v. bin v x)) (Ok v) xs"
  using assms
proof (induction xs arbitrary: v)
  case (Cons x xs)
  have err: "foldl (\<lambda>acc x. bind_res acc (\<lambda>v. f v x)) (Inl e) xs = Inl e"
    for e and f :: "val \<Rightarrow> val \<Rightarrow> val res"
    by (induction xs) auto
  have eq: "aug v x = bin v x" using Cons.prems agree by simp
  show ?case
  proof (cases "bin v x")
    case (Inr w)
    have w: "P w" using Cons.prems(1) [of v x w] Cons.prems(2) Inr by simp
    have "\<And>v y u. P v \<Longrightarrow> y \<in> set xs \<Longrightarrow> guard v y \<and> (bin v y = Ok u \<longrightarrow> P u)"
      by (rule Cons.prems(1)) simp_all
    from Cons.IH [OF this w] Inr eq show ?thesis by simp
  qed (use eq err in simp)
qed simp

end

definition int_float_pair :: "val \<Rightarrow> val \<Rightarrow> bool" where
  "int_float_pair v x = (is_int v \<and> is_float x)"

lemmas aug_defs = int_float_pair_def check_f32_or_def unsupported_bin_op_def is_kind_defs

interpretation aug_add: aug_agrees "bin_aug_add cfg" "bin_add cfg"
  "\<lambda>v x. \<not> int_float_pair v x \<and> (is_list v \<longrightarrow> is_list x)"
  by unfold_locales (auto simp: bin_aug_add_def bin_add_def aug_defs split: val.splits)

interpretation aug_sub: aug_agrees "bin_aug_sub cfg" "bin_sub cfg" "\<lambda>v x. \<not> int_float_pair v x"
  by unfold_locales (auto simp: bin_aug_sub_def bin_sub_def aug_defs split: val.splits)

interpretation aug_pow: aug_agrees "bin_aug_pow powf cfg" "bin_pow powf cfg"
  "\<lambda>v x. \<not> int_float_pair v x"
  by unfold_locales (auto simp: bin_aug_pow_def bin_pow_def aug_defs split: val.splits)

interpretation aug_mod: aug_agrees bin_aug_mod bin_mod "\<lambda>v x. \<not> int_float_pair v x"
  by unfold_locales (auto simp: bin_aug_mod_def bin_mod_def aug_defs split: val.splits)

interpretation aug_floor_div: aug_agrees bin_aug_floor_div bin_floor_div
  "\<lambda>v x. \<not> int_float_pair v x \<and> \<not> is_float v"
  by unfold_locales (auto simp: bin_aug_floor_div_def bin_floor_div_def aug_defs split: val.splits)

interpretation aug_lshift: aug_agrees "bin_aug_bit_lshift cfg" "bin_bit_lshift cfg" "\<lambda>_ _. True"
  by unfold_locales (simp add: bin_aug_bit_lshift_def bin_bit_lshift_def)

interpretation aug_rshift: aug_agrees "bin_aug_bit_rshift cfg" "bin_bit_rshift cfg" "\<lambda>_ _. True"
  by unfold_locales (simp add: bin_aug_bit_rshift_def bin_bit_rshift_def)

interpretation aug_xor: aug_agrees bin_aug_bit_xor bin_bit_xor "\<lambda>_ _. True"
  by unfold_locales (simp add: bin_aug_bit_xor_def bin_bit_xor_def)

text \<open>The multiplication agrees except for repetitions of a list by zero and \<open>int * str/list\<close>.\<close>

lemma list_repeat_eq_aug:
  assumes "0 < n" "map deep_copy xs = xs"
  shows "list_aug_repeat xs n = list_repeat xs n"
proof -
  have "xs @ concat (replicate (n - 1) xs) = concat (replicate n xs)"
    using assms(1) by (cases n) auto
  with assms show ?thesis
    by (simp add: list_aug_repeat_def list_repeat_def max_absorb2 Suc_le_eq)
qed

lemma bin_aug_mul_agree:
  assumes "\<not> int_float_pair v x" "is_int v \<longrightarrow> \<not> is_str x \<and> \<not> is_list x"
    "\<And>xs b. v = list_value xs \<Longrightarrow> x = int_value b \<Longrightarrow> b \<noteq> 0 \<and> map deep_copy xs = xs"
  shows "bin_aug_mul cfg v x = bin_mul cfg v x"
proof (cases "\<exists>xs b. v = list_value xs \<and> x = int_value b")
  case True
  then obtain xs b where v: "v = list_value xs" "x = int_value b" by auto
  with assms(3) have "0 < as_usize b" "map deep_copy xs = xs"
    by (auto simp: as_usize_def word_neq_0_conv unat_gt_0)
  with v show ?thesis
    by (simp add: bin_aug_mul_def bin_mul_def list_repeat_eq_aug)
next
  case False
  with assms(1,2) show ?thesis
    by (auto simp: bin_aug_mul_def bin_mul_def aug_defs split: val.splits)
qed

lemma bin_aug_mul_zero: "length xs < 1000000 \<Longrightarrow>
  bin_aug_mul cfg (list_value xs) (int_value 0) = Ok (list_value xs) \<and>
  bin_mul cfg (list_value xs) (int_value 0) = Ok (list_value [])"
  by (simp add: bin_aug_mul_def bin_mul_def list_aug_repeat_def list_repeat_def as_usize_def
      isize_MAX_def)

section \<open>Properties\<close>



text \<open>C28: \<open>list *= n\<close> repeats the list as \<open>list * n\<close> does for every \<open>n\<close> but zero, for a list that its
  deep copy equals; for zero the assignment keeps the list while the product is empty.\<close>

lemma augmented_repeat:
  assumes "map deep_copy xs = xs" "length xs < 1000000"
  shows "bin_aug_mul cfg (list_value xs) (int_value n) =
    (if n = 0 then Ok (list_value xs) else bin_mul cfg (list_value xs) (int_value n)) \<and>
    bin_mul cfg (list_value xs) (int_value 0) = Ok (list_value [])"
  using assms bin_aug_mul_zero [OF assms(2)] bin_aug_mul_agree [of "list_value xs" "int_value n"]
  by (auto simp: aug_defs)

lemma augmented_repeat_at_input:
  "bin_aug_mul \<lparr>debug_mode = False, strict_range_check = False, disable_schema_check = False\<rparr>
     (list_value [int_value 1]) (int_value 0) = Ok (list_value [int_value 1])"
proof -
  have "map deep_copy [int_value 1] = [int_value 1]" "length [int_value 1] < 1000000" by simp_all
  from augmented_repeat [OF this, of _ 0] show ?thesis by simp
qed

end
