(* ===== verification/ValueDict.thy ===== *)
theory ValueDict
  imports ValueList
begin

text \<open>
  Dictionaries and schema instances: the operations of \<open>val_dict.rs\<close> that do not merge, those of
  \<open>val_schema.rs\<close>, path lookup (\<open>val_get_set.rs\<close>) and \<open>load_attr\<close> (\<open>val_attr.rs\<close>). An operation
  that updates its receiver returns the updated value.
\<close>

section \<open>Dictionaries\<close>

definition sv_set_config :: "'v schema_struct \<Rightarrow> 'v dict_struct \<Rightarrow> 'v schema_struct" where
  "sv_set_config s d =
     SchemaValue (sv_name s) (sv_pkgpath s) d (sv_config_keys s) (sv_config_meta s)
       (sv_optional_mapping s) (sv_args s) (sv_kwargs s)"

definition dv_set_values :: "'v dict_struct \<Rightarrow> (string, 'v) imap \<Rightarrow> 'v dict_struct" where
  "dv_set_values d vs =
     DictValue vs (dv_ops d) (dv_insert_indexs d) (dv_attr_map d) (dv_potential_schema d)"

text \<open>The match on the two configuration constructors that most operations start with.\<close>

definition with_config :: "string \<Rightarrow> (dict_val \<Rightarrow> 'a) \<Rightarrow> val \<Rightarrow> 'a res" where
  "with_config msg f v =
     (case v of
        dict_value d \<Rightarrow> Ok (f d)
      | schema_value s \<Rightarrow> Ok (f (sv_config s))
      | _ \<Rightarrow> Err (InvalidObject (msg @ type_str v)))"

definition update_config :: "string \<Rightarrow> (dict_val \<Rightarrow> dict_val) \<Rightarrow> val \<Rightarrow> val res" where
  "update_config msg f v =
     (case v of
        dict_value d \<Rightarrow> Ok (dict_value (f d))
      | schema_value s \<Rightarrow> Ok (schema_value (sv_set_config s (f (sv_config s))))
      | _ \<Rightarrow> Err (InvalidObject (msg @ type_str v)))"

fun DictValue_get :: "dict_val \<Rightarrow> val \<Rightarrow> val option" where
  "DictValue_get d (str_value s) = imap_get (dv_values d) s"
| "DictValue_get d _ = None"

fun DictValue_insert :: "dict_val \<Rightarrow> val \<Rightarrow> val \<Rightarrow> dict_val" where
  "DictValue_insert d (str_value s) v = dv_set_values d (imap_insert s v (dv_values d))"
| "DictValue_insert d _ v = d"

fun DictValue_insert_unpack :: "dict_val \<Rightarrow> val \<Rightarrow> dict_val" where
  "DictValue_insert_unpack d (dict_value b) =
     dv_set_values d (imap_extend (dv_values d) (dv_values b))"
| "DictValue_insert_unpack d _ = d"

definition dict_int :: "(string \<times> i64) list \<Rightarrow> val" where
  "dict_int es = dict_new (map (\<lambda>(k, v). (k, int_value v)) es)"

definition dict_float :: "(string \<times> f64) list \<Rightarrow> val" where
  "dict_float es = dict_new (map (\<lambda>(k, v). (k, float_value v)) es)"

definition dict_bool :: "(string \<times> bool) list \<Rightarrow> val" where
  "dict_bool es = dict_new (map (\<lambda>(k, v). (k, bool_value v)) es)"

definition dict_str :: "(string \<times> string) list \<Rightarrow> val" where
  "dict_str es = dict_new (map (\<lambda>(k, v). (k, str_value v)) es)"

definition dict_clear :: "val \<Rightarrow> val res" where
  "dict_clear = update_config ''invalid config value in dict_clear'' (\<lambda>d. dv_set_values d [])"

definition dict_keys :: "val \<Rightarrow> val res" where
  "dict_keys = with_config ''invalid dict config value type '' (\<lambda>d. list_str (imap_keys (dv_values d)))"

definition dict_values :: "val \<Rightarrow> val res" where
  "dict_values =
     with_config ''invalid dict config value type '' (\<lambda>d. list_value (map snd (dv_values d)))"

definition dict_get :: "val \<Rightarrow> val \<Rightarrow> val option res" where
  "dict_get v key = with_config ''invalid config value in dict_get'' (\<lambda>d. DictValue_get d key) v"

fun dict_get_value :: "val \<Rightarrow> string \<Rightarrow> val option" where
  "dict_get_value (dict_value d) key = imap_get (dv_values d) key"
| "dict_get_value (schema_value s) key = imap_get (dv_values (sv_config s)) key"
| "dict_get_value _ key = None"

fun dict_get_attr_operator :: "val \<Rightarrow> string \<Rightarrow> config_entry_op option" where
  "dict_get_attr_operator (dict_value d) key = imap_get (dv_ops d) key"
| "dict_get_attr_operator (schema_value s) key = imap_get (dv_ops (sv_config s)) key"
| "dict_get_attr_operator _ key = None"

fun dict_get_insert_index :: "val \<Rightarrow> string \<Rightarrow> i32 option" where
  "dict_get_insert_index (dict_value d) key = imap_get (dv_insert_indexs d) key"
| "dict_get_insert_index (schema_value s) key = imap_get (dv_insert_indexs (sv_config s)) key"
| "dict_get_insert_index _ key = None"

text \<open>
  \<open>d.dict_update_entry(key, value, op, index)\<close> for one key of \<open>dict\<close>, if it is there; \<open>op\<close> is the
  operator recorded for the key or a given one.
\<close>

definition pick_entry ::
    "dict_val \<Rightarrow> config_entry_op option \<Rightarrow> string \<Rightarrow> dict_val \<Rightarrow> dict_val" where
  "pick_entry dict op key d =
     (case imap_get (dv_values dict) key of
        None \<Rightarrow> d
      | Some v \<Rightarrow>
          dv_update_entry key v
            (case op of None \<Rightarrow> op_or_union (dv_ops dict) key | Some o1 \<Rightarrow> o1)
            (imap_get (dv_insert_indexs dict) key) d)"

fun pick_entries ::
    "dict_val \<Rightarrow> config_entry_op option \<Rightarrow> string list \<Rightarrow> dict_val \<Rightarrow> dict_val" where
  "pick_entries dict op [] d = d"
| "pick_entries dict op (key # keys) d = pick_entries dict op keys (pick_entry dict op key d)"

definition dict_get_entry :: "val \<Rightarrow> string \<Rightarrow> val option res" where
  "dict_get_entry v key =
     with_config ''invalid config value in dict_get_entry'' (\<lambda>d.
       if imap_contains (dv_values d) key then
         Some (dict_value (dv_set_potential_schema (unwrap_or_default (dv_potential_schema d))
           (pick_entry d None key DictValue_default)))
       else None) v"

definition dict_get_entries :: "val \<Rightarrow> string list \<Rightarrow> val res" where
  "dict_get_entries v keys =
     with_config ''invalid config value in dict_get_entries'' (\<lambda>d.
       dict_value (dv_set_potential_schema (unwrap_or_default (dv_potential_schema d))
         (pick_entries d None keys DictValue_default))) v"

definition dict_get_entries_with_op :: "val \<Rightarrow> string list \<Rightarrow> config_entry_op \<Rightarrow> val res" where
  "dict_get_entries_with_op v keys op =
     with_config ''invalid config value in dict_get_entries'' (\<lambda>d.
       dict_value (dv_set_potential_schema (unwrap_or_default (dv_potential_schema d))
         (pick_entries d (Some op) keys DictValue_default))) v"

definition dict_update :: "val \<Rightarrow> val \<Rightarrow> val res" where
  "dict_update p v =
     update_config ''invalid dict update value: '' (\<lambda>d.
       if is_config v then
         DictValue (imap_extend (dv_values d) (dict_entries v)) (dv_ops d) (dv_insert_indexs d)
           (dv_attr_map d) (dv_potential_schema (config_struct v))
       else d) p"

definition dict_update_key_value :: "val \<Rightarrow> string \<Rightarrow> val \<Rightarrow> val res" where
  "dict_update_key_value p key v =
     update_config ''failed to update the dict: '' (\<lambda>d.
       dv_set_values d (imap_insert key v (dv_values d))) p"

definition dict_update_entry ::
    "val \<Rightarrow> string \<Rightarrow> val \<Rightarrow> config_entry_op \<Rightarrow> i32 option \<Rightarrow> val res" where
  "dict_update_entry p key v op index =
     update_config ''invalid dict update value: '' (dv_update_entry key v op index) p"

definition dict_remove :: "val \<Rightarrow> string \<Rightarrow> val res" where
  "dict_remove p key =
     update_config ''invalid dict remove value: '' (\<lambda>d.
       dv_set_values d (imap_remove key (dv_values d))) p"

section \<open>Schema instances\<close>

definition MAIN_PKG_PATH :: string where
  "MAIN_PKG_PATH = ''__main__''"

definition CAL_MAP_INDEX_SIGNATURE :: string where
  "CAL_MAP_INDEX_SIGNATURE = ''$cal_map_index_signature''"

definition schema_runtime_type :: "string \<Rightarrow> string \<Rightarrow> string" where
  "schema_runtime_type name pkgpath = pkgpath @ ''.'' @ name"

definition schema_config_meta_dict :: "string \<Rightarrow> i64 \<Rightarrow> i64 \<Rightarrow> val" where
  "schema_config_meta_dict filename line column =
     dict_new [(''$filename'', str_value filename), (''$lineno'', int_value line),
       (''$columnno'', int_value column)]"

fun dict_to_schema :: "val \<Rightarrow> string \<Rightarrow> string \<Rightarrow> string list \<Rightarrow> val \<Rightarrow> val \<Rightarrow>
    val option \<Rightarrow> val option \<Rightarrow> val res" where
  "dict_to_schema (dict_value d) name pkgpath config_keys config_meta optional_mapping ar kw =
     Ok (schema_value (SchemaValue name pkgpath d config_keys config_meta optional_mapping
       (case ar of None \<Rightarrow> list_value [] | Some a \<Rightarrow> a)
       (case kw of None \<Rightarrow> dict_new [] | Some k \<Rightarrow> k)))"
| "dict_to_schema (schema_value s) name pkgpath config_keys config_meta optional_mapping ar kw =
     Ok (schema_value s)"
| "dict_to_schema _ name pkgpath config_keys config_meta optional_mapping ar kw =
     Err (InvalidObject ''invalid dict object to schema'')"

fun schema_to_dict :: "val \<Rightarrow> val res" where
  "schema_to_dict (schema_value s) = Ok (dict_value (sv_config s))"
| "schema_to_dict (dict_value d) = Ok (dict_value d)"
| "schema_to_dict _ = Err (InvalidObject ''invalid schema object to dict'')"

fun schema_name :: "val \<Rightarrow> string" where
  "schema_name (schema_value s) = sv_name s"
| "schema_name _ = []"

fun schema_optional_mapping :: "val \<Rightarrow> val" where
  "schema_optional_mapping (schema_value s) = sv_optional_mapping s"
| "schema_optional_mapping _ = dict_new []"

fun schema_config_meta :: "val \<Rightarrow> val" where
  "schema_config_meta (schema_value s) = sv_config_meta s"
| "schema_config_meta _ = dict_new []"

text \<open>What \<open>keys_not_in_schema\<close> reads of a schema type: its attributes and its index signature.\<close>

record schema_type =
  st_attrs :: "string list"
  st_has_index_signature :: bool

definition keys_not_in_schema :: "val \<Rightarrow> schema_type \<Rightarrow> val \<Rightarrow> string list" where
  "keys_not_in_schema v ty cal_order =
     (if is_config v then
        filter (\<lambda>key.
          \<not> (st_has_index_signature ty \<or> dict_get_value cal_order CAL_MAP_INDEX_SIGNATURE \<noteq> None) \<and>
          key \<notin> set (st_attrs ty) \<and> dict_get_value cal_order key = None \<and>
          \<not> str_starts_with key ''_'') (imap_keys (dict_entries v))
      else [])"

definition is_fit_schema :: "val \<Rightarrow> schema_type \<Rightarrow> val \<Rightarrow> bool" where
  "is_fit_schema v ty cal_order = (keys_not_in_schema v ty cal_order = [])"

fun set_schema_args :: "val \<Rightarrow> val \<Rightarrow> val \<Rightarrow> val" where
  "set_schema_args (schema_value s) ar kw =
     schema_value (SchemaValue (sv_name s) (sv_pkgpath s) (sv_config s) (sv_config_keys s)
       (sv_config_meta s) (sv_optional_mapping s) ar kw)"
| "set_schema_args v ar kw = v"

fun get_potential_schema_type :: "val \<Rightarrow> string option" where
  "get_potential_schema_type (dict_value d) = dv_potential_schema d"
| "get_potential_schema_type (schema_value s) = dv_potential_schema (sv_config s)"
| "get_potential_schema_type _ = None"

fun set_potential_schema_type :: "val \<Rightarrow> string \<Rightarrow> val" where
  "set_potential_schema_type (dict_value d) t = dict_value (dv_set_potential_schema t d)"
| "set_potential_schema_type (schema_value s) t =
     schema_value (sv_set_config s (dv_set_potential_schema t (sv_config s)))"
| "set_potential_schema_type v t = v"

definition has_potential_schema_type :: "val \<Rightarrow> bool" where
  "has_potential_schema_type v = (get_potential_schema_type v \<noteq> None)"

definition update_attr_map :: "val \<Rightarrow> string \<Rightarrow> string \<Rightarrow> val res" where
  "update_attr_map p name t =
     update_config ''invalid object in update_attr_map: '' (dv_update_attr_map name t) p"

definition attr_map_get :: "val \<Rightarrow> string \<Rightarrow> string option res" where
  "attr_map_get p name =
     with_config ''invalid object in attr_map_get: '' (\<lambda>d. imap_get (dv_attr_map d) name) p"

fun schema_update_with_schema :: "val \<Rightarrow> val \<Rightarrow> val" where
  "schema_update_with_schema (schema_value s) (schema_value v) =
     (let c = sv_config s;
          c' = DictValue (dv_values c) (dv_ops c) (dv_insert_indexs c) (dv_attr_map c)
                 (dv_potential_schema (sv_config v));
          d = pick_entries (sv_config v) None (imap_keys (dv_values (sv_config v))) c' in
      schema_value (SchemaValue (sv_name s) (sv_pkgpath s) d (sv_config_keys v) (sv_config_meta s)
        (sv_optional_mapping s) (sv_args s) (sv_kwargs s)))"
| "schema_update_with_schema p v = p"

text \<open>
  \<open>schema_check_attr_optional\<close>: the loop over the optional mapping, then the walk over the
  attributes (\<open>walk_value_mut\<close>), whose callback checks every schema instance it meets, recursively.
\<close>

fun check_required :: "(string, val) imap \<Rightarrow> (string, val) imap \<Rightarrow> string \<Rightarrow> unit res" where
  "check_required attr_map [] name = Ok ()"
| "check_required attr_map ((attr, is_optional) # m) name =
     (if \<not> as_bool is_optional \<and>
         is_none_or_undefined (case imap_get attr_map attr of None \<Rightarrow> undefined_value | Some v \<Rightarrow> v)
      then Err (InvalidObject (''attribute required: '' @ attr @ '' of '' @ name))
      else check_required attr_map m name)"

function (sequential) schema_check_attr_optional :: "val \<Rightarrow> bool \<Rightarrow> unit res"
  and walk_check :: "val \<Rightarrow> unit res"
  and walk_check_all :: "val list \<Rightarrow> unit res" where
  "schema_check_attr_optional v recursive =
     (if is_config v then
        (case schema_optional_mapping v of
           dict_value m \<Rightarrow>
             bind_res (check_required (dict_entries v) (dv_values m) (schema_name v)) (\<lambda>_.
               if recursive then walk_check_all (map snd (dict_entries v)) else Ok ())
         | o1 \<Rightarrow> Err (InvalidObject (''Invalid optional mapping, got '' @ type_str o1)))
      else Err (InvalidObject (''invalid schema or dict value, got '' @ type_str v)))"
| "walk_check v =
     bind_res (if is_schema v then schema_check_attr_optional v True else Ok ()) (\<lambda>_.
       if is_list v then walk_check_all (list_items v)
       else if is_config v then walk_check_all (map snd (dict_entries v))
       else Ok ())"
| "walk_check_all [] = Ok ()"
| "walk_check_all (v # vs) = bind_res (walk_check v) (\<lambda>_. walk_check_all vs)"
  by pat_completeness auto

termination
proof (relation "measure (case_sum (\<lambda>(v, r). 2 * size v)
      (case_sum (\<lambda>v. 2 * size v + 1) (\<lambda>vs. 2 * size_list size vs)))", goal_cases)
  case (2 v recursive m u)
  then show ?case using size_dict_entries [of v] by (simp add: comp_def)
next
  case (4 v u)
  then show ?case using size_list_items [of v] by simp
next
  case (5 v u)
  then show ?case using size_dict_entries [of v] by (simp add: comp_def)
qed auto

declare schema_check_attr_optional.simps [simp del] walk_check.simps [simp del]

section \<open>Paths and attributes\<close>

text \<open>\<open>str::parse::<usize>\<close>: an optional plus sign and at least one digit, without overflow.\<close>

fun parse_digits :: "string \<Rightarrow> nat \<Rightarrow> nat option" where
  "parse_digits [] n = Some n"
| "parse_digits (c # s) n =
     (if (48 :: nat) \<le> of_char c \<and> of_char c \<le> (57 :: nat) then parse_digits s (10 * n + (of_char c - 48))
      else None)"

definition parse_usize :: "string \<Rightarrow> nat option" where
  "parse_usize s =
     (let ds = (if str_starts_with s ''+'' then tl s else s) in
      if ds = [] then None
      else case parse_digits ds 0 of
             None \<Rightarrow> None
           | Some n \<Rightarrow> if n < 18446744073709551616 then Some n else None)"

fun get_by_key :: "val \<Rightarrow> string \<Rightarrow> val option" where
  "get_by_key (list_value vs) key =
     (case parse_usize key of None \<Rightarrow> None | Some i \<Rightarrow> vec_get vs i)"
| "get_by_key (dict_value d) key = imap_get (dv_values d) key"
| "get_by_key (schema_value s) key = imap_get (dv_values (sv_config s)) key"
| "get_by_key _ key = None"

fun split_char :: "char \<Rightarrow> string \<Rightarrow> string list" where
  "split_char c [] = [[]]"
| "split_char c (d # s) =
     (if d = c then [] # split_char c s
      else case split_char c s of [] \<Rightarrow> [[d]] | w # ws \<Rightarrow> (d # w) # ws)"

fun get_by_keys :: "val \<Rightarrow> string list \<Rightarrow> val option" where
  "get_by_keys v [] = Some v"
| "get_by_keys v (k # ks) = (case get_by_key v k of None \<Rightarrow> None | Some x \<Rightarrow> get_by_keys x ks)"

definition get_by_path :: "val \<Rightarrow> string \<Rightarrow> val option" where
  "get_by_path v path = get_by_keys v (split_char (CHR ''.'') path)"

definition str_members :: "string list" where
  "str_members = [''lower'', ''upper'', ''capitalize'', ''chars'', ''count'', ''endswith'', ''find'',
     ''format'', ''index'', ''isalnum'', ''isalpha'', ''isdigit'', ''islower'', ''isspace'',
     ''istitle'', ''isupper'', ''join'', ''lstrip'', ''rstrip'', ''replace'', ''removeprefix'',
     ''removesuffix'', ''rfind'', ''rindex'', ''rsplit'', ''split'', ''splitlines'', ''startswith'',
     ''strip'', ''title'']"

text \<open>\<open>addr\<close> gives the address of the member function with a name.\<close>

definition load_attr :: "(string \<Rightarrow> 64 word) \<Rightarrow> val \<Rightarrow> string \<Rightarrow> val res" where
  "load_attr addr p key =
     (if is_dict p then
        Ok (case dict_get_value p key of Some x \<Rightarrow> x | None \<Rightarrow> undefined_value)
      else if is_schema p then
        (case dict_get_value p key of
           Some x \<Rightarrow> Ok x
         | None \<Rightarrow> Err (InvalidObject (''schema attribute not found: '' @ key)))
      else if is_str p then
        (if key \<in> set str_members then
           Ok (func_value (FuncValue (addr (''str.'' @ key)) 0 (list_value [p]) [] [] False None))
         else Err (InvalidObject (''str object attr not found: '' @ key)))
      else if is_func p then
        (if key = ''instances'' then
           Ok (func_value (FuncValue (addr ''schema.instances'') 0 (list_value [p]) [] [] False None))
         else Err (InvalidObject (''schema object attr not found: '' @ key)))
      else Err (InvalidObject (''invalid value to load attribute: '' @ type_str p)))"

section \<open>Lookup laws and well-formedness\<close>

lemma update_config_Ok:
  "update_config msg f v = Ok w \<longleftrightarrow>
    (\<exists>d. v = dict_value d \<and> w = dict_value (f d)) \<or>
    (\<exists>s. v = schema_value s \<and> w = schema_value (sv_set_config s (f (sv_config s))))"
  by (auto simp: update_config_def split: val.splits)

lemma config_of_sv_set_config [simp]: "sv_config (sv_set_config s d) = d"
  by (simp add: sv_set_config_def)

lemma config_struct_update:
  "update_config msg f v = Ok w \<Longrightarrow> config_struct w = f (config_struct v) \<and> val_kind w = val_kind v"
  by (auto simp: update_config_Ok)

lemma dict_get_value_config: "is_config v \<Longrightarrow> dict_get_value v k = imap_get (dv_values (config_struct v)) k"
  by (cases v) auto

lemma update_config_total: "is_config v \<Longrightarrow> \<exists>w. update_config msg f v = Ok w \<and> is_config w"
  by (cases v) (auto simp: update_config_def)

lemma dv_values_dv_set_values [simp]: "dv_values (dv_set_values d vs) = vs"
  by (simp add: dv_set_values_def)

lemma dict_update_key_value_get:
  "dict_update_key_value p k v = Ok w \<Longrightarrow>
    dict_get_value w k' = (if k' = k then Some v else dict_get_value p k')"
  by (auto simp: dict_update_key_value_def update_config_Ok)

lemma dict_remove_get:
  "wf_val p \<Longrightarrow> dict_remove p k = Ok w \<Longrightarrow>
    dict_get_value w k' = (if k' = k then None else dict_get_value p k')"
  by (auto simp: dict_remove_def update_config_Ok dv_inv_def imap_get_remove)

text \<open>An update that keeps the tables of a configuration maps keeps the value well-formed.\<close>

definition wf_dict :: "dict_val \<Rightarrow> bool" where
  "wf_dict d = (dv_inv d \<and> (\<forall>p \<in> set (dv_values d). wf_val (snd p)))"

lemma wf_val_config: "is_config v \<Longrightarrow> wf_val v \<longleftrightarrow> wf_dict (config_struct v)"
  by (cases v) (auto simp: wf_dict_def)

lemma wf_val_simps_dict [simp]:
  "wf_val (dict_value d) \<longleftrightarrow> wf_dict d" "wf_val (schema_value s) \<longleftrightarrow> wf_dict (sv_config s)"
  by (auto simp: wf_dict_def)

lemma update_config_wf:
  "update_config msg f v = Ok w \<Longrightarrow> wf_val v \<Longrightarrow> (\<And>d. wf_dict d \<Longrightarrow> wf_dict (f d)) \<Longrightarrow> wf_val w"
  by (auto simp: update_config_Ok simp del: wf_val_dict wf_val_schema)

lemma set_imap_insert: "p \<in> set (imap_insert k v m) \<Longrightarrow> p = (k, v) \<or> p \<in> set m"
  by (induction k v m rule: imap_insert.induct) (auto split: if_splits)

lemma set_imap_extend: "p \<in> set (imap_extend m d) \<Longrightarrow> p \<in> set m \<or> p \<in> set d"
  by (induction m d rule: imap_extend.induct) (auto dest: set_imap_insert)

lemma wf_dict_insert:
  "wf_dict d \<Longrightarrow> wf_val v \<Longrightarrow> wf_dict (dv_set_values d (imap_insert k v (dv_values d)))"
  by (auto simp: wf_dict_def dv_inv_def dv_set_values_def dest!: set_imap_insert)

lemma wf_dict_remove:
  "wf_dict d \<Longrightarrow> wf_dict (dv_set_values d (imap_remove k (dv_values d)))"
  using set_imap_remove [of "dv_values d" k]
  by (auto simp: wf_dict_def dv_inv_def dv_set_values_def)

lemma wf_dict_update_entry:
  "wf_dict d \<Longrightarrow> wf_val v \<Longrightarrow> wf_dict (dv_update_entry k v op i d)"
  by (auto simp: wf_dict_def dv_inv_def dv_update_entry_def dest!: set_imap_insert split: option.splits)

lemma wf_dict_get: "wf_dict d \<Longrightarrow> imap_get (dv_values d) k = Some v \<Longrightarrow> wf_val v"
  by (force simp: wf_dict_def dest: imap_get_SomeD)

lemma wf_dict_default [simp]: "wf_dict DictValue_default"
  by (simp add: wf_dict_def dv_inv_def DictValue_default_def)

lemma wf_dict_pick_entry: "wf_dict d \<Longrightarrow> wf_dict dict \<Longrightarrow> wf_dict (pick_entry dict op k d)"
  by (auto simp: pick_entry_def split: option.splits intro!: wf_dict_update_entry dest: wf_dict_get)

lemma wf_dict_pick_entries: "wf_dict d \<Longrightarrow> wf_dict dict \<Longrightarrow> wf_dict (pick_entries dict op ks d)"
  by (induction dict op ks d rule: pick_entries.induct) (auto intro: wf_dict_pick_entry)

lemma wf_dict_set_potential_schema [simp]:
  "wf_dict (dv_set_potential_schema t d) \<longleftrightarrow> wf_dict d"
  by (simp add: wf_dict_def dv_inv_def dv_set_potential_schema_def)

lemma dict_get_entries_wf:
  "wf_val v \<Longrightarrow> dict_get_entries v ks = Ok w \<Longrightarrow> wf_val w"
  "wf_val v \<Longrightarrow> dict_get_entries_with_op v ks op = Ok w \<Longrightarrow> wf_val w"
  by (auto simp: dict_get_entries_def dict_get_entries_with_op_def with_config_def
      wf_dict_pick_entries simp del: wf_val_dict wf_val_schema split: val.splits)

text \<open>The selected entries are those of the source dict whose key is asked for.\<close>

lemma pick_entries_get:
  "imap_get (dv_values (pick_entries dict op ks d)) k =
    (if k \<in> set ks \<and> imap_get (dv_values dict) k \<noteq> None then imap_get (dv_values dict) k
     else imap_get (dv_values d) k)"
proof (induction ks arbitrary: d)
  case (Cons k' ks)
  have "imap_get (dv_values (pick_entry dict op k' d)) k =
      (if k = k' \<and> imap_get (dv_values dict) k \<noteq> None then imap_get (dv_values dict) k
       else imap_get (dv_values d) k)"
    by (auto simp: pick_entry_def dv_update_entry_def split: option.splits)
  with Cons.IH [of "pick_entry dict op k' d"] show ?case by auto
qed simp

lemma dv_values_set_potential_schema [simp]:
  "dv_values (dv_set_potential_schema t d) = dv_values d"
  by (simp add: dv_set_potential_schema_def)

lemma dict_get_entries_get:
  "dict_get_entries v ks = Ok w \<Longrightarrow>
    dict_get_value w k = (if k \<in> set ks then dict_get_value v k else None)"
  by (auto simp: dict_get_entries_def with_config_def pick_entries_get DictValue_default_def
      split: val.splits)

lemma schema_update_get:
  "dict_get_value (schema_update_with_schema (schema_value s) (schema_value v)) k =
    (case dict_get_value (schema_value v) k of
       None \<Rightarrow> dict_get_value (schema_value s) k | Some x \<Rightarrow> Some x)"
  by (auto simp: Let_def pick_entries_get imap_get_None_iff split: option.splits)
    (metis imap_get_None_iff option.distinct(1))

section \<open>Paths\<close>

lemma split_char_nonempty [simp]: "split_char c s \<noteq> []"
  by (induction s) (auto split: list.splits)

lemma split_char_append:
  "split_char c (s @ c # t) = split_char c s @ split_char c t"
  by (induction s) (auto split: list.splits simp: append_eq_Cons_conv)

lemma split_char_no_sep: "c \<notin> set s \<Longrightarrow> split_char c s = [s]"
  by (induction s) auto

lemma get_by_keys_append:
  "get_by_keys v (ks @ ls) = Option.bind (get_by_keys v ks) (\<lambda>w. get_by_keys w ls)"
  by (induction ks arbitrary: v) (auto split: option.splits)

lemma get_by_path_append:
  "get_by_path v (p @ ''.'' @ q) = Option.bind (get_by_path v p) (\<lambda>w. get_by_path w q)"
  by (simp add: get_by_path_def split_char_append get_by_keys_append)

lemma get_by_path_key: "CHR ''.'' \<notin> set k \<Longrightarrow> get_by_path v k = get_by_key v k"
  by (simp add: get_by_path_def split_char_no_sep split: option.splits)

lemma get_by_key_wf: "wf_val v \<Longrightarrow> get_by_key v k = Some w \<Longrightarrow> wf_val w"
  by (cases v) (auto simp: vec_get_Some_iff split: option.splits dest: imap_get_SomeD wf_dict_get
      simp del: wf_val_dict wf_val_schema)

section \<open>Required attributes\<close>

text \<open>
  An instance is complete when its optional mapping is a dict and no attribute it marks as required
  is absent, None or Undefined. The recursive check accepts exactly the values whose instances, at
  any depth below the checked one, are complete.
\<close>

definition attr_present :: "(string, val) imap \<Rightarrow> string \<Rightarrow> bool" where
  "attr_present m k = (case imap_get m k of None \<Rightarrow> False | Some v \<Rightarrow> \<not> is_none_or_undefined v)"

definition complete_instance :: "val \<Rightarrow> bool" where
  "complete_instance v =
     (is_schema v \<longrightarrow> is_dict (schema_optional_mapping v) \<and>
       (\<forall>(k, opt) \<in> set (dict_entries (schema_optional_mapping v)).
          is_truthy opt \<or> attr_present (dict_entries v) k))"

lemma check_required_Ok:
  "check_required am m name = Ok () \<longleftrightarrow> (\<forall>(k, opt) \<in> set m. is_truthy opt \<or> attr_present am k)"
  by (induction am m name rule: check_required.induct)
    (auto simp: as_bool_def attr_present_def split: option.splits)

lemma walk_check_all_Ok: "walk_check_all vs = Ok () \<longleftrightarrow> (\<forall>v \<in> set vs. walk_check v = Ok ())"
  by (induction vs) (auto simp: bind_res_eq_Inr)

lemma schema_check_Ok:
  assumes "is_config v"
  shows "schema_check_attr_optional v recursive = Ok () \<longleftrightarrow>
    complete_instance v \<and> (recursive \<longrightarrow> (\<forall>p \<in> set (dict_entries v). walk_check (snd p) = Ok ()))"
proof (cases v)
  case (schema_value s)
  then show ?thesis
    by (cases "sv_optional_mapping s")
      (auto simp: schema_check_attr_optional.simps complete_instance_def is_kind_defs
        bind_res_eq_Inr check_required_Ok walk_check_all_Ok)
qed (use assms in \<open>auto simp: schema_check_attr_optional.simps complete_instance_def
  is_kind_defs dict_new_def bind_res_eq_Inr walk_check_all_Ok\<close>)

lemma walk_check_Ok: "walk_check v = Ok () \<longleftrightarrow> val_all complete_instance v"
proof (induction v rule: val_induct)
  case (List vs)
  then show ?case
    by (simp add: walk_check.simps [of "list_value vs"] is_kind_defs walk_check_all_Ok
        complete_instance_def)
next
  case (Config c)
  then have "(\<forall>p \<in> set (dict_entries c). walk_check (snd p) = Ok ()) \<longleftrightarrow>
      (\<forall>p \<in> set (dict_entries c). val_all complete_instance (snd p))"
    by (metis prod.collapse)
  moreover have "\<not> is_list c" "\<not> is_schema c \<Longrightarrow> complete_instance c"
    using Config(1) by (auto simp: is_list_def complete_instance_def elim: is_config.elims)
  ultimately show ?case
    using Config(1) by (cases "is_schema c")
      (auto simp: walk_check.simps [of c] walk_check_all_Ok schema_check_Ok bind_res_eq_Inr
        val_all_config)
next
  case (Leaf v)
  then show ?case
    by (cases v) (auto simp: walk_check.simps is_kind_defs complete_instance_def)
qed

lemma schema_check_recursive_Ok:
  "is_config v \<Longrightarrow>
    schema_check_attr_optional v True = Ok () \<longleftrightarrow> val_all complete_instance v"
  by (simp add: schema_check_Ok walk_check_Ok val_all_config)

section \<open>Copies\<close>

text \<open>
  A deep copy has the entries of the original, copied, in the same order; so lookups commute with
  copying, and no comparison can tell a value from its copy.
\<close>

lemma dv_values_update [simp]:
  "dv_values (dv_update_entry k v op i d) = imap_insert k v (dv_values d)"
  "dv_values (dv_update_attr_map k t d) = dv_values d"
  by (simp_all add: dv_update_entry_def dv_update_attr_map_def)

lemma dv_values_copy_entries:
  "imap_inv es \<Longrightarrow> set (imap_keys es) \<inter> set (imap_keys (dv_values d)) = {} \<Longrightarrow>
    dv_values (copy_entries ops idx am es d) = dv_values d @ map (map_prod id deep_copy) es"
proof (induction es arbitrary: d)
  case (Cons p es)
  obtain k v where p: "p = (k, v)" by (cases p)
  let ?d = "dv_update_entry k (deep_copy v) (op_or_union ops k) (imap_get idx k) d"
  let ?e = "case imap_get am k of None \<Rightarrow> ?d | Some t \<Rightarrow> dv_update_attr_map k t ?d"
  have "dv_values ?e = dv_values d @ [(k, deep_copy v)]"
    using Cons.prems p by (auto simp: imap_insert_new split: option.splits)
  with Cons.IH [of ?e] Cons.prems p show ?case by (auto simp: Let_def)
qed simp

lemma dict_entries_deep_copy:
  "wf_val c \<Longrightarrow> dict_entries (deep_copy c) = map (map_prod id deep_copy) (dict_entries c)"
proof (cases c)
  case (dict_value d)
  assume "wf_val c"
  with dict_value show ?thesis
    by (cases d) (simp add: wf_dict_def dv_inv_def dv_values_copy_entries DictValue_default_def)
next
  case (schema_value s)
  assume "wf_val c"
  with schema_value show ?thesis
    by (cases s; cases "sv_config s")
      (simp add: wf_dict_def dv_inv_def dv_values_copy_entries DictValue_default_def)
qed auto

lemma deep_copy_kind [simp]:
  "val_kind (deep_copy v) = val_kind v" "is_config (deep_copy v) = is_config v"
  "is_none_or_undefined (deep_copy v) = is_none_or_undefined v" "type_str (deep_copy v) = type_str v"
  by (cases v rule: deep_copy.cases; simp)+

lemma list_items_deep_copy: "list_items (deep_copy v) = map deep_copy (list_items v)"
  by (cases v rule: deep_copy.cases) auto

lemma get_by_key_config: "is_config v \<Longrightarrow> get_by_key v k = imap_get (dict_entries v) k"
  by (cases v) auto

lemma get_by_key_deep_copy:
  assumes "wf_val v"
  shows "get_by_key (deep_copy v) k = map_option deep_copy (get_by_key v k)"
proof (cases "is_config v")
  case True
  with assms show ?thesis
    by (simp add: get_by_key_config dict_entries_deep_copy imap_get_map_prod)
next
  case False
  then show ?thesis
    by (cases v) (auto simp: vec_get_def split: option.splits)
qed

lemma get_by_keys_deep_copy:
  "wf_val v \<Longrightarrow> get_by_keys (deep_copy v) ks = map_option deep_copy (get_by_keys v ks)"
  by (induction ks arbitrary: v)
    (auto simp: get_by_key_deep_copy get_by_key_wf split: option.splits)

lemma cmp_equal_config:
  "is_config v \<Longrightarrow> cmp_equal v x \<longleftrightarrow>
    val_kind x = val_kind v \<and> length (dict_entries v) = length (dict_entries x) \<and>
    cmp_equal_entries (dict_entries v) (dict_entries x)"
  by (cases v; cases x) auto

lemma cmp_equal_deep_copy: "wf_val v \<Longrightarrow> wf_val w \<Longrightarrow> cmp_equal v (deep_copy w) \<longleftrightarrow> cmp_equal v w"
proof (induction v arbitrary: w rule: val_induct)
  case (List vs)
  show ?case
  proof (cases w)
    case (list_value ws)
    have "list_all2 cmp_equal vs (map deep_copy ws) \<longleftrightarrow> list_all2 cmp_equal vs ws"
      if "length vs = length ws"
      using that List list_value by (auto simp: list_all2_conv_all_nth)
    with list_value show ?thesis by (auto simp: cmp_equal_list_all2)
  qed (use deep_copy_kind(1) [of w] in \<open>cases "deep_copy w"; auto\<close>)+
next
  case (Config c)
  show ?case
  proof (cases "is_config w")
    case True
    have "(\<exists>x. imap_get (dict_entries w) k = Some x \<and> cmp_equal v (deep_copy x)) \<longleftrightarrow>
        (\<exists>x. imap_get (dict_entries w) k = Some x \<and> cmp_equal v x)"
      if "(k, v) \<in> set (dict_entries c)" for k v
      using Config.IH [OF that] Config.prems that
      by (metis imap_get_SomeD wf_val_entryD)
    then have "cmp_equal_entries (dict_entries c) (dict_entries (deep_copy w)) \<longleftrightarrow>
        cmp_equal_entries (dict_entries c) (dict_entries w)"
      using Config.prems by (simp add: cmp_equal_entries_iff dict_entries_deep_copy imap_get_map_prod)
        fastforce
    with Config True show ?thesis by (simp add: cmp_equal_config dict_entries_deep_copy)
  next
    case False
    then have "val_kind w \<noteq> val_kind c" using Config.hyps by (cases w; cases c) auto
    with Config.hyps show ?thesis by (simp add: cmp_equal_config)
  qed
next
  case (Leaf v)
  show ?case by (cases w rule: deep_copy.cases; cases v; use Leaf in auto)
qed

section \<open>Properties\<close>

text \<open>C19: the recursive check of required attributes accepts a configuration exactly when every schema
  instance in it, at any depth, has a dict as optional mapping and a value other than None and
  Undefined for each attribute the mapping does not mark optional.\<close>

theorem required_attributes_checked:
  assumes "is_config v"
  shows "schema_check_attr_optional v True = Ok () \<longleftrightarrow> val_all complete_instance v"
  using assms by (rule schema_check_recursive_Ok)

theorem required_attributes_checked_witness:
  "schema_check_attr_optional
     (schema_value (SchemaValue ''S'' ''__main__'' (DictValue [(''a'', none_value)] [] [] [] None) []
        none_value (dict_bool [(''a'', False)]) none_value none_value)) True = Ok () \<longleftrightarrow>
   val_all complete_instance
     (schema_value (SchemaValue ''S'' ''__main__'' (DictValue [(''a'', none_value)] [] [] [] None) []
        none_value (dict_bool [(''a'', False)]) none_value none_value))"
  by (rule required_attributes_checked) code_simp

text \<open>A dotted path is followed step by step: looking up \<open>p.q\<close> is looking up \<open>q\<close> in what \<open>p\<close>
  leads to, and a path without a dot is one key.\<close>

lemma path_lookup_composes:
  "get_by_path v (p @ ''.'' @ q) = Option.bind (get_by_path v p) (\<lambda>w. get_by_path w q) \<and>
   (CHR ''.'' \<notin> set k \<longrightarrow> get_by_path v k = get_by_key v k)"
  using get_by_path_append get_by_path_key by blast

lemma path_lookup_composes_at_input:
  "get_by_path (list_value [int_value 7]) ''0'' = get_by_key (list_value [int_value 7]) ''0''"
proof -
  have "CHR ''.'' \<notin> set ''0''" by code_simp
  with path_lookup_composes [where k = "''0''"] show ?thesis by blast
qed



text \<open>Selecting entries of a configuration by key gives a dict with exactly the selected keys that
  exist, each with its value.\<close>

lemma select_entries:
  assumes "dict_get_entries v ks = Ok w"
  shows "dict_get_value w k = (if k \<in> set ks then dict_get_value v k else None)"
  using assms by (rule dict_get_entries_get)

lemma select_entries_at_input:
  "dict_get_value (dict_value (DictValue [(''b'', int_value 2)] [(''b'', ConfigUnion)] [] [] None)) ''a'' =
   (if ''a'' \<in> set [''b'', ''x''] then dict_get_value (dict_int [(''a'', 1), (''b'', 2)]) ''a'' else None)"
  by (rule select_entries) code_simp

text \<open>C24: a deep copy cannot be told from the original: every lookup along a path gives the copy of what
  the original gives, and comparing a value with the copy gives what comparing it with the original
  does.\<close>

theorem deep_copy_indistinguishable:
  assumes "wf_val w" "wf_val v"
  shows "get_by_path (deep_copy w) p = map_option deep_copy (get_by_path w p) \<and>
    cmp_equal v (deep_copy w) = cmp_equal v w"
  using get_by_keys_deep_copy [OF assms(1)] cmp_equal_deep_copy [OF assms(2,1)]
  by (simp add: get_by_path_def)

theorem deep_copy_indistinguishable_witness:
  "get_by_path (deep_copy (dict_int [(''a'', 1)])) ''a'' =
     map_option deep_copy (get_by_path (dict_int [(''a'', 1)]) ''a'') \<and>
   cmp_equal none_value (deep_copy (dict_int [(''a'', 1)])) = cmp_equal none_value (dict_int [(''a'', 1)])"
  by (rule deep_copy_indistinguishable) code_simp+

end
