(* ===== verification/ValueUnion.thy ===== *)
theory ValueUnion
  imports ValueBinAug ValueDict
begin

text \<open>
  The union of runtime values (\<open>runtime/src/value/val_union.rs\<close>), the operators \<open>|\<close> and \<open>|=\<close>, the
  merging operations of \<open>val_dict.rs\<close> and \<open>resolve_schema\<close> of \<open>val_type.rs\<close>.

  The code generated for a schema is a parameter: \<open>schema_fns\<close> gives, for the runtime type of a
  schema the program declares, the function that builds its instance from a configuration,
  positional and keyword arguments. \<open>to_json\<close> is the printer used in the conflict message.
  Receiver and argument are distinct objects: on one and the same object the source returns the
  receiver unchanged (\<open>is_same_ref\<close>).
\<close>

section \<open>Definitions\<close>

record union_context =
  path_backtrace :: "string list"
  conflict :: bool
  obj_json :: string
  delta_json :: string

record union_options =
  list_override :: bool
  idempotent_check :: bool
  config_resolve :: bool

definition union_context_default :: union_context where
  "union_context_default =
     \<lparr>path_backtrace = [], conflict = False, obj_json = [], delta_json = []\<rparr>"

definition union_options_default :: union_options where
  "union_options_default =
     \<lparr>list_override = False, idempotent_check = True, config_resolve = True\<rparr>"

record union_env =
  schema_fns :: "string \<Rightarrow> (val \<Rightarrow> val \<Rightarrow> val \<Rightarrow> val res) option"
  to_json :: "val \<Rightarrow> string"

definition resolve_schema :: "union_env \<Rightarrow> val \<Rightarrow> string list \<Rightarrow> val res" where
  "resolve_schema env schema keys =
     (case schema of
        schema_value s \<Rightarrow>
          (case schema_fns env (schema_runtime_type (sv_name s) (sv_pkgpath s)) of
             Some schema_fn \<Rightarrow>
               bind_res (dict_get_entries_with_op schema keys ConfigOverride) (\<lambda>config.
                 schema_fn config (sv_args s) (sv_kwargs s))
           | None \<Rightarrow> Ok schema)
      | _ \<Rightarrow> Ok schema)"

definition json_label :: "union_env \<Rightarrow> val \<Rightarrow> string" where
  "json_label env v =
     (if is_config v then ''{...}'' else if is_list v then ''[...]'' else to_json env v)"

definition push_path :: "string \<Rightarrow> union_context \<Rightarrow> union_context" where
  "push_path p uc = uc\<lparr>path_backtrace := path_backtrace uc @ [p]\<rparr>"

definition set_conflict :: "union_env \<Rightarrow> string \<Rightarrow> val \<Rightarrow> val \<Rightarrow> union_context \<Rightarrow> union_context" where
  "set_conflict env p obj_v delta_v uc =
     (push_path p uc)\<lparr>conflict := True, obj_json := json_label env obj_v,
       delta_json := json_label env delta_v\<rparr>"

text \<open>
  What \<open>union_fn\<close> does for one entry \<open>(k, v)\<close> of the delta before it recurses: it is done with the
  entry, it stops with a conflict, or it unions \<open>v\<close> into a value of the object, which it then
  stores under \<open>k\<close> or at an index of the list there.
\<close>

datatype entry_plan =
    EntryDone dict_val
  | EntryConflict string val
  | EntryUnion val "i32 option"

fun insert_values_at :: "nat \<Rightarrow> val list \<Rightarrow> val list \<Rightarrow> val list res" where
  "insert_values_at i [] xs = Ok xs"
| "insert_values_at i (v # vs) xs =
     bind_res (bounds_res (vec_insert i v xs)) (\<lambda>ys. insert_values_at (Suc i) vs ys)"

definition plan_union :: "bool \<Rightarrow> dict_val \<Rightarrow> string \<Rightarrow> val \<Rightarrow> i32 option \<Rightarrow> entry_plan res" where
  "plan_union check obj k v index =
     (case index of
        Some i \<Rightarrow>
          (case imap_get (dv_values obj) k of
             None \<Rightarrow> Err (OnlyListIndexed k)
           | Some origin \<Rightarrow>
               if \<not> is_list origin then Err (OnlyListIndexed k)
               else bind_res (list_get origin (sint i)) (\<lambda>got.
                 case got of
                   None \<Rightarrow> Err (OnlyListIndexed k)
                 | Some w \<Rightarrow>
                     Ok (if check \<and> \<not> value_subsume False v w
                         then EntryConflict (k @ ''['' @ int_to_string (sint i) @ '']'') w
                         else EntryUnion w (Some i))))
      | None \<Rightarrow>
          Ok (case imap_get (dv_values obj) k of
                Some w \<Rightarrow>
                  if check \<and> \<not> value_subsume False v w then EntryConflict k w
                  else EntryUnion w None
              | None \<Rightarrow> EntryDone (dv_set_values obj (imap_insert k v (dv_values obj)))))"

definition plan_override :: "dict_val \<Rightarrow> string \<Rightarrow> val \<Rightarrow> i32 option \<Rightarrow> entry_plan res" where
  "plan_override obj k v index =
     (case index of
        Some i \<Rightarrow>
          (case imap_get (dv_values obj) k of
             None \<Rightarrow> Err (OnlyListIndexed k)
           | Some origin \<Rightarrow>
               if \<not> is_list origin then Err (OnlyListIndexed k)
               else bind_res (val_len origin) (\<lambda>n.
                 bind_res (must_normalize_index i n) (\<lambda>pos.
                 bind_res (if is_undefined v then list_remove_at origin pos
                           else list_must_set origin pos v) (\<lambda>l.
                 Ok (EntryDone (dv_set_values obj (imap_insert k l (dv_values obj))))))))
      | None \<Rightarrow> Ok (EntryDone (dv_set_values obj (imap_insert k v (dv_values obj)))))"

definition plan_insert :: "dict_val \<Rightarrow> string \<Rightarrow> val \<Rightarrow> i32 option \<Rightarrow> entry_plan res" where
  "plan_insert obj k v index =
     (let origin =
        (case imap_get (dv_values obj) k of
           None \<Rightarrow> list_value []
         | Some w \<Rightarrow> if is_none_or_undefined w then list_value [] else w) in
      case (origin, v) of
        (list_value xs, list_value vs) \<Rightarrow>
          bind_res
            (case index of
               Some i \<Rightarrow>
                 bind_res (must_normalize_index i (length xs)) (\<lambda>pos. insert_values_at pos vs xs)
             | None \<Rightarrow> Ok (xs @ vs)) (\<lambda>ys.
          Ok (EntryDone (dv_set_values obj (imap_insert k (list_value ys) (dv_values obj)))))
      | _ \<Rightarrow> Err (OnlyListIndexed k))"

definition plan_entry ::
    "union_options \<Rightarrow> dict_val \<Rightarrow> dict_val \<Rightarrow> string \<Rightarrow> val \<Rightarrow> entry_plan res" where
  "plan_entry opts delta obj k v =
     (let index = imap_get (dv_insert_indexs delta) k in
      if \<not> imap_contains (dv_values obj) k \<and> index = None then
        Ok (EntryDone (dv_set_values obj (imap_insert k v (dv_values obj))))
      else
        case op_or_union (dv_ops delta) k of
          ConfigUnion \<Rightarrow> plan_union (idempotent_check opts) obj k v index
        | ConfigOverride \<Rightarrow> plan_override obj k v index
        | ConfigInsert \<Rightarrow> plan_insert obj k v index)"

definition store_entry :: "dict_val \<Rightarrow> string \<Rightarrow> i32 option \<Rightarrow> val \<Rightarrow> dict_val res" where
  "store_entry obj k index w =
     (case index of
        None \<Rightarrow> Ok (dv_set_values obj (imap_insert k w (dv_values obj)))
      | Some i \<Rightarrow>
          (case imap_get (dv_values obj) k of
             None \<Rightarrow> Err (OnlyListIndexed k)
           | Some origin \<Rightarrow>
               bind_res (val_len origin) (\<lambda>n.
               bind_res (must_normalize_index i n) (\<lambda>pos.
               bind_res (list_set origin pos w) (\<lambda>l.
               Ok (dv_set_values obj (imap_insert k l (dv_values obj))))))))"

text \<open>The tables \<open>union_fn\<close> copies from the delta before the loop over its entries.\<close>

definition union_tables :: "dict_val \<Rightarrow> dict_val \<Rightarrow> dict_val" where
  "union_tables obj delta =
     DictValue (dv_values obj) (imap_extend (dv_ops obj) (dv_ops delta))
       (imap_extend (dv_insert_indexs obj) (dv_insert_indexs delta)) (dv_attr_map obj)
       (dv_potential_schema delta)"

text \<open>The part of \<open>do_union\<close> after the match, for a pair with a schema instance.\<close>

definition finish_schema :: "union_env \<Rightarrow> union_options \<Rightarrow> val \<Rightarrow> val \<Rightarrow> string \<Rightarrow> string \<Rightarrow>
    string list \<Rightarrow> val \<Rightarrow> val \<Rightarrow> val res" where
  "finish_schema env opts self x name pkgpath common_keys ar kw =
     (let result = set_schema_args self ar kw;
          optional_mapping =
            (if is_schema self then schema_optional_mapping self else schema_optional_mapping x) in
      bind_res (dict_to_schema result name pkgpath common_keys (schema_config_meta x)
          optional_mapping (Some ar) (Some kw)) (\<lambda>schema.
        if config_resolve opts then resolve_schema env schema common_keys else Ok schema))"

function (sequential)
    union_val :: "union_env \<Rightarrow> union_options \<Rightarrow> bool \<Rightarrow> val \<Rightarrow> val \<Rightarrow> union_context \<Rightarrow>
      (val \<times> union_context) res"
  and do_union :: "union_env \<Rightarrow> union_options \<Rightarrow> val \<Rightarrow> val \<Rightarrow> union_context \<Rightarrow>
      (val \<times> union_context) res"
  and union_list :: "union_env \<Rightarrow> union_options \<Rightarrow> nat \<Rightarrow> val list \<Rightarrow> val list \<Rightarrow> union_context \<Rightarrow>
      (val list \<times> union_context) res"
  and union_entries :: "union_env \<Rightarrow> union_options \<Rightarrow> dict_val \<Rightarrow> (string, val) imap \<Rightarrow> dict_val \<Rightarrow>
      union_context \<Rightarrow> (dict_val \<times> union_context) res" where
  "union_val env opts or_mode self x uc =
     (if is_none_or_undefined self then Ok (x, uc)
      else if is_none_or_undefined x then Ok (self, uc)
      else if is_list_or_config self \<and> is_list_or_config x then do_union env opts self x uc
      else if or_mode then
        (case (self, x) of
           (int_value a, int_value b) \<Rightarrow> Ok (int_value (a OR b), uc)
         | _ \<Rightarrow> Err (UnsupportedBinOp ''|'' (type_str self) (type_str x)))
      else Ok (x, uc))"
| "do_union env opts self x uc =
     (case self of
        list_value obj \<Rightarrow>
          (case x of
             list_value delta \<Rightarrow>
               if list_override opts then Ok (self, uc)
               else bind_res (union_list env opts 0 obj delta uc) (\<lambda>(vs, uc). Ok (list_value vs, uc))
           | _ \<Rightarrow> Err (UnionFailure (type_str self) (type_str x)))
      | dict_value obj \<Rightarrow>
          if is_config x then
            bind_res (union_entries env opts (config_struct x) (dict_entries x)
                (union_tables obj (config_struct x)) uc) (\<lambda>(obj, uc).
              case x of
                schema_value delta \<Rightarrow>
                  if conflict uc then Ok (dict_value obj, uc)
                  else bind_res (finish_schema env opts (dict_value obj) x (sv_name delta)
                      (sv_pkgpath delta) (sv_config_keys delta @ imap_keys (dv_values obj))
                      (sv_args delta) (sv_kwargs delta)) (\<lambda>v. Ok (v, uc))
              | _ \<Rightarrow> Ok (dict_value obj, uc))
          else Err (UnionFailure (type_str self) (type_str x))
      | schema_value obj \<Rightarrow>
          if is_config x then
            bind_res (union_entries env opts (config_struct x) (dict_entries x)
                (union_tables (sv_config obj) (config_struct x)) uc) (\<lambda>(config, uc).
              let self = schema_value (sv_set_config obj config) in
              if conflict uc then Ok (self, uc)
              else
                bind_res
                  (case x of
                     schema_value delta \<Rightarrow>
                       finish_schema env opts self x (sv_name obj) (sv_pkgpath obj)
                         (sv_config_keys obj @ sv_config_keys delta) (sv_args delta) (sv_kwargs delta)
                   | _ \<Rightarrow>
                       finish_schema env opts self x (sv_name obj) (sv_pkgpath obj)
                         (sv_config_keys obj @ imap_keys (dict_entries x)) (sv_args obj) (sv_kwargs obj))
                  (\<lambda>v. Ok (v, uc)))
          else Err (UnionFailure (type_str self) (type_str x))
      | _ \<Rightarrow> Err (UnionFailure (type_str self) (type_str x)))"
| "union_list env opts idx obj [] uc = Ok (obj, uc)"
| "union_list env opts idx [] (d # delta) uc = Ok (d # delta, uc)"
| "union_list env opts idx (v # obj) (d # delta) uc =
     bind_res (union_val env opts False v d uc) (\<lambda>(w, uc).
       let uc = (if conflict uc then push_path (''list['' @ int_to_string (int idx) @ '']'') uc
                 else uc) in
       bind_res (union_list env opts (Suc idx) obj delta uc) (\<lambda>(ws, uc). Ok (w # ws, uc)))"
| "union_entries env opts delta [] obj uc = Ok (obj, uc)"
| "union_entries env opts delta ((k, v) # es) obj uc =
     bind_res (plan_entry opts delta obj k v) (\<lambda>plan.
       case plan of
         EntryDone obj' \<Rightarrow> union_entries env opts delta es obj' uc
       | EntryConflict path w \<Rightarrow> Ok (obj, set_conflict env path w v uc)
       | EntryUnion w index \<Rightarrow>
           bind_res (union_val env opts False w v uc) (\<lambda>(u, uc).
             if conflict uc then Ok (obj, push_path k uc)
             else bind_res (store_entry obj k index u) (\<lambda>obj'.
               union_entries env opts delta es obj' uc)))"
  by pat_completeness auto

termination
proof (relation "measure (case_sum
      (case_sum (\<lambda>(env, opts, m, self, x, uc). 2 * size x + 1) (\<lambda>(env, opts, self, x, uc). 2 * size x))
      (case_sum (\<lambda>(env, opts, i, obj, delta, uc). 2 * size_list size delta)
         (\<lambda>(env, opts, delta, es, obj, uc). 2 * size_list (\<lambda>p. size (snd p)) es)))", goal_cases)
  case (4 env opts self x uc obj)
  then show ?case using size_dict_entries [of x] by simp
next
  case (5 env opts self x uc obj)
  then show ?case using size_dict_entries [of x] by simp
qed auto

declare union_val.simps [simp del] do_union.simps [simp del]

definition union_entry :: "union_env \<Rightarrow> union_options \<Rightarrow> bool \<Rightarrow> val \<Rightarrow> val \<Rightarrow> val res" where
  "union_entry env opts or_mode self x =
     bind_res (union_val env opts or_mode self x union_context_default) (\<lambda>(ret, uc).
       if conflict uc then
         (if path_backtrace uc = [] then Err (RustPanic Unwrap)
          else Err (ConflictError (rev (path_backtrace uc)) (obj_json uc) (delta_json uc)))
       else Ok ret)"

definition bin_bit_or :: "union_env \<Rightarrow> val \<Rightarrow> val \<Rightarrow> val res" where
  "bin_bit_or env v x =
     (case (v, x) of
        (int_value a, int_value b) \<Rightarrow> Ok (int_value (a OR b))
      | _ \<Rightarrow> union_entry env union_options_default True (deep_copy v) x)"

definition bin_aug_bit_or :: "union_env \<Rightarrow> val \<Rightarrow> val \<Rightarrow> val res" where
  "bin_aug_bit_or env v x =
     (case (v, x) of
        (int_value a, int_value b) \<Rightarrow> Ok (int_value (a OR b))
      | _ \<Rightarrow>
          if is_list_or_config v \<or> is_list_or_config x then
            union_entry env union_options_default True v x
          else unsupported_bin_op ''|'' v x)"

definition bin_aug_union_with :: "union_env \<Rightarrow> val \<Rightarrow> val \<Rightarrow> val res" where
  "bin_aug_union_with = bin_aug_bit_or"

section \<open>Merging into a dict\<close>

text \<open>
  The range checks of \<open>dict_merge_key_value_pair\<close> compare an integer with its own conversion: the
  64-bit one never fails.
\<close>

definition dict_merge_key_value_pair :: "union_env \<Rightarrow> context_config \<Rightarrow> val \<Rightarrow> string \<Rightarrow> val \<Rightarrow>
    config_entry_op \<Rightarrow> i32 option \<Rightarrow> bool \<Rightarrow> val res" where
  "dict_merge_key_value_pair env cfg self key v op insert_index idem =
     (if debug_mode cfg \<and> strict_range_check cfg \<and> is_int v \<and> \<not> in_i32 (sint (as_int v)) then
        Err (IntOverflow32 (sint (as_int v)))
      else if is_config self then
        union_entry env
          \<lparr>list_override = False, idempotent_check = idem, config_resolve = False\<rparr> True self
          (dict_value (DictValue [(key, v)] [(key, op)]
             (case insert_index of None \<Rightarrow> [] | Some i \<Rightarrow> [(key, i)]) [] None))
      else Err (InvalidObject (''invalid dict insert value: '' @ type_str self)))"

definition dict_insert :: "union_env \<Rightarrow> context_config \<Rightarrow> val \<Rightarrow> string \<Rightarrow> val \<Rightarrow>
    config_entry_op \<Rightarrow> i32 option \<Rightarrow> val res" where
  "dict_insert env cfg self key v op insert_index =
     dict_merge_key_value_pair env cfg self key v op insert_index True"

definition dict_merge :: "union_env \<Rightarrow> context_config \<Rightarrow> val \<Rightarrow> string \<Rightarrow> val \<Rightarrow>
    config_entry_op \<Rightarrow> i32 option \<Rightarrow> val res" where
  "dict_merge env cfg self key v op insert_index =
     dict_merge_key_value_pair env cfg self key v op insert_index False"

definition dict_insert_unpack :: "union_env \<Rightarrow> val \<Rightarrow> val \<Rightarrow> val res" where
  "dict_insert_unpack env self v =
     (if is_config self \<and> is_config v then
        bind_res (schema_to_dict v) (\<lambda>d. bin_aug_bit_or env self (deep_copy d))
      else if is_config self \<and> is_none_or_undefined v then Ok self
      else Err (InvalidObject ''only list, dict and schema object can be used with unpack operators''))"

definition dict_set_value :: "union_env \<Rightarrow> val \<Rightarrow> string \<Rightarrow> val \<Rightarrow> val res" where
  "dict_set_value env p key v =
     (if is_config p then
        bind_res (dict_update_key_value p key v) (\<lambda>p.
          case p of
            schema_value s \<Rightarrow>
              bind_res (resolve_schema env p (sv_config_keys s @ [key])) (\<lambda>schema.
                Ok (schema_update_with_schema p schema))
          | _ \<Rightarrow> Ok p)
      else Err (InvalidObject (''failed to update the dict: '' @ type_str p)))"

section \<open>Well-formedness\<close>

lemmas wf_val_old = wf_val_dict wf_val_schema

lemma bounds_res_Ok [res_simps]: "bounds_res r = Ok x \<longleftrightarrow> r = Some x"
  by (auto simp: bounds_res_def split: option.splits)

lemma set_vec_insert: "vec_insert i x xs = Some ys \<Longrightarrow> set ys = insert x (set xs)"
  unfolding vec_insert_def by (auto split: if_splits dest: in_set_takeD in_set_dropD)
    (metis append_take_drop_id in_set_conv_decomp set_append Un_iff)

lemma set_insert_values_at: "insert_values_at i vs xs = Ok ys \<Longrightarrow> set ys = set vs \<union> set xs"
proof (induction i vs xs rule: insert_values_at.induct)
  case (2 i v vs xs)
  then obtain zs where zs: "vec_insert i v xs = Some zs" "insert_values_at (Suc i) vs zs = Ok ys"
    by (auto simp: res_simps)
  with 2(1) [OF _ zs(2)] set_vec_insert [OF zs(1)] show ?case by (auto simp: res_simps)
qed simp

lemma list_op_wf:
  "list_get l i = Ok (Some w) \<Longrightarrow> wf_val l \<Longrightarrow> wf_val w"
  "list_set l n w = Ok l' \<Longrightarrow> wf_val l \<Longrightarrow> wf_val w \<Longrightarrow> wf_val l'"
  "list_must_set l n w = Ok l' \<Longrightarrow> wf_val l \<Longrightarrow> wf_val w \<Longrightarrow> wf_val l'"
  "list_remove_at l n = Ok l' \<Longrightarrow> wf_val l \<Longrightarrow> wf_val l'"
     apply (cases l; auto simp: Let_def split: if_splits)
    apply (cases l; auto split: if_splits dest!: set_update_subset_insert [THEN subsetD])
   apply (cases l; auto simp: res_simps vec_set_def split: if_splits
      dest!: set_update_subset_insert [THEN subsetD])
  apply (cases l; auto simp: res_simps vec_remove_def split: if_splits
      dest!: in_set_takeD in_set_dropD)
  done

definition wf_plan :: "entry_plan \<Rightarrow> bool" where
  "wf_plan p = (case p of EntryDone d \<Rightarrow> wf_dict d | EntryConflict _ w \<Rightarrow> wf_val w
     | EntryUnion w _ \<Rightarrow> wf_val w)"

lemma plan_union_wf:
  assumes "plan_union c obj k v i = Ok p" "wf_dict obj" "wf_val v"
  shows "wf_plan p"
proof (cases i)
  case None
  with assms show ?thesis
    by (auto simp: plan_union_def wf_plan_def wf_dict_insert split: option.splits if_splits
        dest: wf_dict_get)
next
  case (Some j)
  with assms(1) obtain l where l: "imap_get (dv_values obj) k = Some l" "is_list l"
    by (auto simp: plan_union_def split: option.splits if_splits)
  with Some assms(1) obtain w where "list_get l (sint j) = Ok (Some w)" "p = EntryUnion w i \<or>
      p = EntryConflict (k @ ''['' @ int_to_string (sint j) @ '']'') w"
    by (cases "list_get l (sint j)") (auto simp: plan_union_def split: option.splits if_splits)
  with l(1) assms(2) show ?thesis
    by (auto simp: wf_plan_def dest: wf_dict_get list_op_wf(1))
qed

lemma plan_override_wf:
  "plan_override obj k v i = Ok p \<Longrightarrow> wf_dict obj \<Longrightarrow> wf_val v \<Longrightarrow> wf_plan p"
  by (auto simp: plan_override_def wf_plan_def res_simps split: option.splits if_splits
      intro!: wf_dict_insert dest: wf_dict_get list_op_wf(3,4))

lemma plan_insert_wf:
  assumes "plan_insert obj k v i = Ok p" "wf_dict obj" "wf_val v"
  shows "wf_plan p"
proof -
  have "wf_val (case imap_get (dv_values obj) k of
           None \<Rightarrow> list_value []
         | Some w \<Rightarrow> if is_none_or_undefined w then list_value [] else w)" (is "wf_val ?o")
    using assms(2) by (auto split: option.splits dest: wf_dict_get)
  with assms show ?thesis
    by (cases ?o; cases v)
      (auto simp: plan_insert_def wf_plan_def res_simps Let_def set_insert_values_at
        split: option.splits intro!: wf_dict_insert dest!: set_insert_values_at)
qed

lemma plan_entry_wf:
  "plan_entry opts delta obj k v = Ok p \<Longrightarrow> wf_dict obj \<Longrightarrow> wf_val v \<Longrightarrow> wf_plan p"
  by (auto simp: plan_entry_def Let_def wf_plan_def [of "EntryDone _"] wf_dict_insert
      split: if_splits config_entry_op.splits
      dest: plan_union_wf plan_override_wf plan_insert_wf)

lemma store_entry_wf:
  "store_entry obj k i w = Ok obj' \<Longrightarrow> wf_dict obj \<Longrightarrow> wf_val w \<Longrightarrow> wf_dict obj'"
  by (auto simp: store_entry_def res_simps split: option.splits
      intro!: wf_dict_insert dest: wf_dict_get list_op_wf(2))

lemma union_tables_wf: "wf_dict obj \<Longrightarrow> wf_dict delta \<Longrightarrow> wf_dict (union_tables obj delta)"
  by (auto simp: union_tables_def wf_dict_def dv_inv_def)

definition wf_env :: "union_env \<Rightarrow> bool" where
  "wf_env env = (\<forall>t f c a kw v. schema_fns env t = Some f \<longrightarrow> wf_val c \<longrightarrow> f c a kw = Ok v \<longrightarrow> wf_val v)"

lemma resolve_schema_wf:
  "resolve_schema env v ks = Ok w \<Longrightarrow> wf_env env \<Longrightarrow> wf_val v \<Longrightarrow> wf_val w"
  unfolding resolve_schema_def wf_env_def
  by (auto simp: res_simps simp del: wf_val_old wf_val_simps_dict split: val.splits option.splits dest: dict_get_entries_wf(2))

lemma finish_schema_wf:
  assumes "finish_schema env opts v x n p ks ar kw = Ok w" "wf_env env" "wf_val v" "is_config v"
  shows "wf_val w"
proof -
  obtain s where s: "dict_to_schema (set_schema_args v ar kw) n p ks (schema_config_meta x)
      (if is_schema v then schema_optional_mapping v else schema_optional_mapping x)
      (Some ar) (Some kw) = Ok s"
    "(if config_resolve opts then resolve_schema env s ks else Ok s) = Ok w"
    using assms(1) by (auto simp: finish_schema_def res_simps Let_def)
  have "wf_val s"
    using s(1) assms(3,4) by (cases v) (auto simp del: wf_val_old)
  with s(2) assms(2) show ?thesis by (auto split: if_splits dest: resolve_schema_wf)
qed

definition set_config :: "val \<Rightarrow> dict_val \<Rightarrow> val" where
  "set_config v d = (case v of schema_value s \<Rightarrow> schema_value (sv_set_config s d) | _ \<Rightarrow> dict_value d)"

lemma config_set_config [simp]: "is_config (set_config v d)" "config_struct (set_config v d) = d"
  by (simp_all add: set_config_def split: val.splits)

text \<open>The outcomes of \<open>do_union\<close>, for the inductions below.\<close>

lemma do_union_Ok:
  assumes "do_union env opts v x uc = Ok (w, uc')"
  obtains (keep) obj delta where "v = list_value obj" "x = list_value delta" "list_override opts"
      "w = v" "uc' = uc"
    | (list) obj delta ws where "v = list_value obj" "x = list_value delta" "\<not> list_override opts"
      "union_list env opts 0 obj delta uc = Ok (ws, uc')" "w = list_value ws"
    | (config) obj where "is_config v" "is_config x"
      "union_entries env opts (config_struct x) (dict_entries x)
         (union_tables (config_struct v) (config_struct x)) uc = Ok (obj, uc')"
      "w = set_config v obj" "conflict uc' \<or> \<not> is_schema v \<and> \<not> is_schema x"
    | (schema) obj n p ks ar kw where "is_config v" "is_config x"
      "union_entries env opts (config_struct x) (dict_entries x)
         (union_tables (config_struct v) (config_struct x)) uc = Ok (obj, uc')"
      "\<not> conflict uc'" "is_schema v \<or> is_schema x"
      "finish_schema env opts (set_config v obj) x n p ks ar kw = Ok w"
proof (cases v)
  case (list_value obj)
  with assms that(1,2) show ?thesis
    by (cases x) (auto simp: do_union.simps res_simps split: if_splits)
next
  case (dict_value obj)
  with assms have x: "is_config x" by (auto simp: do_union.simps split: if_splits)
  with assms dict_value obtain a where a: "union_entries env opts (config_struct x) (dict_entries x)
      (union_tables (config_struct v) (config_struct x)) uc = Ok (a, uc')"
    by (cases x) (auto simp: do_union.simps res_simps split: if_splits)
  show ?thesis
  proof (cases "conflict uc' \<or> \<not> is_schema x")
    case True
    with assms dict_value x a show ?thesis
      by (intro that(3) [of a])
        (auto simp: do_union.simps set_config_def is_kind_defs split: val.splits)
  next
    case False
    then obtain d where d: "x = schema_value d" using x by (cases x) (auto simp: is_schema_def)
    with assms dict_value a False have "finish_schema env opts (set_config v a) x (sv_name d)
        (sv_pkgpath d) (sv_config_keys d @ imap_keys (dv_values a)) (sv_args d) (sv_kwargs d) = Ok w"
      by (auto simp: do_union.simps set_config_def res_simps)
    from that(4) [OF _ x a _ _ this] dict_value d False show ?thesis by (simp add: is_kind_defs)
  qed
next
  case (schema_value obj)
  with assms have x: "is_config x" by (auto simp: do_union.simps split: if_splits)
  with assms schema_value obtain a where a: "union_entries env opts (config_struct x) (dict_entries x)
      (union_tables (config_struct v) (config_struct x)) uc = Ok (a, uc')"
    by (cases x) (auto simp: do_union.simps res_simps Let_def split: if_splits)
  show ?thesis
  proof (cases "conflict uc'")
    case True
    with assms schema_value x a show ?thesis
      by (intro that(3) [of a]) (auto simp: do_union.simps set_config_def Let_def)
  next
    case False
    with assms schema_value a x obtain ks ar kw where
      "finish_schema env opts (set_config v a) x (sv_name obj) (sv_pkgpath obj) ks ar kw = Ok w"
      by (cases x) (auto simp: do_union.simps set_config_def res_simps Let_def)
    from that(4) [OF _ x a False _ this] schema_value show ?thesis by (simp add: is_kind_defs)
  qed
qed (use assms in \<open>auto simp: do_union.simps\<close>)

text \<open>
  A predicate on values, one on dicts and one on contexts that every step of the union preserves
  hold of its result. The induction over the mutually recursive functions is done once, here.
\<close>

locale union_invariant =
  fixes env :: union_env and opts :: union_options
    and PV :: "val \<Rightarrow> bool" and PD :: "dict_val \<Rightarrow> bool" and Q :: "union_context \<Rightarrow> bool"
  assumes PV_list: "PV (list_value vs) \<longleftrightarrow> (\<forall>v \<in> set vs. PV v)"
    and PV_int: "PV (int_value a)"
    and PV_config: "is_config v \<Longrightarrow> PV v \<longleftrightarrow> PD (config_struct v)"
    and PD_entry: "PD d \<Longrightarrow> e \<in> set (dv_values d) \<Longrightarrow> PV (snd e)"
    and PD_tables: "PD obj \<Longrightarrow> PD delta \<Longrightarrow> PD (union_tables obj delta)"
    and PD_done: "plan_entry opts delta obj k v = Ok (EntryDone d) \<Longrightarrow> PD obj \<Longrightarrow> PV v \<Longrightarrow> PD d"
    and PV_plan: "plan_entry opts delta obj k v = Ok (EntryUnion w i) \<Longrightarrow> PD obj \<Longrightarrow> PV v \<Longrightarrow> PV w"
    and PD_store: "store_entry obj k i w = Ok d \<Longrightarrow> PD obj \<Longrightarrow> PV w \<Longrightarrow> PD d"
    and PV_finish: "finish_schema env opts v x n p ks ar kw = Ok w \<Longrightarrow> is_config v \<Longrightarrow> PV v \<Longrightarrow> PV w"
    and Q_push: "conflict uc \<Longrightarrow> Q uc \<Longrightarrow> Q (push_path s uc)"
    and Q_conflict: "Q (set_conflict env s v w uc)"
begin

lemma preserved:
  "union_val env1 opts1 m v x uc = Ok (w, uc') \<Longrightarrow> env1 = env \<Longrightarrow> opts1 = opts \<Longrightarrow>
    PV v \<Longrightarrow> PV x \<Longrightarrow> Q uc \<Longrightarrow> PV w \<and> Q uc'"
  "do_union env1 opts1 v x uc = Ok (w, uc') \<Longrightarrow> env1 = env \<Longrightarrow> opts1 = opts \<Longrightarrow>
    PV v \<Longrightarrow> PV x \<Longrightarrow> Q uc \<Longrightarrow> PV w \<and> Q uc'"
  "union_list env1 opts1 i vs xs uc = Ok (ws, uc') \<Longrightarrow> env1 = env \<Longrightarrow> opts1 = opts \<Longrightarrow>
    \<forall>v \<in> set vs. PV v \<Longrightarrow> \<forall>x \<in> set xs. PV x \<Longrightarrow> Q uc \<Longrightarrow> (\<forall>w \<in> set ws. PV w) \<and> Q uc'"
  "union_entries env1 opts1 delta es obj uc = Ok (obj', uc') \<Longrightarrow> env1 = env \<Longrightarrow> opts1 = opts \<Longrightarrow>
    PD obj \<Longrightarrow> \<forall>p \<in> set es. PV (snd p) \<Longrightarrow> Q uc \<Longrightarrow> PD obj' \<and> Q uc'"
proof (induction env1 opts1 m v x uc and env1 opts1 v x uc and env1 opts1 i vs xs uc and
    env1 opts1 delta es obj uc arbitrary: w uc' and w uc' and ws uc' and obj' uc'
    rule: union_val_do_union_union_list_union_entries.induct)
  case (1 env1 opts1 m v x uc)
  then show ?case
    by (auto simp: union_val.simps [of env opts m v x uc] PV_int split: if_splits val.splits)
next
  case (2 env1 opts1 v x uc)
  have ent: "PD obj \<and> Q u" if "is_config v" "is_config x"
    "union_entries env1 opts1 (config_struct x) (dict_entries x)
      (union_tables (config_struct v) (config_struct x)) uc = Ok (obj, u)" for obj u
  proof -
    have wf: "PD (union_tables (config_struct v) (config_struct x))"
      using that 2(7,8) by (simp add: PD_tables PV_config)
    have es: "\<forall>p \<in> set (dict_entries x). PV (snd p)"
      using that(2) 2(8) PD_entry [of "config_struct x"] PV_config [of x]
      by (auto simp: dict_entries_config)
    show ?thesis
    proof (cases v)
      case (dict_value d)
      with 2(2) [OF this that(2)] that(3) wf es 2(5,6,9) show ?thesis by simp
    next
      case (schema_value d)
      with 2(3) [OF this that(2)] that(3) wf es 2(5,6,9) show ?thesis by simp
    qed (use that in simp_all)
  qed
  from 2(4) show ?case
  proof (cases rule: do_union_Ok)
    case (list obj delta ws)
    from 2(1) [OF list(1,2,3,4)] 2(5,6,7,8,9) list show ?thesis by (simp add: PV_list)
  next
    case (config obj)
    from ent [OF config(1,2,3)] config(4) show ?thesis by (simp add: PV_config)
  next
    case (schema obj n p ks ar kw)
    from ent [OF schema(1,2,3)] PV_finish schema(6) 2(5,6) show ?thesis
      by (auto simp: PV_config)
  qed (use 2(7,9) in simp)
next
  case (5 env1 opts1 i v vs d ds uc)
  from 5(3) obtain w1 u1 where w1: "union_val env1 opts1 False v d uc = Ok (w1, u1)"
    by (auto simp: res_simps)
  define u2 where "u2 = (if conflict u1 then
    push_path (''list['' @ int_to_string (int i) @ '']'') u1 else u1)"
  from 5(3) w1 obtain ws1 where ws: "union_list env1 opts1 (Suc i) vs ds u2 = Ok (ws1, uc')"
    "ws = w1 # ws1"
    by (auto simp: res_simps Let_def u2_def)
  have "PV w1 \<and> Q u1" using 5(1) [OF w1] 5(4-8) by simp
  moreover from this have "Q u2" by (simp add: u2_def Q_push)
  ultimately show ?case
    using 5(2) [OF w1 refl, of u2] ws 5(4-8) by (auto simp: u2_def)
next
  case (7 env1 opts1 delta k v es obj uc)
  from 7(4) obtain p where p: "plan_entry opts1 delta obj k v = Ok p" by (auto simp: res_simps)
  show ?case
  proof (cases p)
    case (EntryDone d)
    with 7(1) [OF p EntryDone] 7(4-9) p PD_done show ?thesis by auto
  next
    case (EntryUnion u i)
    from 7(4) p EntryUnion obtain a u1 where a: "union_val env1 opts1 False u v uc = Ok (a, u1)"
      by (auto simp: res_simps)
    have "PV u" using PV_plan [of delta obj k v u i] p EntryUnion 7(5-9) by simp
    with 7(2) [OF p EntryUnion a] 7(5-9) have PQ: "PV a" "Q u1" by simp_all
    show ?thesis
    proof (cases "conflict u1")
      case False
      with 7(4) p EntryUnion a obtain d where d: "store_entry obj k i a = Ok d"
        "union_entries env1 opts1 delta es d u1 = Ok (obj', uc')"
        by (auto simp: res_simps)
      have "PD d" using PD_store [OF d(1)] PQ 7(7) by simp
      with 7(3) [OF p EntryUnion a refl False d] PQ 7(5-9) show ?thesis by simp
    qed (use 7(4,7) p EntryUnion a PQ Q_push in auto)
  qed (use 7 p Q_conflict in auto)
qed auto

lemmas union_val_preserved = preserved(1) [OF _ refl refl]
lemmas union_entries_preserved = preserved(4) [OF _ refl refl]

end

lemma plan_entry_wf_done:
  "plan_entry opts delta obj k v = Ok (EntryDone d) \<Longrightarrow> wf_dict obj \<Longrightarrow> wf_val v \<Longrightarrow> wf_dict d"
  "plan_entry opts delta obj k v = Ok (EntryUnion w i) \<Longrightarrow> wf_dict obj \<Longrightarrow> wf_val v \<Longrightarrow> wf_val w"
  by (auto dest: plan_entry_wf simp: wf_plan_def)

lemma wf_dict_entry: "wf_dict d \<Longrightarrow> (k, v) \<in> set (dv_values d) \<Longrightarrow> wf_val v"
  by (auto simp: wf_dict_def)

lemma union_invariant_wf:
  "wf_env env \<Longrightarrow> union_invariant env opts wf_val wf_dict (\<lambda>_. True)"
  by unfold_locales
    (auto simp: wf_val_config union_tables_wf simp del: wf_val_old
      intro: plan_entry_wf_done finish_schema_wf store_entry_wf dest: wf_dict_entry)

lemma union_wf:
  "union_val env opts m v x uc = Ok (w, uc') \<Longrightarrow> wf_env env \<Longrightarrow> wf_val v \<Longrightarrow> wf_val x \<Longrightarrow> wf_val w"
  using union_invariant.union_val_preserved [OF union_invariant_wf] by blast

section \<open>Conflicts\<close>

text \<open>
  A conflict is never raised without a path, so the \<open>unwrap\<close> of the last path component in
  \<open>union_entry\<close> cannot fail.
\<close>

definition uc_inv :: "union_context \<Rightarrow> bool" where
  "uc_inv uc = (conflict uc \<longrightarrow> path_backtrace uc \<noteq> [])"

lemma uc_inv_simps [simp]:
  "uc_inv union_context_default" "uc_inv (push_path p uc)" "uc_inv (set_conflict env p v w uc)"
  by (simp_all add: uc_inv_def union_context_default_def push_path_def set_conflict_def)

interpretation uc_inv: union_invariant env opts "\<lambda>_. True" "\<lambda>_. True" uc_inv
  by unfold_locales auto

lemma union_entry_conflict:
  assumes "union_val env opts m v x union_context_default = Ok (w, uc)" "conflict uc"
  shows "\<exists>path. path \<noteq> [] \<and>
    union_entry env opts m v x = Err (ConflictError path (obj_json uc) (delta_json uc))"
proof -
  have "uc_inv uc" using uc_inv.union_val_preserved [OF assms(1)] by simp
  with assms show ?thesis by (auto simp: union_entry_def uc_inv_def)
qed

text \<open>Without a conflict the context is the one the union started with.\<close>

interpretation uc_same: union_invariant env opts "\<lambda>_. True" "\<lambda>_. True" "\<lambda>uc. conflict uc \<or> uc = uc0"
  for uc0
  by unfold_locales (auto simp: push_path_def set_conflict_def)

lemma union_val_no_conflict:
  "union_val env opts m v x uc = Ok (w, uc') \<Longrightarrow> \<not> conflict uc' \<Longrightarrow> uc' = uc"
  using uc_same.union_val_preserved by blast

lemma union_entries_no_conflict:
  "union_entries env opts delta es obj uc = Ok (obj', uc') \<Longrightarrow> \<not> conflict uc' \<Longrightarrow> uc' = uc"
  using uc_same.union_entries_preserved by blast

section \<open>Keys of a union\<close>

lemma plan_entry_keys:
  assumes "plan_entry opts delta obj k v = Ok p"
  shows "case p of
      EntryDone d \<Rightarrow> imap_keys (dv_values d) =
        imap_keys (dv_values obj) @ (if k \<in> set (imap_keys (dv_values obj)) then [] else [k])
    | EntryConflict _ w \<Rightarrow> True
    | EntryUnion w i \<Rightarrow> k \<in> set (imap_keys (dv_values obj))"
proof -
  have get: "imap_get (dv_values obj) k = Some w \<Longrightarrow> k \<in> set (imap_keys (dv_values obj))" for w
    by (metis imap_get_None_iff option.distinct(1))
  note * = plan_entry_def plan_union_def plan_override_def plan_insert_def Let_def
  show ?thesis
    using assms get
    by (cases p) (auto simp: * imap_keys_insert bind_res_eq_Inr
      split: if_splits option.splits config_entry_op.splits val.splits)
qed


text \<open>One step of the loop, when no conflict arises in it or later.\<close>

lemma union_entries_step:
  assumes "union_entries env opts delta ((k, v) # es) obj uc = Ok (obj', uc')" "\<not> conflict uc'"
  obtains (merged) d where "plan_entry opts delta obj k v = Ok (EntryDone d)"
      "union_entries env opts delta es d uc = Ok (obj', uc')"
    | (recursed) w i u d where "plan_entry opts delta obj k v = Ok (EntryUnion w i)"
      "union_val env opts False w v uc = Ok (u, uc)" "store_entry obj k i u = Ok d"
      "union_entries env opts delta es d uc = Ok (obj', uc')"
proof -
  from assms(1) obtain p where p: "plan_entry opts delta obj k v = Ok p" by (auto simp: res_simps)
  show thesis
  proof (cases p)
    case (EntryDone d)
    with assms p that(1) show ?thesis by simp
  next
    case (EntryConflict path w)
    with assms p show ?thesis by (auto simp: set_conflict_def)
  next
    case (EntryUnion w i)
    with assms p obtain u u1 where u: "union_val env opts False w v uc = Ok (u, u1)"
      by (auto simp: res_simps)
    have "\<not> conflict u1"
      using assms p EntryUnion u by (auto simp: push_path_def split: if_splits)
    with u have "u1 = uc" by (rule union_val_no_conflict)
    with assms p EntryUnion u \<open>\<not> conflict u1\<close> that(2) show ?thesis by (auto simp: res_simps)
  qed
qed

lemma store_entry_keys:
  "store_entry obj k i w = Ok d \<Longrightarrow> k \<in> set (imap_keys (dv_values obj)) \<Longrightarrow>
    imap_keys (dv_values d) = imap_keys (dv_values obj)"
  by (auto simp: store_entry_def res_simps imap_keys_insert split: option.splits)

lemma union_entries_keys:
  "union_entries env opts delta es obj uc = Ok (obj', uc') \<Longrightarrow> \<not> conflict uc' \<Longrightarrow>
    distinct (map fst es) \<Longrightarrow>
    imap_keys (dv_values obj') = imap_keys (dv_values obj) @
      filter (\<lambda>k. k \<notin> set (imap_keys (dv_values obj))) (map fst es)"
proof (induction es arbitrary: obj)
  case (Cons p es)
  obtain k v where p: "p = (k, v)" by (cases p)
  have step: "imap_keys (dv_values d) = imap_keys (dv_values obj) @
        (if k \<in> set (imap_keys (dv_values obj)) then [] else [k]) \<Longrightarrow>
      union_entries env opts delta es d uc = Ok (obj', uc') \<Longrightarrow> ?case" for d
    using Cons.IH [of d] Cons.prems p by (auto intro!: filter_cong)
  from Cons.prems(1,2) [unfolded p] show ?case
  proof (cases rule: union_entries_step)
    case (merged d)
    from step [OF _ merged(2)] plan_entry_keys [OF merged(1)] show ?thesis by simp
  next
    case (recursed w i u d)
    from plan_entry_keys [OF recursed(1)] store_entry_keys [OF recursed(3)] step [OF _ recursed(4)]
    show ?thesis by simp
  qed
qed simp

section \<open>Idempotence\<close>

lemma imap_insert_same: "imap_get m k = Some v \<Longrightarrow> imap_insert k v m = m"
  by (induction m) (auto split: if_splits)

lemma imap_extend_subset: "imap_inv m \<Longrightarrow> set d \<subseteq> set m \<Longrightarrow> imap_extend m d = m"
proof (induction d)
  case (Cons p d)
  obtain k v where p: "p = (k, v)" by (cases p)
  with Cons have "imap_insert k v m = m" by (simp add: imap_insert_same imap_get_eq_Some_iff)
  with Cons p show ?case by simp
qed simp

text \<open>
  Unioning a value with itself gives it back when every part equals itself, no entry inserts into a
  list or addresses an index, and, with resolution on, no part is a schema instance.
\<close>

definition idem_ok :: "union_options \<Rightarrow> val \<Rightarrow> bool" where
  "idem_ok opts v =
     (self_equal v \<and>
      (is_config v \<longrightarrow> dv_inv (config_struct v) \<and> dv_insert_indexs (config_struct v) = [] \<and>
         (\<forall>(k, op) \<in> set (dv_ops (config_struct v)). op \<noteq> ConfigInsert)) \<and>
      (config_resolve opts \<longrightarrow> \<not> is_schema v))"

lemma union_tables_self:
  "dv_inv d \<Longrightarrow> union_tables d d = d"
  by (cases d) (simp add: union_tables_def dv_inv_def imap_extend_subset)

lemma dv_set_values_same: "imap_get (dv_values d) k = Some v \<Longrightarrow>
  dv_set_values d (imap_insert k v (dv_values d)) = d"
  by (cases d) (simp add: dv_set_values_def imap_insert_same)

lemma finish_schema_self:
  "\<not> config_resolve opts \<Longrightarrow>
    finish_schema env opts (schema_value s) x n p ks (sv_args s) (sv_kwargs s) = Ok (schema_value s)"
  by (cases s) (simp add: finish_schema_def Let_def)


lemma plan_entry_self:
  assumes d: "dv_inv d" "dv_insert_indexs d = []" "\<forall>(k, op) \<in> set (dv_ops d). op \<noteq> ConfigInsert"
    and kv: "(k, v) \<in> set (dv_values d)" "cmp_equal v v"
  shows "plan_entry opts d d k v = Ok (EntryUnion v None) \<or> plan_entry opts d d k v = Ok (EntryDone d)"
proof -
  have get: "imap_get (dv_values d) k = Some v"
    using d(1) kv by (simp add: imap_get_eq_Some_iff dv_inv_def)
  have "op_or_union (dv_ops d) k \<noteq> ConfigInsert"
    using d(3) by (auto simp: op_or_union_def dest: imap_get_SomeD split: option.splits)
  with get d(2) kv(2) show ?thesis
    by (cases "op_or_union (dv_ops d) k")
      (auto simp: plan_entry_def Let_def imap_contains_def plan_union_def plan_override_def
        value_subsume.simps dv_set_values_same)
qed

lemma union_entries_self:
  assumes d: "dv_inv d" "dv_insert_indexs d = []" "\<forall>(k, op) \<in> set (dv_ops d). op \<noteq> ConfigInsert"
    and uc: "\<not> conflict uc"
    and v: "\<And>k v. (k, v) \<in> set (dv_values d) \<Longrightarrow>
      cmp_equal v v \<and> union_val env opts False v v uc = Ok (v, uc)"
  shows "set es \<subseteq> set (dv_values d) \<Longrightarrow> union_entries env opts d es d uc = Ok (d, uc)"
proof (induction es)
  case (Cons p es)
  obtain k w where p: "p = (k, w)" by (cases p)
  with Cons.prems have kw: "(k, w) \<in> set (dv_values d)" by simp
  then have "imap_get (dv_values d) k = Some w"
    using d(1) by (simp add: imap_get_eq_Some_iff dv_inv_def)
  then have "store_entry d k None w = Ok d" by (simp add: store_entry_def dv_set_values_same)
  with plan_entry_self [OF d kw, of opts] v [OF kw] Cons uc p show ?case by auto
qed simp

lemma val_all_mono: "val_all P v \<Longrightarrow> (\<And>w. P w \<Longrightarrow> Q w) \<Longrightarrow> val_all Q v"
proof (induction v rule: val_induct)
  case (Config c)
  then show ?case by (force simp: val_all_config)
qed auto

lemma idem_ok_cmp_equal: "val_all (idem_ok opts) v \<Longrightarrow> cmp_equal v v"
  by (subst cmp_equal_refl_iff) (auto simp: wf_val_def idem_ok_def elim: val_all_mono)

lemma union_val_self:
  "val_all (idem_ok opts) x \<Longrightarrow> m \<longrightarrow> is_list_or_config x \<Longrightarrow> \<not> conflict uc \<Longrightarrow>
    union_val env opts m x x uc = Ok (x, uc)"
proof (induction x arbitrary: m rule: val_induct)
  case (List vs)
  have "\<forall>v \<in> set vs. union_val env opts False v v uc = Ok (v, uc)" using List by simp
  then have "union_list env opts i vs vs uc = Ok (vs, uc)" for i
    using List.prems(3) by (induction vs arbitrary: i) auto
  then show ?case by (simp add: union_val.simps do_union.simps)
next
  case (Config c)
  let ?d = "config_struct c"
  have c: "idem_ok opts c" "\<And>k v. (k, v) \<in> set (dict_entries c) \<Longrightarrow> val_all (idem_ok opts) v"
    using Config.prems Config.hyps by (auto simp: val_all_config)
  have eq: "cmp_equal v v" if "(k, v) \<in> set (dict_entries c)" for k v
    using c(2) [OF that] idem_ok_cmp_equal by blast
  have ok: "dv_inv ?d" "dv_insert_indexs ?d = []" "\<forall>(k, op) \<in> set (dv_ops ?d). op \<noteq> ConfigInsert"
    using c(1) Config.hyps by (auto simp: idem_ok_def)
  have "union_val env opts False v v uc = Ok (v, uc)" if "(k, v) \<in> set (dict_entries c)" for k v
    using Config.IH [OF that c(2) [OF that]] Config.prems(3) by simp
  with eq have "union_entries env opts ?d (dict_entries c) ?d uc = Ok (?d, uc)"
    using Config.prems(3) by (intro union_entries_self ok) (auto simp: dict_entries_config)
  moreover have "union_tables ?d ?d = ?d"
    using c(1) Config.hyps by (simp add: idem_ok_def union_tables_self)
  ultimately have "do_union env opts c c uc = Ok (c, uc)"
    using Config.hyps c(1) Config.prems(3)
    by (cases c) (auto simp: do_union.simps idem_ok_def is_kind_defs finish_schema_self sv_set_config_def)
  then show ?case using Config.hyps by (cases c) (simp_all add: union_val.simps)
next
  case (Leaf v)
  then show ?case by (cases v) (auto simp: union_val.simps)
qed


lemma union_entry_self:
  "val_all (idem_ok opts) x \<Longrightarrow> is_list_or_config x \<Longrightarrow> union_entry env opts m x x = Ok x"
  by (simp add: union_entry_def union_val_self union_context_default_def)

section \<open>The entries of a union\<close>

text \<open>
  The specification of a merged entry for a delta without list indices: entries of one side are
  kept, an override replaces, an insertion appends, and a union recurses and, with the check on,
  requires the delta's value to be subsumed.
\<close>

definition merged_entry :: "union_env \<Rightarrow> union_options \<Rightarrow> dict_val \<Rightarrow> val option \<Rightarrow> string \<Rightarrow>
    union_context \<Rightarrow> val option \<Rightarrow> bool" where
  "merged_entry env opts delta old k uc new =
     (case imap_get (dv_values delta) k of
        None \<Rightarrow> new = old
      | Some v \<Rightarrow>
          (case old of
             None \<Rightarrow> new = Some v
           | Some w \<Rightarrow>
               (case op_or_union (dv_ops delta) k of
                  ConfigUnion \<Rightarrow> (idempotent_check opts \<longrightarrow> value_subsume False v w) \<and>
                    (\<exists>u. union_val env opts False w v uc = Ok (u, uc) \<and> new = Some u)
                | ConfigOverride \<Rightarrow> new = Some v
                | ConfigInsert \<Rightarrow> (\<exists>xs vs. v = list_value vs \<and> new = Some (list_value (xs @ vs)) \<and>
                    (w = list_value xs \<or> is_none_or_undefined w \<and> xs = [])))))"

lemma plan_entry_no_index:
  assumes "imap_get (dv_insert_indexs delta) k = None"
  shows "plan_entry opts delta obj k v = Ok (EntryDone d) \<Longrightarrow>
      \<exists>u. d = dv_set_values obj (imap_insert k u (dv_values obj)) \<and>
        (case imap_get (dv_values obj) k of
           None \<Rightarrow> u = v
         | Some w \<Rightarrow>
             (op_or_union (dv_ops delta) k = ConfigOverride \<and> u = v) \<or>
             (op_or_union (dv_ops delta) k = ConfigInsert \<and>
              (\<exists>xs vs. v = list_value vs \<and> u = list_value (xs @ vs) \<and>
                 (w = list_value xs \<or> is_none_or_undefined w \<and> xs = []))))"
    and "plan_entry opts delta obj k v = Ok (EntryUnion w i) \<Longrightarrow>
      i = None \<and> imap_get (dv_values obj) k = Some w \<and> op_or_union (dv_ops delta) k = ConfigUnion \<and>
      (idempotent_check opts \<longrightarrow> value_subsume False v w)"
proof -
  note defs = plan_entry_def plan_union_def plan_override_def plan_insert_def Let_def
  assume "plan_entry opts delta obj k v = Ok (EntryDone d)"
  with assms show "\<exists>u. d = dv_set_values obj (imap_insert k u (dv_values obj)) \<and>
        (case imap_get (dv_values obj) k of
           None \<Rightarrow> u = v
         | Some w \<Rightarrow>
             (op_or_union (dv_ops delta) k = ConfigOverride \<and> u = v) \<or>
             (op_or_union (dv_ops delta) k = ConfigInsert \<and>
              (\<exists>xs vs. v = list_value vs \<and> u = list_value (xs @ vs) \<and>
                 (w = list_value xs \<or> is_none_or_undefined w \<and> xs = []))))"
    by (cases "op_or_union (dv_ops delta) k"; cases "imap_get (dv_values obj) k")
      (auto simp: defs imap_contains_def split: if_splits val.splits)
next
  note defs = plan_entry_def plan_union_def plan_override_def plan_insert_def Let_def
  assume "plan_entry opts delta obj k v = Ok (EntryUnion w i)"
  with assms show "i = None \<and> imap_get (dv_values obj) k = Some w \<and>
      op_or_union (dv_ops delta) k = ConfigUnion \<and>
      (idempotent_check opts \<longrightarrow> value_subsume False v w)"
    by (cases "op_or_union (dv_ops delta) k"; cases "imap_get (dv_values obj) k")
      (auto simp: defs imap_contains_def split: if_splits val.splits)
qed

lemma union_entries_merged:
  assumes "dv_insert_indexs delta = []"
  shows "union_entries env opts delta es obj uc = Ok (obj', uc') \<Longrightarrow> \<not> conflict uc' \<Longrightarrow>
    imap_inv es \<Longrightarrow> (\<And>k v. (k, v) \<in> set es \<Longrightarrow> imap_get (dv_values delta) k = Some v) \<Longrightarrow>
    (if k \<in> set (imap_keys es)
     then merged_entry env opts delta (imap_get (dv_values obj) k) k uc (imap_get (dv_values obj') k)
     else imap_get (dv_values obj') k = imap_get (dv_values obj) k)"
proof (induction es arbitrary: obj)
  case (Cons p es)
  obtain k1 v where p: "p = (k1, v)" by (cases p)
  have get: "imap_get (dv_values delta) k1 = Some v" using Cons.prems(4) p by simp
  have idx: "imap_get (dv_insert_indexs delta) k1 = None" by (simp add: assms)
  have IH: "union_entries env opts delta es d uc = Ok (obj', uc') \<Longrightarrow>
     (if k \<in> set (imap_keys es)
     then merged_entry env opts delta (imap_get (dv_values d) k) k uc (imap_get (dv_values obj') k)
     else imap_get (dv_values obj') k = imap_get (dv_values d) k)" for d
    using Cons.IH [of d] Cons.prems p by simp
  have k1: "k1 \<notin> set (imap_keys es)" using Cons.prems(3) p by simp
  from Cons.prems(1,2) [unfolded p] show ?case
  proof (cases rule: union_entries_step)
    case (merged d)
    from plan_entry_no_index(1) [OF idx merged(1)] obtain u where
      u: "d = dv_set_values obj (imap_insert k1 u (dv_values obj))" and
      c: "case imap_get (dv_values obj) k1 of None \<Rightarrow> u = v
         | Some w \<Rightarrow>
             (op_or_union (dv_ops delta) k1 = ConfigOverride \<and> u = v) \<or>
             (op_or_union (dv_ops delta) k1 = ConfigInsert \<and>
              (\<exists>xs vs. v = list_value vs \<and> u = list_value (xs @ vs) \<and>
                 (w = list_value xs \<or> is_none_or_undefined w \<and> xs = [])))"
      by auto
    from c have "merged_entry env opts delta (imap_get (dv_values obj) k1) k1 uc (Some u)"
      by (auto simp: merged_entry_def get split: option.splits)
    with IH [OF merged(2)] u p k1 show ?thesis by (cases "k = k1") (auto split: if_splits)
  next
    case (recursed w i u d)
    note pl = plan_entry_no_index(2) [OF idx recursed(1)]
    with recursed(3) have "d = dv_set_values obj (imap_insert k1 u (dv_values obj))"
      by (simp add: store_entry_def)
    moreover have "merged_entry env opts delta (imap_get (dv_values obj) k1) k1 uc (Some u)"
      using pl recursed(2) get by (simp add: merged_entry_def)
    ultimately show ?thesis using IH [OF recursed(4)] p k1 by (cases "k = k1") (auto split: if_splits)
  qed
qed simp

text \<open>The union of two dicts, entry by entry.\<close>

lemma union_dict_entries:
  assumes "union_entry env opts m (dict_value a) (dict_value b) = Ok r"
    and "dv_inv b" "dv_insert_indexs b = []"
  shows "\<exists>c. r = dict_value c \<and>
    imap_keys (dv_values c) = imap_keys (dv_values a) @
      filter (\<lambda>k. k \<notin> set (imap_keys (dv_values a))) (imap_keys (dv_values b)) \<and>
    (\<forall>k. merged_entry env opts b (imap_get (dv_values a) k) k union_context_default
       (imap_get (dv_values c) k))"
proof -
  let ?uc = union_context_default
  obtain uc' where u: "union_val env opts m (dict_value a) (dict_value b) ?uc = Ok (r, uc')"
    "\<not> conflict uc'"
    using assms(1) by (auto simp: union_entry_def res_simps split: if_splits)
  then obtain c where c: "r = dict_value c"
      "union_entries env opts b (dv_values b) (union_tables a b) ?uc = Ok (c, uc')"
    by (auto simp: union_val.simps do_union.simps res_simps)
  have vals: "dv_values (union_tables a b) = dv_values a" by (simp add: union_tables_def)
  have inv: "imap_inv (dv_values b)" using assms(2) by (simp add: dv_inv_def)
  have "merged_entry env opts b (imap_get (dv_values a) k) k ?uc (imap_get (dv_values c) k)" for k
    using union_entries_merged [OF assms(3) c(2) u(2) inv, of k] inv vals
    by (auto simp: imap_get_eq_Some_iff merged_entry_def imap_get_None_iff [symmetric]
        split: if_splits option.splits)
  moreover have "imap_keys (dv_values c) = imap_keys (dv_values a) @
      filter (\<lambda>k. k \<notin> set (imap_keys (dv_values a))) (imap_keys (dv_values b))"
    using union_entries_keys [OF c(2) u(2)] inv vals by (simp add: imap_inv_def imap_keys_def)
  ultimately show ?thesis using c(1) by blast
qed

text \<open>The union of two lists is as long as the longer one; equal lengths merge position by position.\<close>

lemma union_list_length:
  "union_list env opts i vs xs uc = Ok (ws, uc') \<Longrightarrow> length ws = max (length vs) (length xs)"
proof (induction vs arbitrary: i xs uc ws uc')
  case Nil
  then show ?case by (cases xs) auto
next
  case (Cons v vs)
  show ?case
  proof (cases xs)
    case (Cons x ys)
    with Cons.prems obtain w u ws' u' where "union_list env opts (Suc i) vs ys u = Ok (ws', u')"
      "ws = w # ws'"
      by (auto simp: res_simps Let_def)
    with Cons.IH [of "Suc i" ys u ws' u'] Cons show ?thesis by simp
  qed (use Cons.prems in simp)
qed

section \<open>Inserting one entry\<close>

text \<open>The tables of a dict after the entry \<open>k\<close> has been merged into it as \<open>v\<close>.\<close>

definition merged_dict :: "dict_val \<Rightarrow> string \<Rightarrow> val \<Rightarrow> config_entry_op \<Rightarrow> dict_val" where
  "merged_dict d k v op =
     DictValue (imap_insert k v (dv_values d)) (imap_insert k op (dv_ops d)) (dv_insert_indexs d)
       (dv_attr_map d) None"

definition range_ok :: "context_config \<Rightarrow> val \<Rightarrow> bool" where
  "range_ok cfg v =
     (debug_mode cfg \<and> strict_range_check cfg \<and> is_int v \<longrightarrow> in_i32 (sint (as_int v)))"

lemma dict_merge_pair_dict:
  assumes "range_ok cfg v"
  shows "dict_merge_key_value_pair env cfg (dict_value d) k v op None idem =
    (case imap_get (dv_values d) k of
       None \<Rightarrow> Ok (dict_value (merged_dict d k v op))
     | Some w \<Rightarrow>
         (case op of
            ConfigUnion \<Rightarrow>
              if idem \<and> \<not> value_subsume False v w then
                Err (ConflictError [k] (json_label env w) (json_label env v))
              else
                bind_res (union_val env
                    \<lparr>list_override = False, idempotent_check = idem, config_resolve = False\<rparr>
                    False w v union_context_default) (\<lambda>(u, uc).
                  if conflict uc then
                    Err (ConflictError (k # rev (path_backtrace uc)) (obj_json uc) (delta_json uc))
                  else Ok (dict_value (merged_dict d k u op)))
          | ConfigOverride \<Rightarrow> Ok (dict_value (merged_dict d k v op))
          | ConfigInsert \<Rightarrow>
              (case (if is_none_or_undefined w then list_value [] else w, v) of
                 (list_value xs, list_value vs) \<Rightarrow>
                   Ok (dict_value (merged_dict d k (list_value (xs @ vs)) op))
               | _ \<Rightarrow> Err (OnlyListIndexed k))))"
proof -
  note defs = dict_merge_key_value_pair_def union_entry_def union_val.simps [of env _ True]
    do_union.simps plan_entry_def plan_union_def plan_override_def plan_insert_def Let_def
    union_tables_def op_or_union_def imap_contains_def dv_set_values_def merged_dict_def
    union_context_default_def set_conflict_def push_path_def
  have "range_ok cfg v \<Longrightarrow>
    \<not> (debug_mode cfg \<and> strict_range_check cfg \<and> is_int v \<and> \<not> in_i32 (sint (as_int v)))"
    by (simp add: range_ok_def)
  note r = this [OF assms]
  show ?thesis
  proof (cases "imap_get (dv_values d) k")
    case None
    then show ?thesis using r by (simp add: defs)
  next
    case (Some w)
    show ?thesis
    proof (cases op)
      case ConfigUnion
      show ?thesis
      proof (cases "idem \<and> \<not> value_subsume False v w")
        case True
        with Some ConfigUnion r show ?thesis by (simp add: defs)
      next
        case False
        with Some ConfigUnion r show ?thesis
          by (cases "union_val env \<lparr>list_override = False, idempotent_check = idem,
                config_resolve = False\<rparr> False w v union_context_default")
            (auto simp: defs store_entry_def)
      qed
    next
      case ConfigOverride
      with Some r show ?thesis by (simp add: defs)
    next
      case ConfigInsert
      with Some r show ?thesis by (auto simp: defs split: val.splits)
    qed
  qed
qed

section \<open>Properties\<close>

text \<open>C1: the union of two dicts, merged without list indices, has the keys of the left one in their
  order followed by the new keys of the right one, and every entry is the one the operator of the
  right dict prescribes: kept, replaced, appended, or merged recursively; a merged entry has passed
  the idempotence check.\<close>

theorem union_of_dicts:
  assumes "union_entry env opts m (dict_value a) (dict_value b) = Ok r"
    and "dv_inv b" "dv_insert_indexs b = []"
  shows "\<exists>c. r = dict_value c \<and>
    imap_keys (dv_values c) = imap_keys (dv_values a) @
      filter (\<lambda>k. k \<notin> set (imap_keys (dv_values a))) (imap_keys (dv_values b)) \<and>
    (\<forall>k. merged_entry env opts b (imap_get (dv_values a) k) k union_context_default
       (imap_get (dv_values c) k))"
  using assms by (rule union_dict_entries)

theorem union_of_dicts_witness:
  "\<exists>c. dict_value (DictValue [(''a'', int_value 1), (''b'', int_value 2)] [] [] [] None) = dict_value c \<and>
    imap_keys (dv_values c) = [''a'', ''b'']"
proof -
  let ?env = "\<lparr>schema_fns = \<lambda>_. None, to_json = \<lambda>_. []\<rparr>"
  have "union_entry ?env union_options_default True
      (dict_value (DictValue [(''a'', int_value 1)] [] [] [] None))
      (dict_value (DictValue [(''a'', int_value 1), (''b'', int_value 2)] [] [] [] None)) =
      Ok (dict_value (DictValue [(''a'', int_value 1), (''b'', int_value 2)] [] [] [] None))"
    "dv_inv (DictValue [(''a'', int_value 1), (''b'', int_value 2)] [] [] [] None)"
    "dv_insert_indexs (DictValue [(''a'', int_value 1), (''b'', int_value 2)] [] [] [] None) = []"
    by code_simp+
  from union_of_dicts [OF this] show ?thesis by (auto simp: imap_keys_def)
qed

text \<open>C2: the union is idempotent: a list or configuration merged with itself is itself, with no
  conflict, when its parts equal themselves, none inserts into or addresses elements of a list, and
  no schema instance in it is to be resolved again.\<close>

theorem union_idempotent:
  assumes "val_all (idem_ok opts) x" "is_list_or_config x"
  shows "union_entry env opts m x x = Ok x"
  using assms by (rule union_entry_self)

theorem union_idempotent_witness:
  "union_entry \<lparr>schema_fns = \<lambda>_. None, to_json = \<lambda>_. []\<rparr> union_options_default True
     (dict_value (DictValue [(''a'', list_value [int_value 1]), (''b'', str_value ''x'')]
        [(''b'', ConfigOverride)] [] [] None))
     (dict_value (DictValue [(''a'', list_value [int_value 1]), (''b'', str_value ''x'')]
        [(''b'', ConfigOverride)] [] [] None)) =
   Ok (dict_value (DictValue [(''a'', list_value [int_value 1]), (''b'', str_value ''x'')]
        [(''b'', ConfigOverride)] [] [] None))"
  by (rule union_idempotent) code_simp+





text \<open>C5: a union that runs into a conflict fails with a conflict error whose path is not empty: the
  \<open>unwrap\<close> of its last component never panics.\<close>

theorem conflict_has_path:
  assumes "union_val env opts m v x union_context_default = Ok (w, uc)" "conflict uc"
  shows "\<exists>path. path \<noteq> [] \<and>
    union_entry env opts m v x = Err (ConflictError path (obj_json uc) (delta_json uc))"
  using assms by (rule union_entry_conflict)

theorem conflict_has_path_witness:
  "\<exists>path. path \<noteq> [] \<and>
    union_entry \<lparr>schema_fns = \<lambda>_. None, to_json = \<lambda>_. ''?''\<rparr> union_options_default True
      (dict_value (DictValue [(''a'', dict_int [(''b'', 1)])] [] [] [] None))
      (dict_value (DictValue [(''a'', dict_int [(''b'', 2)])] [] [] [] None)) =
    Err (ConflictError path ''?'' ''?'')"
proof -
  let ?env = "\<lparr>schema_fns = \<lambda>_. None, to_json = \<lambda>_. ''?''\<rparr>"
  let ?a = "dict_value (DictValue [(''a'', dict_int [(''b'', 1)])] [] [] [] None)"
  let ?b = "dict_value (DictValue [(''a'', dict_int [(''b'', 2)])] [] [] [] None)"
  let ?uc = "\<lparr>path_backtrace = [''b'', ''a''], conflict = True, obj_json = ''?'', delta_json = ''?''\<rparr>"
  have "union_val ?env union_options_default True ?a ?b union_context_default = Ok (?a, ?uc)"
    "conflict ?uc"
    by code_simp+
  from conflict_has_path [OF this] show ?thesis by simp
qed

text \<open>A union of two equal numbers with units is reported as a conflict.\<close>

lemma unit_union_conflicts:
  "dict_insert \<lparr>schema_fns = \<lambda>_. None, to_json = \<lambda>_. ''?''\<rparr>
     \<lparr>debug_mode = False, strict_range_check = False, disable_schema_check = False\<rparr>
     (dict_value (DictValue [(''a'', unit_value (f64_of_i64 1024) 1 ''Ki'')] [] [] [] None)) ''a''
     (unit_value (f64_of_i64 1024) 1 ''Ki'') ConfigUnion None =
   Err (ConflictError [''a''] ''?'' ''?'')"
  by code_simp

end
