(* ===== verification/ValueIter.thy ===== *)
theory ValueIter
  imports ValueDict
begin

text \<open>
  Iteration over strings, lists and configurations (\<open>runtime/src/value/iter.rs\<close>). The iterator
  keeps its position as an \<open>i32\<close> and, for a dict, the keys at the time it was created; the host is
  passed to every step and may have changed in between.
\<close>

section \<open>Definitions\<close>

record value_iterator =
  it_len :: nat
  cur_key :: val
  cur_val :: val
  it_keys :: "string list"
  pos :: i32

definition ValueIterator_default :: value_iterator where
  "ValueIterator_default =
     \<lparr>it_len = 0, cur_key = undefined_value, cur_val = undefined_value, it_keys = [], pos = 0\<rparr>"

definition from_value :: "val \<Rightarrow> value_iterator res" where
  "from_value p =
     (if \<not> is_str p \<and> \<not> is_list p \<and> \<not> is_config p then Err (NotIterable (type_str p))
      else bind_res (val_is_empty p) (\<lambda>empty.
        if empty then Ok ValueIterator_default
        else case p of
          str_value s \<Rightarrow> Ok (ValueIterator_default\<lparr>it_len := length s\<rparr>)
        | list_value vs \<Rightarrow> Ok (ValueIterator_default\<lparr>it_len := length vs\<rparr>)
        | dict_value d \<Rightarrow>
            Ok (ValueIterator_default\<lparr>it_len := length (dv_values d),
              it_keys := imap_keys (dv_values d)\<rparr>)
        | schema_value s \<Rightarrow>
            Ok (ValueIterator_default\<lparr>it_len := length (dv_values (sv_config s)),
              it_keys := imap_keys (dv_values (sv_config s))\<rparr>)
        | _ \<Rightarrow> Ok ValueIterator_default))"

definition is_end :: "value_iterator \<Rightarrow> bool" where
  "is_end it = (sint (word_of_nat (it_len it) :: i32) \<le> sint (pos it))"

definition iter_key :: "value_iterator \<Rightarrow> val option" where
  "iter_key it =
     (if pos it = 0 \<or> sint (word_of_nat (it_len it) :: i32) < sint (pos it) then None
      else Some (cur_key it))"

definition iter_value :: "value_iterator \<Rightarrow> val option" where
  "iter_value it = (if pos it = 0 then None else Some (cur_val it))"

text \<open>\<open>pos as usize\<close> of a negative position lies beyond every vector.\<close>

definition at_pos :: "'a list \<Rightarrow> i32 \<Rightarrow> 'a res" where
  "at_pos xs p =
     (if 0 \<le> sint p \<and> sint p < int (length xs) then Ok (xs ! nat (sint p)) else Err (RustPanic Bounds))"

definition advance :: "val \<Rightarrow> val \<Rightarrow> value_iterator \<Rightarrow> value_iterator" where
  "advance key v it = it\<lparr>cur_key := key, cur_val := v, pos := pos it + 1\<rparr>"

definition next_entry :: "(string, val) imap \<Rightarrow> value_iterator \<Rightarrow> (val option \<times> value_iterator) res" where
  "next_entry values it =
     bind_res (at_pos (it_keys it) (pos it)) (\<lambda>key.
     bind_res (bounds_res (imap_get values key)) (\<lambda>v.
     Ok (Some (str_value key), advance (str_value key) v it)))"

definition iter_next :: "val \<Rightarrow> value_iterator \<Rightarrow> (val option \<times> value_iterator) res" where
  "iter_next host it =
     bind_res (val_len host) (\<lambda>len.
       if len = 0 \<or> sint (word_of_nat len :: i32) \<le> sint (pos it) then Ok (None, it)
       else case host of
         str_value s \<Rightarrow>
           if sint (word_of_nat (length (str_chars s)) :: i32) \<le> sint (pos it) then Ok (None, it)
           else bind_res (at_pos (str_chars s) (pos it)) (\<lambda>ch.
             Ok (Some (str_value ch), advance (int_value (scast (pos it))) (str_value ch) it))
       | list_value vs \<Rightarrow>
           bind_res (at_pos vs (pos it)) (\<lambda>v.
             Ok (Some v, advance (int_value (scast (pos it))) v it))
       | dict_value d \<Rightarrow> next_entry (dv_values d) it
       | schema_value s \<Rightarrow> next_entry (dv_values (sv_config s)) it
       | _ \<Rightarrow> Err (NotIterable (type_str host)))"

definition next_with_key_value ::
    "val \<Rightarrow> value_iterator \<Rightarrow> ((val \<times> val \<times> val) option \<times> value_iterator) res" where
  "next_with_key_value host it =
     bind_res (iter_next host it) (\<lambda>(r, it).
       Ok (case r of None \<Rightarrow> (None, it) | Some v \<Rightarrow> (Some (v, cur_key it, cur_val it), it)))"

text \<open>
  The loop of the clients, \<open>while let Some((v, key, val)) = it.next_with_key_value(&host)\<close>, on a host
  the body does not change: what it visits in at most \<open>n\<close> steps, \<open>None\<close> when it is not done by then.
\<close>

fun visit :: "nat \<Rightarrow> val \<Rightarrow> value_iterator \<Rightarrow> (val \<times> val \<times> val) list option res" where
  "visit 0 host it = Ok None"
| "visit (Suc n) host it =
     bind_res (next_with_key_value host it) (\<lambda>(r, it).
       case r of
         None \<Rightarrow> Ok (Some [])
       | Some x \<Rightarrow> bind_res (visit n host it) (\<lambda>xs. Ok (map_option ((#) x) xs)))"

section \<open>A loop visits every element once, in order\<close>

definition iter_elements :: "val \<Rightarrow> (val \<times> val \<times> val) list" where
  "iter_elements host =
     (case host of
        str_value s \<Rightarrow>
          map (\<lambda>i. (str_value (str_chars s ! i), int_value (word_of_nat i), str_value (str_chars s ! i)))
            [0..<length (str_chars s)]
      | list_value vs \<Rightarrow> map (\<lambda>i. (vs ! i, int_value (word_of_nat i), vs ! i)) [0..<length vs]
      | _ \<Rightarrow> map (\<lambda>(k, v). (str_value k, str_value k, v)) (dict_entries host))"

definition iterable :: "val \<Rightarrow> bool" where
  "iterable v = (is_str v \<or> is_list v \<or> is_config v)"

text \<open>The length of an iterable value, which the code casts to \<open>i32\<close>.\<close>

definition small_len :: "val \<Rightarrow> bool" where
  "small_len v = (case val_len v of Inl _ \<Rightarrow> False | Inr n \<Rightarrow> n < 2147483648)"

lemma scast_i32: "n < 2147483648 \<Longrightarrow> (scast (word_of_nat n :: i32) :: i64) = word_of_nat n"
  by (simp only: scast_eq sint_word_of_nat_i32 of_int_of_nat_eq)

lemma at_pos_nat: "n < 2147483648 \<Longrightarrow> n < length xs \<Longrightarrow> at_pos xs (word_of_nat n) = Ok (xs ! n)"
  by (simp add: at_pos_def sint_word_of_nat_i32)

lemma next_with_key_value_step:
  assumes "iterable host" "small_len host" "wf_val host"
    and "pos it = word_of_nat n" "n < length (iter_elements host)"
    and "is_config host \<Longrightarrow> it_keys it = imap_keys (dict_entries host)"
  shows "\<exists>it'. next_with_key_value host it = Ok (Some (iter_elements host ! n), it') \<and>
    pos it' = word_of_nat (Suc n) \<and> it_keys it' = it_keys it"
proof (cases "is_config host")
  case True
  let ?es = "dict_entries host"
  have len: "length ?es < 2147483648" "val_len host = Ok (length ?es)"
    using assms(2) True by (cases host; auto simp: small_len_def)+
  have el: "iter_elements host = map (\<lambda>(k, v). (str_value k, str_value k, v)) ?es"
    using True by (cases host) (auto simp: iter_elements_def)
  with assms(5) have n: "n < length ?es" by simp
  obtain k v where kv: "?es ! n = (k, v)" by (cases "?es ! n")
  have "imap_get ?es k = Some v"
    using kv n nth_mem [OF n] wf_val_entries_inv [OF assms(3)] by (simp add: imap_get_eq_Some_iff)
  moreover have "at_pos (it_keys it) (pos it) = Ok k"
    using assms(4,6) True n len kv by (simp add: at_pos_nat imap_keys_def)
  ultimately have e: "next_entry ?es it = Ok (Some (str_value k), advance (str_value k) v it)"
    by (simp add: next_entry_def bounds_res_def)
  have "iter_next host it = next_entry ?es it"
    using True len n assms(4) sint_word_of_nat_i32 [of n] sint_word_of_nat_i32 [of "length ?es"]
    by (cases host) (auto simp: iter_next_def)
  then have "next_with_key_value host it = Ok (Some (str_value k, str_value k, v), advance (str_value k) v it)"
    by (simp add: next_with_key_value_def e advance_def)
  moreover have "pos (advance (str_value k) v it) = word_of_nat (Suc n)"
    by (simp add: advance_def assms(4) add.commute)
  ultimately show ?thesis
    using n kv by (intro exI [of _ "advance (str_value k) v it"]) (simp add: el, simp add: advance_def)
next
  case False
  then consider (s) s where "host = str_value s" | (l) vs where "host = list_value vs"
    using assms(1) by (cases host) (auto simp: iterable_def is_kind_defs)
  then show ?thesis
  proof cases
    case s
    let ?c = "str_chars s"
    have n: "n < length ?c" "length s < 2147483648"
      using assms(2,5) s by (auto simp: iter_elements_def small_len_def)
    then have le: "length ?c < 2147483648" using length_str_chars [of s] by simp
    with n s assms(4) show ?thesis
      using length_str_chars [of s]
      by (auto simp: next_with_key_value_def iter_next_def iter_elements_def at_pos_nat advance_def
          scast_i32 sint_word_of_nat_i32 add.commute)
  next
    case l
    have n: "n < length vs" "length vs < 2147483648"
      using assms(2,5) l by (auto simp: iter_elements_def small_len_def)
    with l assms(4) show ?thesis
      by (auto simp: next_with_key_value_def iter_next_def iter_elements_def at_pos_nat advance_def
          scast_i32 sint_word_of_nat_i32 add.commute)
  qed
qed

lemma next_with_key_value_done:
  assumes "iterable host" "small_len host" "pos it = word_of_nat (length (iter_elements host))"
  shows "next_with_key_value host it = Ok (None, it)"
  using assms length_str_chars
  by (cases host) (auto simp: iterable_def is_kind_defs next_with_key_value_def iter_next_def
      iter_elements_def small_len_def sint_word_of_nat_i32 le_less_trans)

lemma visit_from:
  assumes "iterable host" "small_len host" "wf_val host"
  shows "pos it = word_of_nat k \<Longrightarrow> k \<le> length (iter_elements host) \<Longrightarrow>
    (is_config host \<Longrightarrow> it_keys it = imap_keys (dict_entries host)) \<Longrightarrow>
    length (iter_elements host) - k < n \<Longrightarrow>
    visit n host it = Ok (Some (drop k (iter_elements host)))"
proof (induction n arbitrary: k it)
  case (Suc n)
  show ?case
  proof (cases "k = length (iter_elements host)")
    case True
    with Suc.prems(1) next_with_key_value_done [OF assms(1,2), of it] show ?thesis by simp
  next
    case False
    then have k: "k < length (iter_elements host)" using Suc.prems(2) by simp
    from next_with_key_value_step [OF assms Suc.prems(1) k Suc.prems(3)] obtain it' where
      it': "next_with_key_value host it = Ok (Some (iter_elements host ! k), it')"
      "pos it' = word_of_nat (Suc k)" "it_keys it' = it_keys it"
      by blast
    have "visit n host it' = Ok (Some (drop (Suc k) (iter_elements host)))"
      using it'(3) k Suc.prems(3,4) by (intro Suc.IH [OF it'(2)]) auto
    with it'(1) k show ?thesis by (simp add: Cons_nth_drop_Suc)
  qed
qed simp

lemma from_value_iterable:
  assumes "iterable host"
  shows "\<exists>it. from_value host = Ok it \<and> pos it = 0 \<and> val_len host = Ok (it_len it) \<and>
    (is_config host \<longrightarrow> it_keys it = imap_keys (dict_entries host))"
  using assms by (cases host)
    (auto simp: iterable_def is_kind_defs from_value_def val_is_empty_def ValueIterator_default_def)

lemma visit_all:
  assumes "iterable host" "small_len host" "wf_val host" "length (iter_elements host) < n"
  shows "\<exists>it. from_value host = Ok it \<and> visit n host it = Ok (Some (iter_elements host))"
proof -
  obtain it where it: "from_value host = Ok it" "pos it = 0"
    "is_config host \<longrightarrow> it_keys it = imap_keys (dict_entries host)"
    using from_value_iterable [OF assms(1)] by blast
  with visit_from [OF assms(1-3), of it 0 n] assms(4) show ?thesis by simp
qed

section \<open>Properties\<close>

text \<open>C18: a loop over a string, list or configuration of less than \<open>2^31\<close> elements ends, does not panic,
  and visits every character, element or entry once, in order, with its index or key.\<close>

theorem iteration_visits_all:
  assumes "iterable host" "small_len host" "wf_val host" "length (iter_elements host) < n"
  shows "\<exists>it. from_value host = Ok it \<and> visit n host it = Ok (Some (iter_elements host))"
  using assms by (rule visit_all)

theorem iteration_visits_all_witness:
  "\<exists>it. from_value (dict_int [(''a'', 1), (''b'', 2)]) = Ok it \<and>
    visit 3 (dict_int [(''a'', 1), (''b'', 2)]) it =
      Ok (Some (iter_elements (dict_int [(''a'', 1), (''b'', 2)])))"
proof (rule iteration_visits_all)
  show "small_len (dict_int [(''a'', 1), (''b'', 2)])"
    by (simp add: small_len_def dict_int_def dict_new_def)
qed code_simp+

text \<open>
  \<open>is_end\<close> compares with the length in bytes: after the only character of a two-byte string it is
  still false although the next step yields nothing.
\<close>

lemma is_end_multibyte:
  "next_with_key_value (str_value [CHR 0xC3, CHR 0xA9])
     \<lparr>it_len = 2, cur_key = int_value 0, cur_val = str_value [CHR 0xC3, CHR 0xA9], it_keys = [], pos = 1\<rparr> =
   Ok (None, \<lparr>it_len = 2, cur_key = int_value 0, cur_val = str_value [CHR 0xC3, CHR 0xA9], it_keys = [],
     pos = 1\<rparr>) \<and>
   \<not> is_end \<lparr>it_len = 2, cur_key = int_value 0, cur_val = str_value [CHR 0xC3, CHR 0xA9], it_keys = [],
     pos = 1\<rparr>"
  by code_simp

end
