(* ===== verification/ValuePlan.thy ===== *)
theory ValuePlan
  imports ValueDict
begin

text \<open>
  The planning of the program's result (\<open>runtime/src/value/val_plan.rs\<close>): which values, entries and
  elements reach the output, and the selection by path. The JSON and YAML printers that follow are
  not modelled.
\<close>

section \<open>Definitions\<close>

record plan_options =
  sort_keys :: bool
  include_schema_type_path :: bool
  show_hidden :: bool
  disable_none :: bool
  disable_empty_list :: bool
  query_paths :: "string list"
  sep :: "string option"

definition strip_prefix :: "string \<Rightarrow> string \<Rightarrow> string option" where
  "strip_prefix p s = (if str_starts_with s p then Some (drop (length p) s) else None)"

text \<open>The builtin \<open>typeof\<close> (\<open>stdlib/builtin.rs\<close>).\<close>

definition type_of :: "val \<Rightarrow> bool \<Rightarrow> string" where
  "type_of v full_name =
     (case v of
        schema_value s \<Rightarrow>
          if full_name then
            (let t = (case strip_prefix ''@'' (sv_pkgpath s) of Some p \<Rightarrow> p | None \<Rightarrow> sv_pkgpath s) in
             (if t \<noteq> MAIN_PKG_PATH then t @ ''.'' else []) @ sv_name s)
          else type_str v
      | none_value \<Rightarrow> ''None''
      | _ \<Rightarrow> type_str v)"

definition value_type_path :: "val \<Rightarrow> bool \<Rightarrow> string" where
  "value_type_path v full_name =
     (if is_schema v then type_of v full_name
      else case get_potential_schema_type v of
        Some ty_str \<Rightarrow>
          (let ty =
             (if full_name then
                (case strip_prefix ''@'' ty_str of Some t \<Rightarrow> t | None \<Rightarrow> ty_str)
              else last (split_char (CHR ''.'') ty_str)) in
           case strip_prefix (MAIN_PKG_PATH @ ''.'') ty of Some t \<Rightarrow> t | None \<Rightarrow> ty)
      | None \<Rightarrow> type_of v full_name)"

definition put :: "string \<Rightarrow> val \<Rightarrow> dict_val \<Rightarrow> dict_val" where
  "put k v d = dv_set_values d (imap_insert k v (dv_values d))"

definition add_type_path :: "plan_options \<Rightarrow> val \<Rightarrow> val list \<Rightarrow> val list" where
  "add_type_path opts value filtered =
     (case filtered of
        [] \<Rightarrow> []
      | v # vs \<Rightarrow>
          (if include_schema_type_path opts then
             (case v of
                dict_value d \<Rightarrow> dict_value (put ''_type'' (str_value (value_type_path value True)) d)
              | schema_value s \<Rightarrow> schema_value (sv_set_config s
                  (put ''_type'' (str_value (value_type_path value True)) (sv_config s)))
              | _ \<Rightarrow> v)
           else v) # vs)"

text \<open>
  \<open>filter_results\<close>. The source collects in \<open>results\<close> first the dict of the in-line entries, here
  \<open>r\<close>, then the stand-alone documents, here \<open>rest\<close>. \<open>filter_entries\<close> is the loop over the entries of a
  dict, \<open>filter_elems\<close> the one over the elements of a list under a key: it returns the filtered
  list, the number of ignored schemas and the stand-alone documents. The source filters an element
  that is neither a dict nor a schema through a temporary dict with the key \<open>$\<close>.
\<close>

definition default_results :: "val \<Rightarrow> dict_val" where
  "default_results v =
     dv_set_potential_schema (unwrap_or_default (dv_potential_schema (config_struct v))) DictValue_default"

definition hidden :: "plan_options \<Rightarrow> string \<Rightarrow> bool" where
  "hidden opts k = (str_starts_with k ''_'' \<and> \<not> show_hidden opts)"

definition with_first :: "string \<Rightarrow> val list \<Rightarrow> dict_val \<times> val list \<Rightarrow> dict_val \<times> val list" where
  "with_first k filtered acc =
     (case filtered of [] \<Rightarrow> acc | f # fs \<Rightarrow> (put k f (fst acc), snd acc @ fs))"

function (sequential) filter_results :: "plan_options \<Rightarrow> val \<Rightarrow> val list"
  and filter_list :: "plan_options \<Rightarrow> val list \<Rightarrow> val list"
  and filter_entries :: "plan_options \<Rightarrow> (string, val) imap \<Rightarrow> dict_val \<times> val list \<Rightarrow> dict_val \<times> val list"
  and filter_elems :: "plan_options \<Rightarrow> val list \<Rightarrow> val list \<times> nat \<times> val list" where
  "filter_results opts v =
     (if is_list v then filter_list opts (list_items v)
      else if is_config v then
        (let (r, rest) = filter_entries opts (dict_entries v) (default_results v, []) in
         dict_value r # rest)
      else [])"
| "filter_list opts [] = []"
| "filter_list opts (v # vs) =
     (if is_list_or_config v then filter_results opts v else if is_scalar v then [v] else []) @
     filter_list opts vs"
| "filter_entries opts [] acc = acc"
| "filter_entries opts ((k, v) # es) acc =
     (let acc' =
        (if is_none v \<and> disable_none opts then acc
         else if hidden opts k then acc
         else if is_undefined v \<or> is_func v then acc
         else if is_schema v \<or> has_potential_schema_type v then
           with_first k (add_type_path opts v (filter_results opts v)) acc
         else if is_dict v then with_first k (filter_results opts v) acc
         else if is_list v then
           (let (fl, ignored, docs) = filter_elems opts (list_items v);
                r = fst acc;
                r = (if list_items v = [] \<and> \<not> disable_empty_list opts then put k (list_value []) r else r);
                r = (if ignored < length (list_items v) then put k (list_value fl) r else r) in
            (r, snd acc @ docs))
         else (put k v (fst acc), snd acc)) in
      filter_entries opts es acc')"
| "filter_elems opts [] = ([], 0, [])"
| "filter_elems opts (v # vs) =
     (let (fl, ignored, docs) = filter_elems opts vs in
      if is_schema v \<or> has_potential_schema_type v then
        (let filtered = add_type_path opts v (filter_results opts v) in
         if filtered = [] then (fl, Suc ignored, docs) else (filtered @ fl, ignored, docs))
      else if is_dict v then (filter_results opts v @ fl, ignored, docs)
      else if is_none v \<and> disable_none opts then (fl, ignored, docs)
      else if \<not> is_undefined v then
        (let (r, rest) = filter_entries opts [(''$'', v)] (DictValue_default, []) in
         ((case imap_get (dv_values r) ''$'' of Some w \<Rightarrow> w # fl | None \<Rightarrow> fl), ignored, rest @ docs))
      else (fl, ignored, docs))"
  by pat_completeness auto

termination
proof (relation "measure (case_sum
      (case_sum (\<lambda>(opts, v). 2 * size v) (\<lambda>(opts, vs). 2 * size_list size vs))
      (case_sum (\<lambda>(opts, es, acc). 2 * size_list (\<lambda>p. size (snd p)) es)
         (\<lambda>(opts, vs). 2 * size_list size vs + 1)))", goal_cases)
  case (2 opts v)
  then show ?case using size_list_items [of v] by simp
next
  case (3 opts v)
  then show ?case using size_dict_entries [of v] by simp
next
  case (8 opts k v es acc)
  then show ?case using size_list_items [of v] by simp
qed auto

definition handle_schema :: "plan_options \<Rightarrow> val \<Rightarrow> val list" where
  "handle_schema opts v = add_type_path opts v (filter_results opts v)"

fun select_paths :: "val \<Rightarrow> string list \<Rightarrow> val list \<Rightarrow> (string, val) result" where
  "select_paths v [] values = Ok (list_value values)"
| "select_paths v (path # paths) values =
     (case get_by_path v path of
        Some x \<Rightarrow> select_paths v paths (values @ [x])
      | None \<Rightarrow> Err (''invalid path select operand '' @ path @ '', value not found''))"

definition filter_by_path :: "val \<Rightarrow> string list \<Rightarrow> (string, val) result" where
  "filter_by_path v paths =
     (if is_config v \<and> paths \<noteq> [] then
        (if length paths = 1 then
           (case get_by_path v (hd paths) of
              Some x \<Rightarrow> Ok x
            | None \<Rightarrow> Err (''invalid path select operand '' @ hd paths @ '', value not found''))
         else select_paths v paths [])
      else Ok v)"

text \<open>The documents \<open>plan\<close> prints, one per YAML document or JSON line.\<close>

definition plan_documents :: "plan_options \<Rightarrow> val \<Rightarrow> (string, val list) result" where
  "plan_documents opts v =
     bind_res (if query_paths opts = [] then Ok v else filter_by_path v (query_paths opts)) (\<lambda>v.
       Ok (if is_list_or_config v then filter_results opts v else [v]))"

section \<open>The planned value\<close>

text \<open>
  What planning does, as a function on values: an entry or element is dropped or becomes one value.
  The code implements it with accumulators and documents; the refinement below says that they agree
  and that a configuration is always planned to a single document.
\<close>

definition typed :: "plan_options \<Rightarrow> val \<Rightarrow> dict_val \<Rightarrow> dict_val" where
  "typed opts v d =
     (if include_schema_type_path opts \<and> (is_schema v \<or> has_potential_schema_type v)
      then put ''_type'' (str_value (value_type_path v True)) d else d)"

function (sequential) plan_value :: "plan_options \<Rightarrow> val \<Rightarrow> val option"
  and plan_elems :: "plan_options \<Rightarrow> val list \<Rightarrow> val list"
  and plan_entries :: "plan_options \<Rightarrow> (string, val) imap \<Rightarrow> (string, val) imap" where
  "plan_value opts v =
     (if is_none v \<and> disable_none opts \<or> is_undefined v \<or> is_func v then None
      else if is_config v then
        Some (dict_value (typed opts v
          (dv_set_values (default_results v) (plan_entries opts (dict_entries v)))))
      else if is_list v then
        (if list_items v = [] \<and> disable_empty_list opts then None
         else Some (list_value (plan_elems opts (list_items v))))
      else Some v)"
| "plan_elems opts [] = []"
| "plan_elems opts (v # vs) =
     (case plan_value opts v of None \<Rightarrow> plan_elems opts vs | Some w \<Rightarrow> w # plan_elems opts vs)"
| "plan_entries opts [] = []"
| "plan_entries opts ((k, v) # es) =
     (case (if hidden opts k then None else plan_value opts v) of
        None \<Rightarrow> plan_entries opts es
      | Some w \<Rightarrow> (k, w) # plan_entries opts es)"
  by pat_completeness auto

termination
proof (relation "measure (case_sum (\<lambda>(opts, v). size v)
      (case_sum (\<lambda>(opts, vs). size_list size vs)
         (\<lambda>(opts, es). size_list (\<lambda>p. size (snd p)) es)))", goal_cases)
  case (2 opts v)
  then show ?case using size_dict_entries [of v] by simp
next
  case (3 opts v)
  then show ?case using size_list_items [of v] by simp
qed auto

lemma put_new: "k \<notin> set (imap_keys (dv_values d)) \<Longrightarrow> put k v d = dv_set_values d (dv_values d @ [(k, v)])"
  by (simp add: put_def imap_insert_new)

lemma dv_set_values_twice [simp]: "dv_set_values (dv_set_values d xs) ys = dv_set_values d ys"
  by (simp add: dv_set_values_def)

lemma dv_set_values_id [simp]: "dv_set_values d (dv_values d) = d"
  by (cases d) (simp add: dv_set_values_def)

lemma add_type_path_single:
  "is_schema v \<or> has_potential_schema_type v \<Longrightarrow>
    add_type_path opts v [dict_value d] = [dict_value (typed opts v d)]"
  by (auto simp: add_type_path_def typed_def)

lemma dv_values_default [simp]: "dv_values (default_results v) = []" "dv_values DictValue_default = []"
  by (simp_all add: default_results_def DictValue_default_def)

declare filter_results.simps [simp del] plan_value.simps [simp del]

text \<open>The code agrees with the plan on the parts of a value.\<close>

definition refines :: "plan_options \<Rightarrow> val \<Rightarrow> bool" where
  "refines opts v =
     ((is_config v \<longrightarrow> filter_results opts v =
        [dict_value (dv_set_values (default_results v) (plan_entries opts (dict_entries v)))]) \<and>
      (is_list v \<longrightarrow> filter_elems opts (list_items v) = (plan_elems opts (list_items v), 0, [])))"

lemma filter_entries_one:
  assumes "refines opts v" "k \<notin> set (imap_keys (dv_values (fst acc)))"
  shows "filter_entries opts [(k, v)] acc =
    (case (if hidden opts k then None else plan_value opts v) of
       None \<Rightarrow> acc
     | Some w \<Rightarrow> (dv_set_values (fst acc) (dv_values (fst acc) @ [(k, w)]), snd acc))"
proof -
  consider (config) "is_config v" | (list) "is_list v" | (leaf) "\<not> is_list_or_config v"
    by (cases v) (auto simp: is_list_def)
  then show ?thesis
  proof cases
    case config
    then have n: "\<not> is_none v" "\<not> is_undefined v" "\<not> is_func v" "\<not> is_list v" "is_schema v \<or> is_dict v"
      by (cases v; simp add: is_kind_defs)+
    let ?d = "dv_set_values (default_results v) (plan_entries opts (dict_entries v))"
    have f: "filter_results opts v = [dict_value ?d]" using assms(1) config by (simp add: refines_def)
    have t: "\<not> (is_schema v \<or> has_potential_schema_type v) \<Longrightarrow> typed opts v ?d = ?d"
      by (simp add: typed_def)
    show ?thesis
      using n config f assms(2) add_type_path_single [of v opts ?d] t
      by (auto simp: plan_value.simps [of opts v] with_first_def put_new Let_def)
  next
    case list
    then obtain vs where v: "v = list_value vs" by (cases v) (auto simp: is_list_def)
    have f: "filter_elems opts vs = (plan_elems opts vs, 0, [])"
      using assms(1) v by (simp add: refines_def is_list_def)
    show ?thesis
      using f assms(2)
      by (cases vs) (auto simp: v plan_value.simps is_kind_defs has_potential_schema_type_def put_new
          Let_def)
  next
    case leaf
    then show ?thesis
      using assms(2)
      by (cases v) (auto simp: plan_value.simps is_kind_defs has_potential_schema_type_def put_new)
  qed
qed

lemma filter_entries_Cons:
  "filter_entries opts (p # es) acc = filter_entries opts es (filter_entries opts [p] acc)"
  by (cases p) (simp add: Let_def)

lemma filter_entries_refines:
  "\<forall>p \<in> set es. refines opts (snd p) \<Longrightarrow> imap_inv es \<Longrightarrow>
    set (imap_keys es) \<inter> set (imap_keys (dv_values (fst acc))) = {} \<Longrightarrow>
    filter_entries opts es acc =
      (dv_set_values (fst acc) (dv_values (fst acc) @ plan_entries opts es), snd acc)"
proof (induction es arbitrary: acc)
  case (Cons p es)
  obtain k v where p: "p = (k, v)" by (cases p)
  let ?acc = "filter_entries opts [p] acc"
  have one: "?acc = (case (if hidden opts k then None else plan_value opts v) of
       None \<Rightarrow> acc
     | Some w \<Rightarrow> (dv_set_values (fst acc) (dv_values (fst acc) @ [(k, w)]), snd acc))"
    using Cons.prems p by (simp only: p) (rule filter_entries_one, auto)
  then have "set (imap_keys es) \<inter> set (imap_keys (dv_values (fst ?acc))) = {}"
    using Cons.prems p by (auto split: option.splits)
  moreover have "filter_entries opts (p # es) acc = filter_entries opts es ?acc"
    by (rule filter_entries_Cons)
  ultimately show ?case
    using Cons.IH [of ?acc] Cons.prems one
    by (auto simp: p simp del: filter_entries.simps split: option.splits)
qed simp

lemma filter_elems_refines:
  "\<forall>v \<in> set vs. refines opts v \<Longrightarrow> filter_elems opts vs = (plan_elems opts vs, 0, [])"
proof (induction vs)
  case (Cons v vs)
  have one: "filter_entries opts [(''$'', v)] (DictValue_default, []) =
      (case plan_value opts v of None \<Rightarrow> (DictValue_default, [])
       | Some w \<Rightarrow> (dv_set_values DictValue_default [(''$'', w)], []))"
    using filter_entries_one [of opts v "''$''" "(DictValue_default, [])"] Cons.prems
    by (simp add: hidden_def del: filter_entries.simps split: option.split)
  show ?case
  proof (cases "is_config v")
    case True
    then have n: "\<not> is_none v" "\<not> is_undefined v" "\<not> is_func v" "is_schema v \<or> is_dict v"
      by (cases v; simp add: is_kind_defs)+
    let ?d = "dv_set_values (default_results v) (plan_entries opts (dict_entries v))"
    have f: "filter_results opts v = [dict_value ?d]" using Cons.prems True by (simp add: refines_def)
    have t: "\<not> (is_schema v \<or> has_potential_schema_type v) \<Longrightarrow> typed opts v ?d = ?d"
      by (simp add: typed_def)
    show ?thesis
      using n True f Cons add_type_path_single [of v opts ?d] t
      by (auto simp: plan_value.simps [of opts v] Let_def)
  next
    case False
    then have "\<not> is_schema v" "\<not> is_dict v" "\<not> has_potential_schema_type v"
      by (cases v; simp add: is_kind_defs has_potential_schema_type_def)+
    with Cons one show ?thesis
      by (auto simp del: filter_entries.simps simp: plan_value.simps [of opts v] split: option.splits)
  qed
qed simp

lemma filter_refines: "wf_val v \<Longrightarrow> refines opts v"
proof (induction v rule: val_induct)
  case (List vs)
  then show ?case using filter_elems_refines [of vs opts] by (simp add: refines_def)
next
  case (Config c)
  have "\<forall>p \<in> set (dict_entries c). refines opts (snd p)"
    using Config wf_val_entryD by (metis prod.collapse)
  then have "filter_entries opts (dict_entries c) (default_results c, []) =
      (dv_set_values (default_results c) (plan_entries opts (dict_entries c)), [])"
    using filter_entries_refines [of "dict_entries c" opts "(default_results c, [])"] Config
    by (simp add: wf_val_entries_inv)
  moreover have "\<not> is_list c" using Config by (cases c) (auto simp: is_list_def)
  ultimately show ?case using Config by (simp add: refines_def filter_results.simps [of opts c])
next
  case (Leaf v)
  then show ?case by (cases v) (auto simp: refines_def is_list_def)
qed

lemma filter_results_config:
  "wf_val v \<Longrightarrow> is_config v \<Longrightarrow> filter_results opts v =
    [dict_value (dv_set_values (default_results v) (plan_entries opts (dict_entries v)))]"
  using filter_refines [of v opts] by (simp add: refines_def)

lemma keys_plan_entries: "set (imap_keys (plan_entries opts es)) \<subseteq> {k \<in> set (imap_keys es). \<not> hidden opts k}"
  by (induction es) (auto split: option.splits if_splits)

lemma plan_entries_get:
  "imap_inv es \<Longrightarrow> imap_get (plan_entries opts es) k =
    (if hidden opts k then None else Option.bind (imap_get es k) (plan_value opts))"
proof (induction es)
  case (Cons p es)
  obtain k' v where p: "p = (k', v)" by (cases p)
  have "imap_get (plan_entries opts es) k' = None"
    using keys_plan_entries [of opts es] Cons.prems p by (auto simp: imap_get_None_iff)
  with Cons p show ?case by (auto split: option.splits)
qed simp

section \<open>Nothing hidden is emitted\<close>

text \<open>
  A planned value holds no undefined value, function or schema instance, at any depth; its dicts
  have no hidden key other than the type path and, when None is disabled, no entry or element that is
  None.
\<close>

definition plan_node :: "plan_options \<Rightarrow> val \<Rightarrow> bool" where
  "plan_node opts w =
     (\<not> is_undefined w \<and> \<not> is_func w \<and> \<not> is_schema w \<and>
      (\<forall>(k, c) \<in> set (dict_entries w). (\<not> hidden opts k \<or> k = ''_type'') \<and> (disable_none opts \<longrightarrow> \<not> is_none c)) \<and>
      (\<forall>c \<in> set (list_items w). disable_none opts \<longrightarrow> \<not> is_none c))"

lemma plan_value_not_none: "plan_value opts v = Some w \<Longrightarrow> disable_none opts \<Longrightarrow> \<not> is_none w"
  by (auto simp: plan_value.simps [of opts v] split: if_splits)

lemma plan_elems_mem: "w \<in> set (plan_elems opts vs) \<Longrightarrow> \<exists>v \<in> set vs. plan_value opts v = Some w"
  by (induction vs) (auto split: option.splits)

lemma plan_entries_mem:
  "(k, w) \<in> set (plan_entries opts es) \<Longrightarrow>
    \<not> hidden opts k \<and> (\<exists>v. (k, v) \<in> set es \<and> plan_value opts v = Some w)"
proof (induction es)
  case (Cons p es)
  obtain k' v where p: "p = (k', v)" by (cases p)
  from Cons.prems consider "k = k'" "plan_value opts v = Some w" "\<not> hidden opts k"
    | "(k, w) \<in> set (plan_entries opts es)"
    by (auto simp: p split: option.splits if_splits)
  then show ?case by cases (use Cons.IH p in auto)
qed simp

lemma typed_mem: "p \<in> set (dv_values (typed opts v d)) \<Longrightarrow>
  p \<in> set (dv_values d) \<or> (fst p = ''_type'' \<and> (\<exists>t. snd p = str_value t))"
  by (auto simp: typed_def put_def dest: set_imap_insert split: if_splits)

lemma plan_node_scalar: "is_scalar v \<Longrightarrow> plan_node opts v"
  by (cases v) (auto simp: plan_node_def is_kind_defs)

lemma plan_value_clean: "plan_value opts v = Some w \<Longrightarrow> val_all (plan_node opts) w"
proof (induction v arbitrary: w rule: val_induct)
  case (List vs)
  then have w: "w = list_value (plan_elems opts vs)"
    by (auto simp: plan_value.simps [of opts "list_value vs"] is_kind_defs split: if_splits)
  have "(disable_none opts \<longrightarrow> \<not> is_none u) \<and> val_all (plan_node opts) u"
    if "u \<in> set (plan_elems opts vs)" for u
    using plan_elems_mem [OF that] List.IH plan_value_not_none by blast
  then show ?case
    by (auto simp: w plan_node_def [of opts "list_value (plan_elems opts vs)"] is_kind_defs)
next
  case (Config c)
  let ?d = "typed opts c (dv_set_values (default_results c) (plan_entries opts (dict_entries c)))"
  have w: "w = dict_value ?d"
    using Config.prems Config.hyps by (auto simp: plan_value.simps [of opts c] split: if_splits)
  have "(\<not> hidden opts k \<or> k = ''_type'') \<and> (disable_none opts \<longrightarrow> \<not> is_none u) \<and>
      val_all (plan_node opts) u" if "(k, u) \<in> set (dv_values ?d)" for k u
  proof -
    from typed_mem [OF that] consider (old) "(k, u) \<in> set (plan_entries opts (dict_entries c))"
      | (new) t where "k = ''_type''" "u = str_value t" by auto
    then show ?thesis
    proof cases
      case old
      with Config.IH plan_value_not_none show ?thesis by (blast dest: plan_entries_mem)
    qed (simp add: plan_node_def is_kind_defs)
  qed
  then show ?case by (auto simp: w plan_node_def [of opts "dict_value ?d"] is_kind_defs)
next
  case (Leaf v)
  then show ?case
    by (cases v) (auto simp: plan_value.simps is_kind_defs plan_node_scalar split: if_splits)
qed

lemma planned_config_clean:
  assumes "is_config v"
  shows "val_all (plan_node opts)
    (dict_value (dv_set_values (default_results v) (plan_entries opts (dict_entries v))))"
    (is "val_all _ (dict_value ?d)")
proof -
  have "(disable_none opts \<longrightarrow> \<not> is_none u) \<and> val_all (plan_node opts) u \<and> \<not> hidden opts k"
    if "(k, u) \<in> set (plan_entries opts (dict_entries v))" for k u
    using plan_entries_mem [OF that] plan_value_clean plan_value_not_none by blast
  then show ?thesis by (auto simp: plan_node_def [of opts "dict_value ?d"] is_kind_defs)
qed

section \<open>Properties\<close>

text \<open>C6: the planner, with its accumulators and documents, refines the recursive plan of a value: a
  well-formed configuration gives exactly one document, whose entries are the visible entries of the
  configuration that are planned to a value.\<close>

theorem planner_refines_plan:
  assumes "wf_val v" "is_config v"
  shows "\<exists>d. filter_results opts v = [dict_value d] \<and>
    (\<forall>k. imap_get (dv_values d) k =
      (if hidden opts k then None else Option.bind (imap_get (dict_entries v) k) (plan_value opts)))"
  using filter_results_config [OF assms, of opts] wf_val_entries_inv [OF assms(1)]
  by (simp add: plan_entries_get)

theorem planner_refines_plan_witness:
  "\<exists>d. filter_results \<lparr>sort_keys = False, include_schema_type_path = False, show_hidden = False,
       disable_none = True, disable_empty_list = False, query_paths = [], sep = None\<rparr>
       (dict_value (DictValue [(''_h'', int_value 1), (''a'', none_value)] [] [] [] None)) = [dict_value d] \<and>
     imap_get (dv_values d) ''_h'' = None"
proof -
  let ?o = "\<lparr>sort_keys = False, include_schema_type_path = False, show_hidden = False,
       disable_none = True, disable_empty_list = False, query_paths = [], sep = None\<rparr>"
  let ?v = "dict_value (DictValue [(''_h'', int_value 1), (''a'', none_value)] [] [] [] None)"
  have "wf_val ?v" "is_config ?v" by code_simp+
  from planner_refines_plan [OF this, of ?o] obtain d where
    "filter_results ?o ?v = [dict_value d]"
    "imap_get (dv_values d) ''_h'' = (if hidden ?o ''_h'' then None
       else Option.bind (imap_get (dict_entries ?v) ''_h'') (plan_value ?o))"
    by blast
  moreover have "hidden ?o ''_h''" by code_simp
  ultimately show ?thesis by auto
qed

text \<open>C7: nothing hidden is emitted: the document planned for a well-formed configuration holds, at any
  depth, no undefined value, no function and no schema instance, no hidden key other than the type
  path, and no None when None is disabled.\<close>

theorem planned_document_clean:
  assumes "wf_val v" "is_config v"
  shows "list_all (val_all (plan_node opts)) (filter_results opts v)"
  using filter_results_config [OF assms, of opts] planned_config_clean [OF assms(2), of opts] by simp

theorem planned_document_clean_witness:
  "list_all (val_all (plan_node \<lparr>sort_keys = False, include_schema_type_path = True,
       show_hidden = False, disable_none = True, disable_empty_list = False, query_paths = [], sep = None\<rparr>))
     (filter_results \<lparr>sort_keys = False, include_schema_type_path = True, show_hidden = False,
       disable_none = True, disable_empty_list = False, query_paths = [], sep = None\<rparr>
       (dict_value (DictValue [(''a'', list_value [none_value, undefined_value])] [] [] [] (Some ''S''))))"
  by (rule planned_document_clean) code_simp+

end
