(* ===== verification/RustStr.thy ===== *)
theory RustStr
  imports Value
begin

text \<open>
  What the builtin functions use of Rust's \<open>str\<close>: byte slices, which panic off a character
  boundary, the parsers \<open>i64::from_str_radix\<close>, \<open>str::parse::<i64>\<close> and \<open>str::parse::<f64>\<close>, and the
  formats \<open>{:x}\<close>, \<open>{:o}\<close> and \<open>{:b}\<close>. The lemmas are the laws the builtins rest on: printing and parsing
  in one radix are inverse to each other.
\<close>

section \<open>Slices\<close>

definition is_char_boundary :: "string \<Rightarrow> nat \<Rightarrow> bool" where
  "is_char_boundary s i =
     (i = 0 \<or> i = length s \<or> (i < length s \<and> \<not> is_continuation (s ! i)))"

definition str_slice :: "string \<Rightarrow> nat \<Rightarrow> nat \<Rightarrow> string res" where
  "str_slice s i j =
     (if i \<le> j \<and> j \<le> length s \<and> is_char_boundary s i \<and> is_char_boundary s j
      then Ok (take (j - i) (drop i s)) else Err (RustPanic Bounds))"

section \<open>Integers\<close>

text \<open>\<open>char::to_digit\<close> on a byte: decimal digits, then letters of either case.\<close>

definition to_digit :: "char \<Rightarrow> nat option" where
  "to_digit c =
     (let n = of_char c in
      if 48 \<le> n \<and> n \<le> 57 then Some (n - 48)
      else if 97 \<le> n \<and> n \<le> 122 then Some (n - 87)
      else if 65 \<le> n \<and> n \<le> 90 then Some (n - 55)
      else None)"

fun digits_value :: "nat \<Rightarrow> nat \<Rightarrow> string \<Rightarrow> nat option" where
  "digits_value r acc [] = Some acc"
| "digits_value r acc (c # s) =
     (case to_digit c of
        Some d \<Rightarrow> if d < r then digits_value r (acc * r + d) s else None
      | None \<Rightarrow> None)"

text \<open>
  \<open>i64::from_str_radix\<close> for a radix from 2 to 36: an optional sign, then at least one digit;
  \<open>None\<close> is the \<open>Err\<close> of an empty, invalid or out-of-range literal. Another radix panics.
\<close>

definition str_sign :: "string \<Rightarrow> bool \<times> string" where
  "str_sign s =
     (case s of
        [] \<Rightarrow> (False, s)
      | c # t \<Rightarrow> if c = CHR ''-'' then (True, t) else if c = CHR ''+'' then (False, t) else (False, s))"

definition i64_parse_radix :: "nat \<Rightarrow> string \<Rightarrow> i64 option" where
  "i64_parse_radix r s =
     (let (neg, t) = str_sign s in
      if t = [] then None
      else case digits_value r 0 t of
          None \<Rightarrow> None
        | Some n \<Rightarrow>
            let v = (if neg then - int n else int n) in
            if in_i64 v then Some (word_of_int v) else None)"

definition i64_from_str_radix :: "string \<Rightarrow> nat \<Rightarrow> i64 option res" where
  "i64_from_str_radix s r =
     (if 2 \<le> r \<and> r \<le> 36 then Ok (i64_parse_radix r s)
      else Err (BuiltinPanic ''from_str_radix: radix must lie in the range [2, 36]''))"

text \<open>The formats \<open>{:x}\<close>, \<open>{:o}\<close> and \<open>{:b}\<close> of a natural number.\<close>

definition radix_char :: "nat \<Rightarrow> char" where
  "radix_char d = (if d < 10 then char_of (48 + d) else char_of (87 + d))"

function nat_to_radix :: "nat \<Rightarrow> nat \<Rightarrow> string" where
  "nat_to_radix r n =
     (if r < 2 \<or> n < r then [radix_char n]
      else nat_to_radix r (n div r) @ [radix_char (n mod r)])"
  by pat_completeness auto
termination
  by (relation "measure snd") auto

declare nat_to_radix.simps [simp del]

subsection \<open>Printing and parsing\<close>

lemma to_digit_radix_char: "d < 36 \<Longrightarrow> to_digit (radix_char d) = Some d"
  by (auto simp: to_digit_def radix_char_def Let_def)

lemma radix_char_not_sign: "d < 36 \<Longrightarrow> radix_char d \<noteq> CHR ''-'' \<and> radix_char d \<noteq> CHR ''+''"
  using to_digit_radix_char [of d] by (auto simp: to_digit_def)

lemma digits_value_append:
  "digits_value r acc (s @ t) =
     (case digits_value r acc s of None \<Rightarrow> None | Some a \<Rightarrow> digits_value r a t)"
  by (induction r acc s rule: digits_value.induct) (auto split: option.splits)

lemma digits_value_nat_to_radix:
  assumes "2 \<le> r" "r \<le> 36"
  shows "digits_value r 0 (nat_to_radix r n) = Some n"
  using assms
proof (induction r n rule: nat_to_radix.induct)
  case (1 r n)
  show ?case
  proof (cases "n < r")
    case True
    with 1 show ?thesis by (simp add: nat_to_radix.simps [of r n] to_digit_radix_char)
  next
    case False
    have "n mod r < 36"
      using 1(2,3) mod_less_divisor [of r n] by linarith
    with False 1 show ?thesis
      by (simp add: nat_to_radix.simps [of r n] digits_value_append to_digit_radix_char)
  qed
qed

lemma nat_to_radix_first:
  assumes "2 \<le> r" "r \<le> 36"
  obtains c s where "nat_to_radix r n = c # s" "c \<noteq> CHR ''-''" "c \<noteq> CHR ''+''"
proof -
  have "nat_to_radix r n \<noteq> []" by (subst nat_to_radix.simps) simp
  then obtain c s where cs: "nat_to_radix r n = c # s" by (cases "nat_to_radix r n") auto
  with digits_value_nat_to_radix [OF assms, of n] obtain d where "to_digit c = Some d"
    by (auto split: option.splits)
  then have "c \<noteq> CHR ''-''" "c \<noteq> CHR ''+''" by (auto simp: to_digit_def)
  with cs that show thesis by blast
qed

lemma str_sign_radix:
  assumes "2 \<le> r" "r \<le> 36"
  shows "str_sign (nat_to_radix r n) = (False, nat_to_radix r n)"
    "str_sign (CHR ''-'' # nat_to_radix r n) = (True, nat_to_radix r n)"
    "nat_to_radix r n \<noteq> []"
  by (rule nat_to_radix_first [OF assms, of n]; simp add: str_sign_def)+

lemma i64_parse_print:
  assumes "2 \<le> r" "r \<le> 36"
  shows "i64_parse_radix r
    (if sint v < 0 then CHR ''-'' # nat_to_radix r (nat \<bar>sint v\<bar>) else nat_to_radix r (nat \<bar>sint v\<bar>)) =
    Some v"
  using sint_i64_range [of v]
  by (auto simp: i64_parse_radix_def str_sign_radix [OF assms] digits_value_nat_to_radix [OF assms] Let_def)

lemma radix_char_decimal: "n < 10 \<Longrightarrow> radix_char n = digit_char n"
  by (simp add: radix_char_def digit_char_def)

lemma nat_to_string_radix: "nat_to_string n = nat_to_radix 10 n"
proof (induction n rule: nat_to_string.induct)
  case (1 n)
  then show ?case
    by (simp add: nat_to_string.simps [of n] nat_to_radix.simps [of 10 n] radix_char_decimal)
qed

lemma i64_parse_int_to_string: "i64_parse_radix 10 (int_to_string (sint v)) = Some v"
  using i64_parse_print [of 10 v] by (simp add: int_to_string_def nat_to_string_radix split: if_splits)

section \<open>Floats\<close>

text \<open>
  \<open>str::parse::<f64>\<close>: an optional sign, then \<open>inf\<close>, \<open>infinity\<close> or \<open>nan\<close> in any case, or digits with an
  optional point and an optional exponent, with at least one digit before or after the point. The value
  is the nearest double of the decimal.
\<close>

definition to_lower :: "char \<Rightarrow> char" where
  "to_lower c = (let n = of_char c :: nat in if 65 \<le> n \<and> n \<le> 90 then char_of (n + 32) else c)"

definition is_ascii_digit :: "char \<Rightarrow> bool" where
  "is_ascii_digit c = (48 \<le> (of_char c :: nat) \<and> of_char c \<le> (57 :: nat))"

definition decimal_value :: "bool \<Rightarrow> string \<Rightarrow> int \<Rightarrow> f64" where
  "decimal_value neg ds e =
     (let n = (case digits_value 10 0 ds of Some n \<Rightarrow> int n | None \<Rightarrow> 0) in
      if 0 \<le> e then f64_round neg (n * 10 ^ nat e) 1 0 else f64_round neg n (10 ^ nat (- e)) 0)"

definition f64_parse_exponent :: "string \<Rightarrow> int option" where
  "f64_parse_exponent s =
     (case s of
        [] \<Rightarrow> Some 0
      | c # t \<Rightarrow>
          if to_lower c = CHR ''e'' then
            (let (neg, ds) = str_sign t in
             if ds = [] then None
             else map_option (\<lambda>n. if neg then - int n else int n) (digits_value 10 0 ds))
          else None)"

definition f64_parse_number :: "bool \<Rightarrow> string \<Rightarrow> f64 option" where
  "f64_parse_number neg s =
     (let ip = takeWhile is_ascii_digit s; s1 = dropWhile is_ascii_digit s;
          (fp, s2) =
            (case s1 of
               [] \<Rightarrow> ([], s1)
             | c # t \<Rightarrow>
                 if c = CHR ''.'' then (takeWhile is_ascii_digit t, dropWhile is_ascii_digit t)
                 else ([], s1))
      in if ip @ fp = [] then None
         else map_option (\<lambda>e. decimal_value neg (ip @ fp) (e - int (length fp))) (f64_parse_exponent s2))"

definition f64_parse :: "string \<Rightarrow> f64 option" where
  "f64_parse s =
     (let (neg, t) = str_sign s; l = map to_lower t in
      if l = ''inf'' \<or> l = ''infinity'' then Some (Infinite neg)
      else if l = ''nan'' then Some NaN
      else f64_parse_number neg t)"

text \<open>\<open>f64::abs\<close>, \<open>f64::round\<close> (half away from zero), \<open>is_finite\<close>, and \<open>(v as f32).is_infinite()\<close>.\<close>

fun f64_abs :: "f64 \<Rightarrow> f64" where
  "f64_abs NaN = NaN"
| "f64_abs (Infinite _) = Infinite False"
| "f64_abs (Fin _ m e) = Fin False m e"

fun f64_round_half_away :: "f64 \<Rightarrow> f64" where
  "f64_round_half_away (Fin s m e) =
     (if 0 \<le> e then Fin s m e
      else let q = (2 * m + 2 ^ nat (- e)) div (2 * 2 ^ nat (- e)) in
        f64_exact s (if s then - q else q) 0)"
| "f64_round_half_away x = x"

fun f64_is_finite :: "f64 \<Rightarrow> bool" where
  "f64_is_finite (Fin _ _ _) = True"
| "f64_is_finite _ = False"

fun f64_is_infinite :: "f64 \<Rightarrow> bool" where
  "f64_is_infinite (Infinite _) = True"
| "f64_is_infinite _ = False"

fun f32_is_infinite :: "f64 \<Rightarrow> bool" where
  "f32_is_infinite NaN = False"
| "f32_is_infinite (Infinite _) = True"
| "f32_is_infinite (Fin _ m e) =
     (if 103 \<le> e then 33554431 \<le> m * 2 ^ nat (e - 103)
      else 33554431 * 2 ^ nat (103 - e) \<le> m)"

text \<open>
  \<open>Display\<close> of an \<open>f64\<close>: the decimal with the fewest digits that reads back as the same double, the one
  nearest to it, written without an exponent. \<open>f64_scale10\<close> is the number of digits before the point
  (negative or 0 for a number below 1/10); 17 digits suffice for every double.
\<close>

function int_digits :: "int \<Rightarrow> string" where
  "int_digits n =
     (if n < 10 then [char_of (48 + n)] else int_digits (n div 10) @ [char_of (48 + n mod 10)])"
  by pat_completeness auto
termination
  by (relation "measure nat") auto

declare int_digits.simps [simp del]

definition f64_scale10 :: "int \<Rightarrow> int \<Rightarrow> int" where
  "f64_scale10 n d =
     (if d \<le> n then int (length (int_digits (n div d)))
      else case find (\<lambda>j. d \<le> n * 10 ^ j) [1..<400] of Some j \<Rightarrow> 1 - int j | None \<Rightarrow> - 399)"

definition decimal_digits :: "int \<Rightarrow> int \<Rightarrow> int \<Rightarrow> nat \<Rightarrow> int" where
  "decimal_digits n d k p =
     (let t = int p - k;
          num = (if 0 \<le> t then n * 10 ^ nat t else n);
          den = (if 0 \<le> t then d else d * 10 ^ nat (- t))
      in (2 * num + den) div (2 * den))"

definition show_decimal :: "int \<Rightarrow> int \<Rightarrow> string" where
  "show_decimal q t =
     (if t \<le> 0 then int_digits q @ replicate (nat (- t)) (CHR ''0'')
      else let ds = int_digits q;
               ds = replicate (nat t + 1 - length ds) (CHR ''0'') @ ds;
               i = length ds - nat t
           in take i ds @ ''.'' @ drop i ds)"

fun f64_display :: "f64 \<Rightarrow> string" where
  "f64_display NaN = ''NaN''"
| "f64_display (Infinite s) = (if s then ''-inf'' else ''inf'')"
| "f64_display (Fin s m e) =
     (let n = (if 0 \<le> e then m * 2 ^ nat e else m); d = (if 0 \<le> e then 1 else 2 ^ nat (- e));
          k = f64_scale10 n d;
          p = (case find (\<lambda>p. let t = int p - k in
                 f64_eq (if 0 \<le> t then f64_round s (decimal_digits n d k p) (10 ^ nat t) 0
                         else f64_round s (decimal_digits n d k p * 10 ^ nat (- t)) 1 0) (Fin s m e)) [1..<18]
               of Some p \<Rightarrow> p | None \<Rightarrow> 17)
      in (if s then ''-'' else []) @
         (if m = 0 then ''0'' else show_decimal (decimal_digits n d k p) (int p - k)))"

end
