(* ===== verification/Units.thy ===== *)
theory Units
  imports RustStr
begin

text \<open>
  The number units of KCL (\<open>runtime/src/units/mod.rs\<close>): the decimal suffixes \<open>n u m k K M G T P\<close>
  and the binary suffixes \<open>Ki Mi Gi Ti Pi\<close>. The module computes with them in three ways, as a table of
  factors (\<open>u64_unit_value\<close>), as a power of the base (\<open>to_quantity\<close>, \<open>cal_num\<close>) and as a divisor
  (\<open>to_unit\<close>); the lemmas show that the table and the powers are the same factors.
\<close>

section \<open>Definitions\<close>

datatype to_unit_suffix =
    Suffix_n | Suffix_u | Suffix_m | Suffix_k | Suffix_K | Suffix_M | Suffix_G | Suffix_T | Suffix_P
  | Suffix_Ki | Suffix_Mi | Suffix_Gi | Suffix_Ti | Suffix_Pi

text \<open>The derived \<open>Debug\<close> format prints the name of the variant.\<close>

fun suffix_name :: "to_unit_suffix \<Rightarrow> string" where
  "suffix_name Suffix_n = ''n''"
| "suffix_name Suffix_u = ''u''"
| "suffix_name Suffix_m = ''m''"
| "suffix_name Suffix_k = ''k''"
| "suffix_name Suffix_K = ''K''"
| "suffix_name Suffix_M = ''M''"
| "suffix_name Suffix_G = ''G''"
| "suffix_name Suffix_T = ''T''"
| "suffix_name Suffix_P = ''P''"
| "suffix_name Suffix_Ki = ''Ki''"
| "suffix_name Suffix_Mi = ''Mi''"
| "suffix_name Suffix_Gi = ''Gi''"
| "suffix_name Suffix_Ti = ''Ti''"
| "suffix_name Suffix_Pi = ''Pi''"

definition IEC_SUFFIX :: string where
  "IEC_SUFFIX = ''i''"

definition EXPONENTS :: "(string \<times> int) list" where
  "EXPONENTS =
     [(''n'', - 3), (''u'', - 2), (''m'', - 1), (''k'', 1), (''K'', 1), (''M'', 2), (''G'', 3), (''T'', 4),
      (''P'', 5)]"

definition INVALID_UNITS :: "string list" where
  "INVALID_UNITS = [''ni'', ''ui'', ''mi'', ''ki'']"

definition validate_unit :: "string \<Rightarrow> unit res" where
  "validate_unit unit =
     (if unit = [] \<or> 2 < length unit then Err (BuiltinPanic ''Invalid suffix'')
      else if unit \<in> set INVALID_UNITS then Err (BuiltinPanic ''Invalid suffix'')
      else bind_res (str_slice unit 0 1) (\<lambda>first.
        if map_of EXPONENTS first = None then Err (BuiltinPanic ''Invalid suffix'') else Ok ()))"

definition f64_unit_value :: "string \<Rightarrow> f64" where
  "f64_unit_value unit =
     (if unit = ''n'' then f64_round False 1 (10 ^ 9) 0
      else if unit = ''u'' then f64_round False 1 (10 ^ 6) 0
      else if unit = ''m'' then f64_round False 1 (10 ^ 3) 0
      else f64_of_int 1)"

definition u64_unit_value :: "string \<Rightarrow> int" where
  "u64_unit_value unit =
     (if unit = ''k'' then 1000
      else if unit = ''K'' then 1000
      else if unit = ''M'' then 1000000
      else if unit = ''G'' then 1000000000
      else if unit = ''T'' then 1000000000000
      else if unit = ''P'' then 1000000000000000
      else if unit = ''Ki'' then 1024
      else if unit = ''Mi'' then 1048576
      else if unit = ''Gi'' then 1073741824
      else if unit = ''Ti'' then 1099511627776
      else if unit = ''Pi'' then 1125899906842624
      else 1)"

text \<open>The product of an \<open>i64\<close> and a factor below $2^{51}$ fits an \<open>i128\<close>.\<close>

definition real_uint_value :: "i64 \<Rightarrow> string \<Rightarrow> int" where
  "real_uint_value raw unit = sint raw * u64_unit_value unit"

definition to_unit :: "f64 \<Rightarrow> to_unit_suffix \<Rightarrow> string" where
  "to_unit num suffix =
     (let d = (case suffix of
          Suffix_n \<Rightarrow> f64_round False 1 (10 ^ 9) 0
        | Suffix_u \<Rightarrow> f64_round False 1 (10 ^ 6) 0
        | Suffix_m \<Rightarrow> f64_round False 1 (10 ^ 3) 0
        | Suffix_k \<Rightarrow> f64_of_int (10 ^ 3)
        | Suffix_K \<Rightarrow> f64_of_int (10 ^ 3)
        | Suffix_M \<Rightarrow> f64_of_int (10 ^ 6)
        | Suffix_G \<Rightarrow> f64_of_int (10 ^ 9)
        | Suffix_T \<Rightarrow> f64_of_int (10 ^ 12)
        | Suffix_P \<Rightarrow> f64_of_int (10 ^ 15)
        | Suffix_Ki \<Rightarrow> f64_of_int 1024
        | Suffix_Mi \<Rightarrow> f64_of_int (1024 ^ 2)
        | Suffix_Gi \<Rightarrow> f64_of_int (1024 ^ 3)
        | Suffix_Ti \<Rightarrow> f64_of_int (1024 ^ 4)
        | Suffix_Pi \<Rightarrow> f64_of_int (1024 ^ 5))
      in int_to_string (sint (i64_of_f64 (f64_div num d))) @ suffix_name suffix)"

text \<open>\<open>*exponent as u32\<close> of a negative \<open>i8\<close> wraps to a huge power; \<open>*\<close> and \<open>pow\<close> wrap.\<close>

definition exponent_as_u32 :: "int \<Rightarrow> nat" where
  "exponent_as_u32 e = nat (e mod 4294967296)"

text \<open>The number and the suffix a quantity is split into.\<close>

definition split_quantity :: "string \<Rightarrow> (string \<times> string option) res" where
  "split_quantity quantity =
     (let n = length quantity in
      bind_res (if 2 \<le> n then bind_res (str_slice quantity (n - 1) n) (\<lambda>l. Ok (l = IEC_SUFFIX)) else Ok False)
        (\<lambda>iec.
          if iec then
            bind_res (str_slice quantity (n - 2) (n - 1)) (\<lambda>c.
              if map_of EXPONENTS c \<noteq> None then
                bind_res (str_slice quantity 0 (n - 2)) (\<lambda>number.
                bind_res (str_slice quantity (n - 2) n) (\<lambda>suffix.
                Ok (number, Some suffix)))
              else Ok (quantity, None))
          else if 1 \<le> n then
            bind_res (str_slice quantity (n - 1) n) (\<lambda>c.
              if map_of EXPONENTS c \<noteq> None then
                bind_res (str_slice quantity 0 (n - 1)) (\<lambda>number. Ok (number, Some c))
              else Ok (quantity, None))
          else Ok (quantity, None)))"

definition to_quantity :: "string \<Rightarrow> i64 res" where
  "to_quantity quantity =
     bind_res (split_quantity quantity) (\<lambda>(number, suffix).
       if number = [] then Err (BuiltinPanic ''number can't be empty'')
       else case i64_parse_radix 10 number of
           None \<Rightarrow> Err (RustPanic Unwrap)
         | Some number \<Rightarrow>
             (case suffix of
                None \<Rightarrow> Ok number
              | Some suffix \<Rightarrow>
                  bind_res (str_slice suffix 0 1) (\<lambda>letter.
                  bind_res (validate_unit letter) (\<lambda>_.
                  let base = (if drop (length suffix - 1) suffix = IEC_SUFFIX then 1024 else 1000) in
                  case map_of EXPONENTS letter of
                    None \<Rightarrow> Err (RustPanic Unwrap)
                  | Some exponent \<Rightarrow> Ok (number * base ^ exponent_as_u32 exponent)))))"

definition cal_num :: "(f64 \<Rightarrow> f64 \<Rightarrow> f64) \<Rightarrow> i64 \<Rightarrow> string \<Rightarrow> f64 res" where
  "cal_num powf v unit =
     bind_res (validate_unit unit) (\<lambda>_.
     bind_res (if 1 < length unit then bind_res (str_slice unit 1 2) (\<lambda>i. Ok (i = IEC_SUFFIX)) else Ok False)
       (\<lambda>iec.
         bind_res (if iec then str_slice unit 0 1 else Ok unit) (\<lambda>letter.
           case map_of EXPONENTS letter of
             None \<Rightarrow> Err (BuiltinPanic ''invalid unit'')
           | Some exponent \<Rightarrow>
               Ok (f64_mul (f64_of_i64 v)
                 (powf (f64_of_int (if iec then 1024 else 1000)) (f64_of_int exponent))))))"

section \<open>The factors of a suffix\<close>

definition multiplier_units :: "string list" where
  "multiplier_units =
     [''k'', ''K'', ''M'', ''G'', ''T'', ''P'', ''Ki'', ''Mi'', ''Gi'', ''Ti'', ''Pi'']"

lemma is_continuation_ascii: "of_char c < (128 :: nat) \<Longrightarrow> \<not> is_continuation c"
  by (simp add: is_continuation_def div_eq_dividend_iff)

lemma validate_multiplier: "list_all (\<lambda>u. validate_unit u = Ok ()) multiplier_units"
  by code_simp

text \<open>A printed number followed by a suffix is split where the suffix begins.\<close>

lemma char_boundary_suffix:
  assumes "u \<noteq> []" "\<not> is_continuation (hd u)"
  shows "is_char_boundary (s @ u) (length s)"
  using assms by (auto simp: is_char_boundary_def nth_append hd_conv_nth)

lemma str_slice_suffix:
  assumes "u \<noteq> []" "\<not> is_continuation (hd u)"
  shows "str_slice (s @ u) (length s) (length s + length u) = Ok u"
    "str_slice (s @ u) 0 (length s) = Ok s"
  using char_boundary_suffix [OF assms, of s] by (simp_all add: str_slice_def is_char_boundary_def)

lemma split_quantity_single:
  assumes "map_of EXPONENTS [c] \<noteq> None" "c \<noteq> CHR ''i''" "of_char c < (128 :: nat)"
  shows "split_quantity (s @ [c]) = Ok (s, Some [c])"
  using str_slice_suffix [of "[c]" s] is_continuation_ascii [OF assms(3)] assms(1,2)
  by (simp add: split_quantity_def IEC_SUFFIX_def Let_def)

lemma split_quantity_double:
  assumes "map_of EXPONENTS [c] \<noteq> None" "of_char c < (128 :: nat)"
  shows "split_quantity (s @ [c, CHR ''i'']) = Ok (s, Some [c, CHR ''i''])"
proof -
  have i: "\<not> is_continuation (CHR ''i'')" by (rule is_continuation_ascii) simp
  have c: "\<not> is_continuation c" using is_continuation_ascii [OF assms(2)] .
  have "str_slice (s @ [c, CHR ''i'']) (length s) (length s + 1) = Ok [c]"
    using char_boundary_suffix [of "[c, CHR ''i'']" s] char_boundary_suffix [of "''i''" "s @ [c]"] c i
    by (simp add: str_slice_def)
  moreover have "str_slice (s @ [c, CHR ''i'']) (length s + 1) (length s + 2) = Ok ''i''"
    using str_slice_suffix [of "''i''" "s @ [c]"] i by simp
  ultimately show ?thesis
    using str_slice_suffix [of "[c, CHR ''i'']" s] c assms(1)
    by (simp add: split_quantity_def IEC_SUFFIX_def Let_def numeral_2_eq_2)
qed

lemmas multiplier_simps =
  EXPONENTS_def INVALID_UNITS_def IEC_SUFFIX_def u64_unit_value_def exponent_as_u32_def validate_unit_def
  str_slice_def is_char_boundary_def

lemma multiplier_cases:
  assumes "u \<in> set multiplier_units"
  obtains c where "u = [c]" "c \<in> set ''kKMGTP''" | c where "u = [c, CHR ''i'']" "c \<in> set ''KMGTP''"
  using assms unfolding multiplier_units_def by auto

lemma int_to_string_nonempty: "int_to_string (sint (n :: i64)) \<noteq> []"
  using i64_parse_int_to_string [of n] by (auto simp: i64_parse_radix_def str_sign_def)

lemma to_quantity_single:
  assumes "c \<in> set ''kKMGTP''"
  shows "to_quantity (int_to_string (sint n) @ [c]) = Ok (n * word_of_int (u64_unit_value [c]))"
proof -
  have "split_quantity (int_to_string (sint n) @ [c]) = Ok (int_to_string (sint n), Some [c])"
    by (rule split_quantity_single) (use assms in \<open>auto simp: EXPONENTS_def\<close>)
  moreover have "c = CHR ''k'' \<or> c = CHR ''K'' \<or> c = CHR ''M'' \<or> c = CHR ''G'' \<or> c = CHR ''T'' \<or> c = CHR ''P''"
    using assms by simp
  ultimately show ?thesis using int_to_string_nonempty [of n]
    by (elim disjE; simp add: to_quantity_def i64_parse_int_to_string multiplier_simps)
qed

lemma to_quantity_double:
  assumes "c \<in> set ''KMGTP''"
  shows "to_quantity (int_to_string (sint n) @ [c, CHR ''i'']) =
    Ok (n * word_of_int (u64_unit_value [c, CHR ''i'']))"
proof -
  have "split_quantity (int_to_string (sint n) @ [c, CHR ''i'']) =
      Ok (int_to_string (sint n), Some [c, CHR ''i''])"
    by (rule split_quantity_double) (use assms in \<open>auto simp: EXPONENTS_def\<close>)
  moreover have "c = CHR ''K'' \<or> c = CHR ''M'' \<or> c = CHR ''G'' \<or> c = CHR ''T'' \<or> c = CHR ''P''"
    using assms by simp
  ultimately show ?thesis using int_to_string_nonempty [of n]
    by (elim disjE; simp add: to_quantity_def i64_parse_int_to_string multiplier_simps is_continuation_def)
qed

lemma word_of_real_uint_value: "word_of_int (real_uint_value n u) = n * word_of_int (u64_unit_value u)"
  by (simp add: real_uint_value_def flip: wi_hom_mult)

section \<open>Properties\<close>

text \<open>C36: reading the quantity printed as a number and a multiplier suffix gives the value of the unit
  literal with that number and suffix: \<open>to_quantity\<close>, which raises the base to the exponent, and
  \<open>real_uint_value\<close>, which looks the factor up in a table, agree on every suffix from \<open>k\<close> to \<open>Pi\<close>, modulo
  $2^{64}$ as the \<open>i64\<close> product wraps.\<close>

theorem quantity_agrees_with_unit_table:
  assumes "u \<in> set multiplier_units"
  shows "to_quantity (int_to_string (sint n) @ u) = Ok (word_of_int (real_uint_value n u))"
  using assms
  by (rule multiplier_cases) (simp_all add: word_of_real_uint_value to_quantity_single to_quantity_double)

theorem quantity_agrees_with_unit_table_witness:
  "to_quantity ''3Ki'' = Ok 3072"
proof -
  have "to_quantity (int_to_string (sint (3 :: i64)) @ ''Ki'') = Ok (word_of_int (real_uint_value 3 ''Ki''))"
    by (rule quantity_agrees_with_unit_table) (simp add: multiplier_units_def)
  moreover have "int_to_string (sint (3 :: i64)) = ''3''" by code_simp
  moreover have "(word_of_int (real_uint_value 3 ''Ki'') :: i64) = 3072" by code_simp
  ultimately show ?thesis by simp
qed

end
