(* ===== verification/ValueBuiltin.thy ===== *)
theory ValueBuiltin
  imports Units ValueIter ValueBin "HOL-Library.Multiset"
begin

text \<open>
  The builtin functions of the language (\<open>runtime/src/stdlib/builtin.rs\<close>): truth over collections,
  uniqueness, sorting, extrema, conversions and printing of numbers, sums, ranges, powers and rounding.
  \<open>sort\<close> and \<open>sort_by\<close> of the standard library are stable; the model sorts by insertion, which makes the
  same list of it and, like every comparison sort, panics when two of the values cannot be compared.
  The float powers are the argument \<open>powf\<close> and the hash function of a \<open>HashSet\<close> the argument \<open>hasher\<close>,
  both left open by the standard library.
\<close>

section \<open>Truth values of collections\<close>

fun any_true :: "val \<Rightarrow> bool" where
  "any_true (list_value xs) = list_ex is_truthy xs"
| "any_true (dict_value d) = list_ex (\<lambda>(_, x). is_truthy x) (dv_values d)"
| "any_true (schema_value s) = list_ex (\<lambda>(_, x). is_truthy x) (dv_values (sv_config s))"
| "any_true _ = False"

fun all_true :: "val \<Rightarrow> bool" where
  "all_true (list_value xs) = list_all is_truthy xs"
| "all_true (dict_value d) = list_all (\<lambda>(_, x). is_truthy x) (dv_values d)"
| "all_true (schema_value s) = (\<not> list_ex (\<lambda>(_, x). is_truthy x) (dv_values (sv_config s)))"
| "all_true _ = False"

section \<open>Uniqueness\<close>

text \<open>What \<open>Hash for ValueRef\<close> writes to a hasher, write by write.\<close>

datatype hash_write = WriteI32 int | WriteU64 "64 word" | WriteI64 i64 | WriteBool bool | WriteStr string

text \<open>\<open>f64::to_bits\<close>; mantissas of at least $2^{52}$ are normal, the others subnormal.\<close>

fun f64_to_bits :: "f64 \<Rightarrow> 64 word" where
  "f64_to_bits NaN = 9221120237041090560"
| "f64_to_bits (Infinite s) = (if s then 18442240474082181120 else 9218868437227405312)"
| "f64_to_bits (Fin s m e) =
     word_of_int ((if s then 2 ^ 63 else 0) +
       (if 2 ^ 52 \<le> m then (e + 1075) * 2 ^ 52 + (m - 2 ^ 52) else m))"

fun hash_val :: "val \<Rightarrow> hash_write list" where
  "hash_val undefined_value = [WriteI32 0]"
| "hash_val none_value = [WriteI32 0]"
| "hash_val (int_value v) = [WriteU64 (f64_to_bits (f64_of_i64 v))]"
| "hash_val (unit_value _ raw unit) = [WriteI64 raw, WriteStr unit]"
| "hash_val (float_value v) = [WriteU64 (f64_to_bits v)]"
| "hash_val (bool_value v) = [WriteBool v]"
| "hash_val (str_value v) = [WriteStr v]"
| "hash_val (list_value vs) = concat (map hash_val vs)"
| "hash_val (dict_value (DictValue vs ops idx am ps)) =
     concat (map (\<lambda>(k, v). WriteStr k # hash_val v) vs)"
| "hash_val (schema_value (SchemaValue nm pk (DictValue vs ops idx am ps) ks mt om ar kw)) =
     concat (map (\<lambda>(k, v). WriteStr k # hash_val v) vs)"
| "hash_val (func_value f) = [WriteU64 (fv_fn_ptr f)]"

definition set_contains :: "(hash_write list \<Rightarrow> 64 word) \<Rightarrow> val list \<Rightarrow> val \<Rightarrow> bool" where
  "set_contains hasher seen x =
     list_ex (\<lambda>y. hasher (hash_val y) = hasher (hash_val x) \<and> cmp_equal x y) seen"

fun isunique_loop :: "(hash_write list \<Rightarrow> 64 word) \<Rightarrow> val list \<Rightarrow> val list \<Rightarrow> bool" where
  "isunique_loop hasher seen [] = True"
| "isunique_loop hasher seen (x # xs) =
     (if set_contains hasher seen x then False else isunique_loop hasher (x # seen) xs)"

fun isunique :: "(hash_write list \<Rightarrow> 64 word) \<Rightarrow> val \<Rightarrow> bool" where
  "isunique hasher (list_value xs) = isunique_loop hasher [] xs"
| "isunique hasher _ = False"

section \<open>Sorting and extrema\<close>

fun sort_insert :: "('a \<Rightarrow> 'a \<Rightarrow> ordering res) \<Rightarrow> 'a \<Rightarrow> 'a list \<Rightarrow> 'a list res" where
  "sort_insert cmp x [] = Ok [x]"
| "sort_insert cmp x (y # ys) =
     bind_res (cmp y x) (\<lambda>ord.
       if ord = Greater \<or> ord = Equal then Ok (x # y # ys)
       else bind_res (sort_insert cmp x ys) (\<lambda>zs. Ok (y # zs)))"

fun sort_by :: "('a \<Rightarrow> 'a \<Rightarrow> ordering res) \<Rightarrow> 'a list \<Rightarrow> 'a list res" where
  "sort_by cmp [] = Ok []"
| "sort_by cmp (x # xs) = bind_res (sort_by cmp xs) (sort_insert cmp x)"

definition sort_values :: "bool \<Rightarrow> val list \<Rightarrow> val res" where
  "sort_values reverse xs =
     bind_res (sort_by (if reverse then \<lambda>a b. val_cmp b a else val_cmp) xs) (\<lambda>ys. Ok (list_value ys))"

definition sorted_builtin :: "val \<Rightarrow> val option \<Rightarrow> val res" where
  "sorted_builtin v reverse =
     (let rev = (case reverse of Some r \<Rightarrow> as_bool r | None \<Rightarrow> False) in
      case v of
        str_value s \<Rightarrow> sort_values rev (map str_value (str_chars s))
      | list_value _ \<Rightarrow> sort_values rev (list_items (deep_copy v))
      | dict_value d \<Rightarrow> sort_values rev (map str_value (imap_keys (dv_values d)))
      | _ \<Rightarrow> Err (BuiltinPanic ''sorted only for str|list|dict type''))"

fun filter_loop :: "('a \<Rightarrow> 'a \<Rightarrow> bool res) \<Rightarrow> 'a \<Rightarrow> 'a list \<Rightarrow> 'a res" where
  "filter_loop better result [] = Ok result"
| "filter_loop better result (x # xs) =
     bind_res (better x result) (\<lambda>b. filter_loop better (if b then x else result) xs)"

definition filter_items :: "string \<Rightarrow> (val \<Rightarrow> val \<Rightarrow> bool res) \<Rightarrow> val list \<Rightarrow> val res" where
  "filter_items msg better xs =
     (case xs of [] \<Rightarrow> Err (BuiltinPanic msg) | x # _ \<Rightarrow> filter_loop better x xs)"

definition filter_builtin :: "val \<Rightarrow> (val \<Rightarrow> val \<Rightarrow> bool res) \<Rightarrow> val res" where
  "filter_builtin v better =
     (case v of
        str_value s \<Rightarrow> filter_items ''arg is an empty str'' better (map str_value (str_chars s))
      | list_value xs \<Rightarrow> filter_items ''arg is an empty list'' better xs
      | dict_value d \<Rightarrow>
          filter_items ''arg is an empty dict'' better (map str_value (imap_keys (dv_values d)))
      | schema_value s \<Rightarrow>
          filter_items ''arg is an empty dict'' better (map str_value (imap_keys (dv_values (sv_config s))))
      | _ \<Rightarrow> Err (NotIterable (type_str v)))"

definition max_value :: "val \<Rightarrow> val res" where
  "max_value v = filter_builtin v cmp_greater_than"

definition min_value :: "val \<Rightarrow> val res" where
  "min_value v = filter_builtin v cmp_less_than"

section \<open>Conversions\<close>

definition convert_to_int :: "context_config \<Rightarrow> val \<Rightarrow> val option \<Rightarrow> val res" where
  "convert_to_int cfg v base =
     (case v of
        int_value a \<Rightarrow> Ok (int_value a)
      | float_value a \<Rightarrow> Ok (int_value (i64_of_f64 a))
      | unit_value r raw unit \<Rightarrow>
          let real = real_uint_value raw unit in
          if debug_mode cfg \<and> strict_32 cfg \<and> \<not> in_i32 real then Err (IntOverflow32 real)
          else if debug_mode cfg \<and> strict_64 cfg \<and> \<not> in_i64 real then Err (IntOverflow64 real)
          else Ok (int_value (i64_of_f64 r))
      | bool_value b \<Rightarrow> Ok (int_value (i64_of_bool b))
      | str_value s \<Rightarrow>
          let radix = (case base of Some b \<Rightarrow> as_int b | None \<Rightarrow> 10) in
          bind_res (to_quantity s) (\<lambda>q.
          bind_res (i64_from_str_radix (int_to_string (sint q)) (as_u32 radix)) (\<lambda>r.
            case r of
              None \<Rightarrow> Err (BuiltinPanic ''invalid literal for int()'')
            | Some n \<Rightarrow> Ok (int_value n)))
      | _ \<Rightarrow> Err (BuiltinPanic ''int() argument must be a string or a number''))"

definition check_float :: "context_config \<Rightarrow> f64 \<Rightarrow> val res" where
  "check_float cfg a =
     (if strict_32 cfg \<and> f32_is_infinite a then
        Err (BuiltinPanic ''inf: A 32-bit floating point number overflow'')
      else if strict_64 cfg \<and> f64_is_infinite a then
        Err (BuiltinPanic ''inf: A 64-bit floating point number overflow'')
      else Ok (float_value a))"

definition convert_to_float :: "context_config \<Rightarrow> val \<Rightarrow> val res" where
  "convert_to_float cfg v =
     (case v of
        int_value a \<Rightarrow> Ok (float_value (f64_of_i64 a))
      | float_value a \<Rightarrow> check_float cfg a
      | unit_value r _ _ \<Rightarrow> Ok (float_value r)
      | bool_value b \<Rightarrow> Ok (float_value (f64_of_i64 (i64_of_bool b)))
      | str_value s \<Rightarrow>
          (case f64_parse s of
             None \<Rightarrow> Err (BuiltinPanic ''invalid literal for float()'')
           | Some a \<Rightarrow> check_float cfg a)
      | _ \<Rightarrow> Err (BuiltinPanic ''invalid literal for float()''))"

text \<open>\<open>val.abs()\<close> wraps at \<open>i64::MIN\<close>, a case the callers below treat first.\<close>

definition i64_abs :: "i64 \<Rightarrow> i64" where
  "i64_abs a = (if sint a < 0 then - a else a)"

definition radix_str :: "string \<Rightarrow> string \<Rightarrow> nat \<Rightarrow> i64 \<Rightarrow> string" where
  "radix_str prefix min_str r a =
     (if a = i64_MIN then min_str
      else if 0 \<le> sint a then prefix @ nat_to_radix r (unat (i64_abs a))
      else ''-'' @ prefix @ nat_to_radix r (unat (i64_abs a)))"

definition hex :: "val \<Rightarrow> val" where
  "hex v =
     (case v of
        int_value a \<Rightarrow> str_value (radix_str ''0x'' ''-0x8000000000000000'' 16 a)
      | _ \<Rightarrow> undefined_value)"

definition oct :: "val \<Rightarrow> val" where
  "oct v =
     (case v of
        int_value a \<Rightarrow> str_value (radix_str ''0o'' ''-01000000000000000000000'' 8 a)
      | _ \<Rightarrow> undefined_value)"

definition bin :: "val \<Rightarrow> val" where
  "bin v =
     (case v of
        int_value a \<Rightarrow>
          str_value (radix_str ''0b''
            ''-0b1000000000000000000000000000000000000000000000000000000000000000'' 2 a)
      | _ \<Rightarrow> undefined_value)"

section \<open>Arithmetic over collections\<close>

definition sum_builtin :: "context_config \<Rightarrow> val \<Rightarrow> val \<Rightarrow> val res" where
  "sum_builtin cfg v init =
     (case v of
        list_value xs \<Rightarrow>
          if is_str init then Err (BuiltinPanic ''sum() can't sum strings'')
          else foldl (\<lambda>acc x. bind_res acc (\<lambda>r. bin_add cfg r x)) (Ok init) xs
      | _ \<Rightarrow> Ok undefined_value)"

definition abs_builtin :: "val \<Rightarrow> val" where
  "abs_builtin v =
     (case v of
        int_value a \<Rightarrow> int_value (i64_abs a)
      | float_value a \<Rightarrow> float_value (f64_abs a)
      | _ \<Rightarrow> undefined_value)"

text \<open>The code point of the bytes of one character.\<close>

fun char_code :: "string \<Rightarrow> nat" where
  "char_code [] = 0"
| "char_code [a] = of_char a"
| "char_code [a, b] = (of_char a mod 32) * 64 + of_char b mod 64"
| "char_code [a, b, c] = ((of_char a mod 16) * 64 + of_char b mod 64) * 64 + of_char c mod 64"
| "char_code (a # b # c # d # _) =
     (((of_char a mod 8) * 64 + of_char b mod 64) * 64 + of_char c mod 64) * 64 + of_char d mod 64"

definition ord_builtin :: "val \<Rightarrow> val res" where
  "ord_builtin v =
     (case v of
        str_value s \<Rightarrow>
          (case str_chars s of
             [c] \<Rightarrow> Ok (int_value (word_of_nat (char_code c)))
           | _ \<Rightarrow> Err (BuiltinPanic ''ord() expected string of length 1''))
      | _ \<Rightarrow> Ok undefined_value)"

section \<open>Iterables\<close>

text \<open>
  One pass of the inner loop of \<open>zip\<close> over the iterators from number \<open>i\<close> on: \<open>Inl\<close> is the early return
  with the finished rows, \<open>Inr\<close> the iterators after the pass and the rows so far.
\<close>

fun zip_row :: "nat \<Rightarrow> nat \<Rightarrow> val list \<Rightarrow> value_iterator list \<Rightarrow> val list list \<Rightarrow>
    (val list list + value_iterator list \<times> val list list) res" where
  "zip_row i pre_len (h # hs) (it # its) rows =
     (if is_end it then Ok (Inl (if i \<noteq> 0 then butlast rows else rows))
      else
        let rows = (if length rows \<le> pre_len then rows @ [[]] else rows) in
        bind_res (iter_next h it) (\<lambda>(r, it').
          case r of
            None \<Rightarrow> Err (RustPanic Unwrap)
          | Some x \<Rightarrow>
              bind_res (zip_row (Suc i) pre_len hs its (rows[pre_len := rows ! pre_len @ [x]])) (\<lambda>s.
                Ok (case s of Inl rows \<Rightarrow> Inl rows | Inr (its', rows) \<Rightarrow> Inr (it' # its', rows)))))"
| "zip_row i pre_len _ _ rows = Ok (Inr ([], rows))"

partial_function (option) zip_loop ::
    "val list \<Rightarrow> nat \<Rightarrow> value_iterator list \<Rightarrow> val list list \<Rightarrow> val res option" where
  "zip_loop hosts pre_len its rows =
     (case zip_row 0 pre_len hosts its rows of
        Inl e \<Rightarrow> Some (Err e)
      | Inr (Inl rows) \<Rightarrow> Some (Ok (list_value (map list_value rows)))
      | Inr (Inr (its, rows)) \<Rightarrow> zip_loop hosts (Suc pre_len) its rows)"

fun from_values :: "val list \<Rightarrow> value_iterator list res" where
  "from_values [] = Ok []"
| "from_values (v # vs) =
     bind_res (from_value v) (\<lambda>it. bind_res (from_values vs) (\<lambda>its. Ok (it # its)))"

definition zip_builtin :: "val \<Rightarrow> val res option" where
  "zip_builtin v =
     (case v of
        list_value xs \<Rightarrow>
          (case from_values xs of Inl e \<Rightarrow> Some (Err e) | Inr its \<Rightarrow> zip_loop xs 0 its [])
      | _ \<Rightarrow> Some (Ok undefined_value))"

partial_function (option) list_loop :: "val \<Rightarrow> value_iterator \<Rightarrow> val list \<Rightarrow> val res option" where
  "list_loop v it acc =
     (if is_end it then Some (Ok (list_value acc))
      else case iter_next v it of
          Inl e \<Rightarrow> Some (Err e)
        | Inr (None, _) \<Rightarrow> Some (Err (RustPanic Unwrap))
        | Inr (Some x, it') \<Rightarrow> list_loop v it' (acc @ [x]))"

definition list_builtin :: "val option \<Rightarrow> val res option" where
  "list_builtin arg =
     (case arg of
        None \<Rightarrow> Some (Ok (list_value []))
      | Some v \<Rightarrow>
          (case from_value v of Inl e \<Rightarrow> Some (Err e) | Inr it \<Rightarrow> list_loop v it []))"

section \<open>Ranges\<close>

text \<open>\<open>cur += step\<close> wraps, so a range whose last step leaves \<open>i64\<close> does not end: \<open>None\<close>.\<close>

partial_function (option) range_loop :: "i64 \<Rightarrow> i64 \<Rightarrow> i64 \<Rightarrow> val list \<Rightarrow> val list option" where
  "range_loop stop step cur acc =
     (if (if 0 < sint step then sint cur < sint stop else sint stop < sint cur)
      then range_loop stop step (cur + step) (acc @ [int_value cur]) else Some acc)"

definition range_builtin :: "val \<Rightarrow> val \<Rightarrow> val \<Rightarrow> val res option" where
  "range_builtin start stop step =
     (case (start, stop, step) of
        (int_value s, int_value e, int_value d) \<Rightarrow>
          if d = 0 then Some (Err (BuiltinPanic ''range() step argument must not be zero''))
          else map_option (\<lambda>xs. Ok (list_value xs)) (range_loop e d s [])
      | _ \<Rightarrow> Some (Ok undefined_value))"

section \<open>Divisibility, powers, rounding\<close>

definition multiplyof :: "val \<Rightarrow> val \<Rightarrow> val res" where
  "multiplyof a b =
     (case (a, b) of
        (int_value a, int_value b) \<Rightarrow>
          (case i64_rem a b of None \<Rightarrow> Err (RustPanic Arith) | Some r \<Rightarrow> Ok (bool_value (r = 0)))
      | _ \<Rightarrow> Ok undefined_value)"

function pow_loop :: "int \<Rightarrow> int \<Rightarrow> int \<Rightarrow> int \<Rightarrow> int" where
  "pow_loop m ans base e =
     (if 0 < e then
        pow_loop m (if e mod 2 = 1 then i128_wrap (ans * base) smod m else ans)
          (i128_wrap (base * base) smod m) (e div 2)
      else ans)"
  by pat_completeness auto
termination
  by (relation "measure (\<lambda>(m, ans, base, e). nat e)") auto

declare pow_loop.simps [simp del]

definition pow_builtin :: "(f64 \<Rightarrow> f64 \<Rightarrow> f64) \<Rightarrow> val \<Rightarrow> val \<Rightarrow> val \<Rightarrow> val res" where
  "pow_builtin powf x y z =
     (case z of
        int_value z \<Rightarrow>
          if z = 0 then Err (BuiltinPanic ''pow() 3rd argument cannot be 0'')
          else (case (x, y) of
              (int_value x, int_value y) \<Rightarrow>
                if y = 0 then Ok (int_value 1)
                else if 0 < sint y then
                  Ok (int_value (word_of_int (pow_loop (sint z) 1 (sint x) (sint y))))
                else Err (BuiltinPanic ''pow() 2nd argument cannot be negative'')
            | _ \<Rightarrow> Err (BuiltinPanic ''pow() 3rd argument not allowed''))
      | _ \<Rightarrow>
          (case (x, y) of
             (int_value x, int_value y) \<Rightarrow>
               if 0 \<le> sint y then Ok (int_value (i64_of_f64 (powf (f64_of_i64 x) (f64_of_i64 y))))
               else Ok (float_value (powf (f64_of_i64 x) (f64_of_i64 y)))
           | (int_value x, float_value y) \<Rightarrow> Ok (float_value (powf (f64_of_i64 x) y))
           | (float_value x, int_value y) \<Rightarrow> Ok (float_value (powf x (f64_of_i64 y)))
           | (float_value x, float_value y) \<Rightarrow> Ok (float_value (powf x y))
           | _ \<Rightarrow> Ok undefined_value))"

definition round_ties :: "f64 \<Rightarrow> f64" where
  "round_ties y =
     (let z = f64_round_half_away y in
      if f64_eq (f64_abs (f64_sub y z)) (f64_round False 1 2 0)
      then f64_mul (f64_of_int 2) (f64_round_half_away (f64_div y (f64_of_int 2))) else z)"

definition round_digits :: "(f64 \<Rightarrow> f64 \<Rightarrow> f64) \<Rightarrow> f64 \<Rightarrow> i64 \<Rightarrow> val" where
  "round_digits powf number nd =
     (if nd = 0 then float_value (f64_round_half_away number)
      else if 0 \<le> sint nd then
        let pow1 = powf (f64_of_int 10) (f64_of_i64 (if 22 < sint nd then nd - 22 else nd));
            pow2 = f64_of_int (if 22 < sint nd then 10 ^ 22 else 1);
            y = f64_mul (f64_mul number pow1) pow2
        in if \<not> f64_is_finite y then float_value number
           else let z = f64_div (f64_div (round_ties y) pow2) pow1 in
             if \<not> f64_is_finite z then undefined_value else float_value z
      else
        let pow1 = powf (f64_of_int 10) (f64_of_i64 (- nd));
            z = f64_mul (round_ties (f64_div number pow1)) pow1
        in if \<not> f64_is_finite z then undefined_value else float_value z)"

definition round_builtin :: "(f64 \<Rightarrow> f64 \<Rightarrow> f64) \<Rightarrow> val \<Rightarrow> val \<Rightarrow> val" where
  "round_builtin powf number ndigits =
     (case ndigits of
        int_value nd \<Rightarrow>
          (case number of
             int_value a \<Rightarrow> float_value (f64_of_i64 a)
           | float_value a \<Rightarrow> round_digits powf a nd
           | _ \<Rightarrow> undefined_value)
      | _ \<Rightarrow>
          (case number of
             int_value a \<Rightarrow> int_value a
           | float_value a \<Rightarrow> int_value (i64_of_f64 (f64_round_half_away a))
           | _ \<Rightarrow> undefined_value))"

section \<open>Sorting sorts\<close>

text \<open>
  A comparison that is total on the values of a carrier. The clients are \<open>sort\<close> and \<open>filter\<close>; the
  providers are the comparisons of integers, strings and floats below.
\<close>

locale total_cmp =
  fixes carrier :: "'a \<Rightarrow> bool" and cmp :: "'a \<Rightarrow> 'a \<Rightarrow> ordering res"
  assumes cmp_total: "carrier x \<Longrightarrow> carrier y \<Longrightarrow> \<exists>ord. cmp x y = Ok ord"
    and cmp_swap: "carrier x \<Longrightarrow> carrier y \<Longrightarrow> cmp x y = Ok Less \<longleftrightarrow> cmp y x = Ok Greater"
    and cmp_trans: "carrier x \<Longrightarrow> carrier y \<Longrightarrow> carrier z \<Longrightarrow>
      cmp x y \<noteq> Ok Greater \<Longrightarrow> cmp y z \<noteq> Ok Greater \<Longrightarrow> cmp x z \<noteq> Ok Greater"
begin

abbreviation le :: "'a \<Rightarrow> 'a \<Rightarrow> bool" where
  "le x y \<equiv> cmp x y \<noteq> Ok Greater"

lemma le_trans: "carrier x \<Longrightarrow> carrier y \<Longrightarrow> carrier z \<Longrightarrow> le x y \<Longrightarrow> le y z \<Longrightarrow> le x z"
  by (rule cmp_trans)

lemma le_linear: "carrier x \<Longrightarrow> carrier y \<Longrightarrow> \<not> le x y \<Longrightarrow> le y x"
  using cmp_swap [of x y] cmp_swap [of y x] by auto

lemma sort_insert_Ok:
  assumes "carrier x" "list_all carrier ys" "sorted_wrt le ys"
  shows "\<exists>zs. sort_insert cmp x ys = Ok zs \<and> mset zs = add_mset x (mset ys) \<and> sorted_wrt le zs"
  using assms
proof (induction ys)
  case (Cons y ys)
  then have y: "carrier y" and ys: "list_all carrier ys" "sorted_wrt le ys" "list_all (le y) ys"
    by (auto simp: list_all_iff)
  obtain ord where ord: "cmp y x = Ok ord" using cmp_total [OF y Cons.prems(1)] by blast
  show ?case
  proof (cases "ord = Less")
    case False
    then have xy: "le x y"
      using ord cmp_swap [OF y Cons.prems(1)] by auto
    then have "list_all (le x) ys"
      using ys y Cons.prems(1) le_trans [of x y] by (auto simp: list_all_iff)
    with False ord xy Cons.prems show ?thesis by (cases ord) (auto simp: list_all_iff)
  next
    case True
    with ord have yx: "le y x" by simp
    from Cons.IH [OF Cons.prems(1) ys(1,2)] obtain zs where
      zs: "sort_insert cmp x ys = Ok zs" "mset zs = add_mset x (mset ys)" "sorted_wrt le zs" by blast
    have "set zs = insert x (set ys)"
      using arg_cong [OF zs(2), of set_mset] by simp
    with zs ys yx True ord show ?thesis by (auto simp: list_all_iff)
  qed
qed simp

lemma sort_by_Ok:
  assumes "list_all carrier xs"
  shows "\<exists>ys. sort_by cmp xs = Ok ys \<and> mset ys = mset xs \<and> sorted_wrt le ys"
  using assms
proof (induction xs)
  case (Cons x xs)
  then obtain ys where ys: "sort_by cmp xs = Ok ys" "mset ys = mset xs" "sorted_wrt le ys" by auto
  then have "list_all carrier ys"
    using Cons.prems mset_eq_setD [of ys xs] by (auto simp: list_all_iff)
  with sort_insert_Ok [of x ys] ys Cons.prems show ?case by auto
qed simp

lemma filter_loop_Ok:
  assumes "\<And>x y. carrier x \<Longrightarrow> carrier y \<Longrightarrow> better x y = Ok (cmp x y = Ok Greater)"
    and "carrier r" "list_all carrier xs"
  shows "\<exists>m. filter_loop better r xs = Ok m \<and> m \<in> set (r # xs) \<and> list_all (\<lambda>x. le x m) (r # xs)"
  using assms(2,3)
proof (induction xs arbitrary: r)
  case Nil
  then show ?case using le_linear [of r r] by auto
next
  case (Cons x xs)
  let ?r = "if cmp x r = Ok Greater then x else r"
  have cs: "carrier r" "carrier x" "list_all carrier xs" "carrier ?r" using Cons.prems by auto
  have up: "le r ?r" "le x ?r"
    using le_linear [of x r] le_linear [of r r] le_linear [of x x] cs by auto
  obtain m where m: "filter_loop better ?r xs = Ok m" "m \<in> set (?r # xs)" "list_all (\<lambda>y. le y m) (?r # xs)"
    using Cons.IH [OF cs(4,3)] by blast
  then have "carrier m" using cs by (auto simp: list_all_iff)
  with m(3) up cs have "le r m" "le x m"
    using le_trans [of r ?r m] le_trans [of x ?r m] by (auto simp del: if_split)
  moreover have "filter_loop better r (x # xs) = Ok m"
    using m(1) assms(1) [OF cs(2,1)] by simp
  moreover have "m \<in> set (r # x # xs)" using m(2) by (auto split: if_splits)
  ultimately show ?case using m(3) by auto
qed

text \<open>Comparing the other way round is a total comparison too, and its order is the converse.\<close>

lemma converse: "total_cmp carrier (\<lambda>a b. cmp b a)"
proof
  show "carrier x \<Longrightarrow> carrier y \<Longrightarrow> \<exists>ord. cmp y x = Ok ord" for x y by (rule cmp_total)
  show "carrier x \<Longrightarrow> carrier y \<Longrightarrow> cmp y x = Ok Less \<longleftrightarrow> cmp x y = Ok Greater" for x y
    by (rule cmp_swap)
  show "carrier x \<Longrightarrow> carrier y \<Longrightarrow> carrier z \<Longrightarrow> cmp y x \<noteq> Ok Greater \<Longrightarrow> cmp z y \<noteq> Ok Greater \<Longrightarrow>
      cmp z x \<noteq> Ok Greater" for x y z by (rule cmp_trans)
qed

end

text \<open>Integers, strings, and floats that are numbers.\<close>

definition is_ordered_float :: "val \<Rightarrow> bool" where
  "is_ordered_float v = (case v of float_value a \<Rightarrow> a \<noteq> NaN | _ \<Rightarrow> False)"

lemma f64_trichotomy: "a \<noteq> NaN \<Longrightarrow> b \<noteq> NaN \<Longrightarrow> f64_lt a b \<or> f64_eq a b \<or> f64_lt b a"
  by (cases a; cases b) (auto simp: min.commute)

lemma f64_not_lt_trans:
  assumes "x \<noteq> NaN" "y \<noteq> NaN" "z \<noteq> NaN" "\<not> f64_lt y x" "\<not> f64_lt z y"
  shows "\<not> f64_lt z x"
proof (cases "\<exists>s1 m1 e1 s2 m2 e2 s3 m3 e3. x = Fin s1 m1 e1 \<and> y = Fin s2 m2 e2 \<and> z = Fin s3 m3 e3")
  case True
  then obtain s1 m1 e1 s2 m2 e2 s3 m3 e3 where
    xyz: "x = Fin s1 m1 e1" "y = Fin s2 m2 e2" "z = Fin s3 m3 e3" by blast
  define e0 where "e0 = min e1 (min e2 e3)"
  have le: "e0 \<le> min e2 e1" "e0 \<le> min e3 e2" "e0 \<le> min e3 e1"
    by (auto simp: e0_def min_def)
  show ?thesis
    using assms(4,5) xyz f64_scaled_less_iff [OF le(1)] f64_scaled_less_iff [OF le(2)]
      f64_scaled_less_iff [OF le(3)] by auto
next
  case False
  with assms show ?thesis by (cases x; cases y; cases z) auto
qed

lemma val_cmp_ints:
  "val_cmp (int_value a) (int_value b) =
     Ok (if sint a < sint b then Less else if sint b < sint a then Greater else Equal)"
  by (auto simp: val_cmp_def i64_cmp_def i64_eq_iff)

lemma val_cmp_strs:
  "val_cmp (str_value a) (str_value b) =
     Ok (if str_lt a b then Less else if str_lt b a then Greater else Equal)"
  using str_lt_linear [of a b] str_lt_trans [of a b a] by (auto simp: val_cmp_def str_cmp_def)

lemma val_cmp_floats:
  "a \<noteq> NaN \<Longrightarrow> b \<noteq> NaN \<Longrightarrow> val_cmp (float_value a) (float_value b) =
     Ok (if f64_lt a b then Less else if f64_lt b a then Greater else Equal)"
  using f64_trichotomy [of a b] f64_lt_asym [of a b] f64_lt_not_eq [of b a] f64_eq_sym [of a b]
  by (auto simp: val_cmp_def f64_partial_cmp_def)

lemma is_int_iff: "is_int v \<longleftrightarrow> (\<exists>a. v = int_value a)"
  by (cases v) (auto simp: is_int_def)

lemma is_str_iff: "is_str v \<longleftrightarrow> (\<exists>a. v = str_value a)"
  by (cases v) (auto simp: is_str_def)

lemma is_ordered_float_iff: "is_ordered_float v \<longleftrightarrow> (\<exists>a. v = float_value a \<and> a \<noteq> NaN)"
  by (cases v) (auto simp: is_ordered_float_def)

lemma str_lt_asym: "str_lt a b \<Longrightarrow> \<not> str_lt b a"
  using str_lt_trans [of a b a] by auto

lemma str_not_lt_trans: "\<not> str_lt b a \<Longrightarrow> \<not> str_lt c b \<Longrightarrow> \<not> str_lt c a"
  using str_lt_linear [of b c] str_lt_linear [of a b] str_lt_trans by blast

interpretation int_cmp: total_cmp is_int val_cmp
  by unfold_locales (auto simp: is_int_iff val_cmp_ints split: if_splits)

interpretation str_cmp: total_cmp is_str val_cmp
proof
  show "val_cmp x z \<noteq> Ok Greater"
    if "is_str x" "is_str y" "is_str z" "val_cmp x y \<noteq> Ok Greater" "val_cmp y z \<noteq> Ok Greater" for x y z
  proof -
    from that obtain a b c where "x = str_value a" "y = str_value b" "z = str_value c"
      by (auto simp: is_str_iff)
    with that show ?thesis using str_not_lt_trans [of b a c] str_lt_trans [of a b a]
        str_lt_trans [of b c b] by (auto simp: val_cmp_strs split: if_splits)
  qed
qed (auto simp: is_str_iff val_cmp_strs split: if_splits dest: str_lt_asym)

interpretation float_cmp: total_cmp is_ordered_float val_cmp
proof
  show "val_cmp x z \<noteq> Ok Greater"
    if "is_ordered_float x" "is_ordered_float y" "is_ordered_float z"
      "val_cmp x y \<noteq> Ok Greater" "val_cmp y z \<noteq> Ok Greater" for x y z
  proof -
    from that obtain a b c where "x = float_value a" "y = float_value b" "z = float_value c"
      "a \<noteq> NaN" "b \<noteq> NaN" "c \<noteq> NaN" by (auto simp: is_ordered_float_iff)
    with that show ?thesis using f64_not_lt_trans [of a b c] f64_lt_asym [of a b] f64_lt_asym [of b c]
      by (auto simp: val_cmp_floats split: if_splits)
  qed
qed (auto simp: is_ordered_float_iff val_cmp_floats split: if_splits dest: f64_lt_asym)

definition comparable :: "val list \<Rightarrow> bool" where
  "comparable xs = (list_all is_int xs \<or> list_all is_str xs \<or> list_all is_ordered_float xs)"

lemma total_cmp_comparable:
  assumes "comparable xs"
  obtains carrier where "total_cmp carrier val_cmp" "list_all carrier xs"
    "\<And>v. carrier v \<Longrightarrow> is_int v \<or> is_str v \<or> is_ordered_float v"
  using assms int_cmp.total_cmp_axioms str_cmp.total_cmp_axioms float_cmp.total_cmp_axioms
  unfolding comparable_def by blast

lemma sort_values_comparable:
  assumes "comparable xs"
  shows "\<exists>ys. sort_values r xs = Ok (list_value ys) \<and> mset ys = mset xs \<and>
    sorted_wrt (\<lambda>x y. (if r then val_cmp y x else val_cmp x y) \<noteq> Ok Greater) ys"
proof -
  obtain carrier where c: "total_cmp carrier val_cmp" "list_all carrier xs"
    using assms by (rule total_cmp_comparable)
  let ?cmp = "if r then \<lambda>a b. val_cmp b a else val_cmp"
  have t: "total_cmp carrier ?cmp" using c(1) total_cmp.converse [OF c(1)] by simp
  from total_cmp.sort_by_Ok [OF t c(2)] show ?thesis
    by (auto simp: sort_values_def split: if_splits)
qed

lemma deep_copy_comparable: "comparable xs \<Longrightarrow> map deep_copy xs = xs"
  by (auto simp: comparable_def list_all_iff is_int_iff is_str_iff is_ordered_float_iff intro!: map_idI)

lemma greater_as_val_cmp:
  assumes "carrier = is_int \<or> carrier = is_str \<or> carrier = is_ordered_float" "carrier x" "carrier y"
  shows "cmp_greater_than x y = Ok (val_cmp x y = Ok Greater)"
    "cmp_less_than x y = Ok (val_cmp y x = Ok Greater)"
  using assms str_lt_asym f64_lt_asym
  by (auto simp: is_int_iff is_str_iff is_ordered_float_iff val_cmp_ints val_cmp_strs val_cmp_floats)

lemma extrema_comparable:
  assumes "comparable xs" "xs \<noteq> []"
  shows "\<exists>m. max_value (list_value xs) = Ok m \<and> m \<in> set xs \<and> list_all (\<lambda>x. val_cmp x m \<noteq> Ok Greater) xs"
    "\<exists>m. min_value (list_value xs) = Ok m \<and> m \<in> set xs \<and> list_all (\<lambda>x. val_cmp m x \<noteq> Ok Greater) xs"
proof -
  obtain carrier where k: "carrier = is_int \<or> carrier = is_str \<or> carrier = is_ordered_float"
    and all: "list_all carrier xs"
    using assms(1) unfolding comparable_def by blast
  have t: "total_cmp carrier val_cmp"
    using k int_cmp.total_cmp_axioms str_cmp.total_cmp_axioms float_cmp.total_cmp_axioms by blast
  obtain y ys where xs: "xs = y # ys" using assms(2) by (cases xs) auto
  show "\<exists>m. max_value (list_value xs) = Ok m \<and> m \<in> set xs \<and> list_all (\<lambda>x. val_cmp x m \<noteq> Ok Greater) xs"
    using total_cmp.filter_loop_Ok [OF t greater_as_val_cmp(1) [OF k], of y xs] all xs
    by (auto simp: max_value_def filter_builtin_def filter_items_def)
  show "\<exists>m. min_value (list_value xs) = Ok m \<and> m \<in> set xs \<and> list_all (\<lambda>x. val_cmp m x \<noteq> Ok Greater) xs"
    using total_cmp.filter_loop_Ok [OF total_cmp.converse [OF t] greater_as_val_cmp(2) [OF k], of y xs] all xs
    by (auto simp: min_value_def filter_builtin_def filter_items_def)
qed

section \<open>Modular powers\<close>

lemma smod_mult_smod: "((a smod m) * (b smod m)) smod m = (a * b) smod (m :: int)"
proof (cases "a = 0 \<or> b = 0")
  case False
  let ?A = "\<bar>a\<bar> mod \<bar>m\<bar>" and ?B = "\<bar>b\<bar> mod \<bar>m\<bar>" and ?s = "sgn a * sgn b"
  have nn: "0 \<le> ?A" "0 \<le> ?B" by (cases "m = 0"; simp)+
  have s: "?s = 1 \<or> ?s = - 1" using False by (auto simp: sgn_if)
  have "(a smod m) * (b smod m) = ?s * (?A * ?B)"
    by (simp add: signed_modulo_int_def)
  moreover have "(?s * (?A * ?B)) smod m = ?s * ((?A * ?B) mod \<bar>m\<bar>)"
    using s nn by (cases "?A * ?B = 0") (auto simp: signed_modulo_int_def abs_mult sgn_mult)
  moreover have "(?A * ?B) mod \<bar>m\<bar> = \<bar>a * b\<bar> mod \<bar>m\<bar>"
    by (simp add: mod_mult_eq abs_mult)
  moreover have "(a * b) smod m = ?s * (\<bar>a * b\<bar> mod \<bar>m\<bar>)"
    by (simp add: signed_modulo_int_def sgn_mult)
  ultimately show ?thesis by (simp only:)
qed (simp add: signed_modulo_int_def, force)

lemma smod_abs_less: "m \<noteq> 0 \<Longrightarrow> \<bar>a smod m\<bar> < \<bar>m :: int\<bar>"
  using abs_mod_less [of "\<bar>m\<bar>" "\<bar>a\<bar>"] by (auto simp: signed_modulo_int_def abs_mult sgn_if)

lemma smod_smod: "(a smod m) smod m = a smod (m :: int)"
proof (cases "m = 0")
  case False
  have "r smod m = r" if "\<bar>r\<bar> < \<bar>m\<bar>" for r
    using that by (simp add: signed_modulo_int_def sgn_mult_abs)
  with smod_abs_less [OF False] show ?thesis by blast
qed (simp add: signed_modulo_int_def sgn_mult_abs)

lemma smod_mult_left: "((a smod m) * b) smod m = (a * b) smod (m :: int)"
  by (metis smod_mult_smod smod_smod)

lemma smod_power: "((a smod m) ^ n) smod m = (a ^ n) smod (m :: int)"
proof (induction n)
  case (Suc n)
  have "((a smod m) ^ Suc n) smod m = (a * (a smod m) ^ n) smod m"
    using smod_mult_left [of a m "(a smod m) ^ n"] by simp
  also have "\<dots> = (((a smod m) ^ n smod m) * a) smod m"
    using smod_mult_left [of "(a smod m) ^ n" m a] by (simp add: mult.commute)
  also have "\<dots> = (a ^ Suc n) smod m"
    using smod_mult_left [of "a ^ n" m a] by (simp add: Suc.IH mult.commute)
  finally show ?case .
qed simp

lemma i128_product:
  assumes "\<bar>a\<bar> \<le> 9223372036854775808" "\<bar>b\<bar> \<le> 9223372036854775808"
  shows "i128_wrap (a * b) = a * b"
proof -
  have "\<bar>a * b\<bar> \<le> 9223372036854775808 * 9223372036854775808"
    unfolding abs_mult using assms by (intro mult_mono) auto
  then show ?thesis unfolding i128_wrap_def
    by (subst sint_sbintrunc') (simp add: signed_take_bit_int_eq_self abs_le_iff)
qed

lemma pow_loop_step: "0 < e \<Longrightarrow> pow_loop m ans base e =
    pow_loop m (if e mod 2 = 1 then i128_wrap (ans * base) smod m else ans)
      (i128_wrap (base * base) smod m) (e div 2)"
  by (subst pow_loop.simps) simp

lemma pow_split: "0 < e \<Longrightarrow> (b :: int) ^ nat e = (if e mod 2 = 1 then b else 1) * (b * b) ^ nat (e div 2)"
proof -
  assume "0 < e"
  then have "nat (e mod 2 + 2 * (e div 2)) = nat (e mod 2) + nat (2 * (e div 2))"
    by (intro nat_add_distrib) (simp_all add: pos_imp_zdiv_nonneg_iff)
  then have "nat e = nat (e mod 2) + 2 * nat (e div 2)"
    using \<open>0 < e\<close> by (simp add: nat_mult_distrib)
  moreover have "e mod 2 = 0 \<or> e mod 2 = 1" by linarith
  ultimately show ?thesis by (auto simp: power_add power_mult power2_eq_square)
qed

lemma pow_loop_smod:
  assumes "m \<noteq> 0" "\<bar>m\<bar> \<le> 9223372036854775808"
    and "\<bar>ans\<bar> \<le> 9223372036854775808" "\<bar>base\<bar> \<le> 9223372036854775808" "0 < e"
  shows "pow_loop m ans base e = (ans * base ^ nat e) smod m"
  using assms
proof (induction m ans base e rule: pow_loop.induct)
  case (1 m ans base e)
  let ?ans = "if e mod 2 = 1 then (ans * base) smod m else ans"
  let ?base = "(base * base) smod m"
  have wr: "i128_wrap (ans * base) = ans * base" "i128_wrap (base * base) = base * base"
    using 1(2-) by (simp_all add: i128_product)
  have step: "pow_loop m ans base e = pow_loop m ?ans ?base (e div 2)"
    using 1(6) by (simp add: pow_loop_step wr)
  have b: "\<bar>?ans\<bar> \<le> 9223372036854775808" "\<bar>?base\<bar> \<le> 9223372036854775808"
    using 1(2-) smod_abs_less [of m "ans * base"] smod_abs_less [of m "base * base"] by auto
  show ?case
  proof (cases "e = 1")
    case True
    then have "pow_loop m ?ans ?base (e div 2) = ?ans" by (subst pow_loop.simps) simp
    with step True show ?thesis by simp
  next
    case False
    then have "0 < e div 2" using 1(6) by linarith
    then have "pow_loop m ?ans ?base (e div 2) = (?ans * ?base ^ nat (e div 2)) smod m"
      by (rule 1(1) [unfolded wr, OF 1(6,2,3) b])
    also have "\<dots> = (?ans * (base * base) ^ nat (e div 2)) smod m"
      by (metis smod_mult_left smod_power mult.commute)
    also have "\<dots> = (ans * base ^ nat e) smod m"
      using 1(6) pow_split [of e base] by (auto simp: smod_mult_left mult.assoc)
    finally show ?thesis using step by simp
  qed
qed

section \<open>Ranges\<close>

lemma range_loop_step: "(if 0 < sint step then sint cur < sint stop else sint stop < sint cur) \<Longrightarrow>
    range_loop stop step cur acc = range_loop stop step (cur + step) (acc @ [int_value cur])"
  by (subst range_loop.simps) simp

lemma range_loop_stop: "\<not> (if 0 < sint step then sint cur < sint stop else sint stop < sint cur) \<Longrightarrow>
    range_loop stop step cur acc = Some acc"
  by (subst range_loop.simps) simp

lemma ceil_step:
  assumes "0 < (d :: int)" "0 < w"
  shows "(w - 1) div d + 1 = 1 + (if 0 < w - d then (w - d - 1) div d + 1 else 0)"
proof (cases "0 < w - d")
  case True
  have "(w - 1) div d = (w - d - 1 + d) div d" by (simp add: algebra_simps)
  also have "\<dots> = (w - d - 1) div d + 1" using assms(1) by (intro div_add_self2) simp
  finally show ?thesis using True by simp
next
  case False
  then show ?thesis using assms by (simp add: div_pos_pos_trivial)
qed

lemma slice_count_step:
  assumes "step \<noteq> 0" "if 0 < step then s < e else e < s"
  shows "slice_count s e step = 1 + slice_count (s + step) e step"
  using assms ceil_step [of step "e - s"] ceil_step [of "- step" "s - e"]
  by (cases "0 < step") (auto simp: slice_count_def algebra_simps)

lemma slice_count_nonneg: "step \<noteq> 0 \<Longrightarrow> 0 \<le> slice_count s e step"
  by (auto simp: slice_count_def pos_imp_zdiv_nonneg_iff)

lemma in_i64_between: "in_i64 s \<Longrightarrow> in_i64 (s + int (Suc n) * d) \<Longrightarrow> in_i64 (s + d)"
  by (cases "0 \<le> d") (auto simp: in_i64_def algebra_simps mult_le_0_iff
      intro: order_trans [of _ "s + d"] order_trans [of _ "s + (d + d * int n)"])

lemma range_loop_counts:
  assumes "sint d \<noteq> 0" "n = nat (slice_count (sint s) (sint e) (sint d))"
    and "in_i64 (sint s + int n * sint d)"
  shows "range_loop e d s acc = Some (acc @ map (\<lambda>i. int_value (s + of_nat i * d)) [0..<n])"
  using assms
proof (induction n arbitrary: s acc)
  case 0
  then have "\<not> (if 0 < sint d then sint s < sint e else sint e < sint s)"
    using slice_count_step [of "sint d" "sint s" "sint e"]
      slice_count_nonneg [of "sint d" "sint s + sint d" "sint e"] by auto
  then show ?case by (simp add: range_loop_stop)
next
  case (Suc n)
  let ?c = "if 0 < sint d then sint s < sint e else sint e < sint s"
  have go: ?c using Suc.prems by (auto simp: slice_count_def split: if_splits)
  have mid: "in_i64 (sint s + sint d)"
    using Suc.prems(3) sint_i64_range [of s] in_i64_between [of "sint s" n "sint d"] by simp
  have n: "n = nat (slice_count (sint (s + d)) (sint e) (sint d))"
    using Suc.prems(2) slice_count_step [OF Suc.prems(1) go] mid by (simp add: sint_add_i64)
  have end_ok: "in_i64 (sint (s + d) + int n * sint d)"
    using Suc.prems(3) mid by (simp add: sint_add_i64 algebra_simps)
  have "range_loop e d s acc = range_loop e d (s + d) (acc @ [int_value s])"
    using go by (rule range_loop_step)
  also have "\<dots> = Some (acc @ [int_value s] @ map (\<lambda>i. int_value (s + d + of_nat i * d)) [0..<n])"
    using Suc.IH [OF Suc.prems(1) n] end_ok by simp
  also have "[int_value s] @ map (\<lambda>i. int_value (s + d + of_nat i * d)) [0..<n] =
      map (\<lambda>i. int_value (s + of_nat i * d)) [0..<Suc n]"
    unfolding map_upt_Suc by (simp add: algebra_simps)
  finally show ?case .
qed

lemma even_less_MAX: "even (cur :: i64) \<Longrightarrow> sint cur < sint i64_MAX"
proof -
  assume "even cur"
  then have "cur \<noteq> i64_MAX" by (auto simp: i64_MAX_def)
  then show ?thesis
    using sint_i64_range [of cur] i64_eq_iff [of cur i64_MAX]
    by (auto simp: i64_MAX_def in_i64_def le_less)
qed

lemma range_loop_odd_stop:
  assumes "range_loop stop step cur acc = Some ys"
  shows "stop = i64_MAX \<and> step = 2 \<longrightarrow> odd cur"
  by (rule range_loop.raw_induct [OF _ assms,
        where P = "\<lambda>stop step cur acc ys. stop = i64_MAX \<and> step = 2 \<longrightarrow> odd cur"])
    (fastforce split: if_splits dest: even_less_MAX)

lemma range_wraps_forever: "range_loop i64_MAX 2 0 acc = None"
  using range_loop_odd_stop [of i64_MAX 2 0 acc] by (cases "range_loop i64_MAX 2 0 acc") auto

section \<open>Nothing to zip\<close>

lemma zip_empty_loops:
  assumes "zip_loop hosts pre_len its rows = Some r"
  shows "its \<noteq> []"
  by (rule zip_loop.raw_induct [OF _ assms, where P = "\<lambda>hosts pre_len its rows r. its \<noteq> []"])
    (fastforce split: sum.splits)

lemma zip_empty_diverges: "zip_builtin (list_value []) = None"
  using zip_empty_loops [of "[]" 0 "[]" "[]"]
  by (cases "zip_loop [] 0 [] []") (auto simp: zip_builtin_def)

section \<open>Printed numbers\<close>

lemma i64_abs_unat: "a \<noteq> i64_MIN \<Longrightarrow> unat (i64_abs a) = nat \<bar>sint a\<bar>"
proof -
  assume ne: "a \<noteq> i64_MIN"
  then have "sint a \<noteq> - 9223372036854775808"
    using i64_eq_iff [of a i64_MIN] by (simp add: i64_MIN_def)
  then have "in_i64 (0 - sint a)"
    using sint_i64_range [of a] by (auto simp: in_i64_def)
  then have "sint (i64_abs a) = \<bar>sint a\<bar>"
    using sint_sub_i64 [of 0 a] by (simp add: i64_abs_def)
  then show ?thesis using unat_eq_nat_sint [of "i64_abs a"] by simp
qed

text \<open>What is left of a printed number after its radix prefix: the sign and the digits.\<close>

definition strip_radix_prefix :: "string \<Rightarrow> string" where
  "strip_radix_prefix s =
     (case s of c # t \<Rightarrow> if c = CHR ''-'' then CHR ''-'' # drop 2 t else drop 2 s | [] \<Rightarrow> [])"

lemma radix_str_parses:
  assumes "2 \<le> r" "r \<le> 36" "length prefix = 2" "hd prefix \<noteq> CHR ''-''"
    and "i64_parse_radix r (strip_radix_prefix min_str) = Some i64_MIN"
  shows "i64_parse_radix r (strip_radix_prefix (radix_str prefix min_str r a)) = Some a"
proof (cases "a = i64_MIN")
  case False
  obtain c d where "prefix = [c, d]" "c \<noteq> CHR ''-''"
    using assms(3,4) by (cases prefix; cases "tl prefix") auto
  with False i64_parse_print [OF assms(1,2), of a] show ?thesis
    by (auto simp: radix_str_def strip_radix_prefix_def i64_abs_unat split: if_splits)
qed (use assms(5) in \<open>simp add: radix_str_def\<close>)

section \<open>Properties\<close>



text \<open>C32: \<open>range\<close> ends and returns the arithmetic progression from \<open>start\<close> up to but not including
  \<open>stop\<close>, whenever the step is not 0 and the value after the last one is still an \<open>i64\<close>.\<close>

theorem range_is_progression:
  assumes "d \<noteq> 0"
    and "in_i64 (sint s + slice_count (sint s) (sint e) (sint d) * sint d)"
  shows "range_builtin (int_value s) (int_value e) (int_value d) =
    Some (Ok (list_value (map (\<lambda>i. int_value (word_of_int (sint s + int i * sint d)))
      [0..<nat (slice_count (sint s) (sint e) (sint d))])))"
proof -
  have d: "sint d \<noteq> 0" using assms(1) i64_eq_iff [of d 0] by simp
  have "word_of_int (sint s + int i * sint d) = s + of_nat i * d" for i
    by (simp flip: wi_hom_mult wi_hom_add)
  with range_loop_counts [OF d refl, of s e "[]"] assms slice_count_nonneg [OF d]
  show ?thesis by (simp add: range_builtin_def)
qed

theorem range_is_progression_witness:
  "range_builtin (int_value 10) (int_value 3) (int_value (- 3)) =
    Some (Ok (list_value [int_value 10, int_value 7, int_value 4]))"
proof -
  have "range_builtin (int_value 10) (int_value 3) (int_value (- 3)) =
      Some (Ok (list_value (map (\<lambda>i. int_value (word_of_int (sint (10 :: i64) + int i * sint (- 3 :: i64))))
        [0..<nat (slice_count (sint (10 :: i64)) (sint (3 :: i64)) (sint (- 3 :: i64)))])))"
    by (rule range_is_progression) code_simp+
  also have "map (\<lambda>i. int_value (word_of_int (sint (10 :: i64) + int i * sint (- 3 :: i64))))
        [0..<nat (slice_count (sint (10 :: i64)) (sint (3 :: i64)) (sint (- 3 :: i64)))] =
      [int_value 10, int_value 7, int_value 4]"
    by code_simp
  finally show ?thesis .
qed



text \<open>C34: \<open>max\<close> and \<open>min\<close> of a non-empty list of integers, strings or floats other than NaN are elements
  of the list, and no element is greater, or less.\<close>

theorem extrema_bound_the_list:
  assumes "comparable xs" "xs \<noteq> []"
  shows "\<exists>m n. max_value (list_value xs) = Ok m \<and> m \<in> set xs \<and> list_all (\<lambda>x. val_cmp x m \<noteq> Ok Greater) xs \<and>
    min_value (list_value xs) = Ok n \<and> n \<in> set xs \<and> list_all (\<lambda>x. val_cmp n x \<noteq> Ok Greater) xs"
  using extrema_comparable [OF assms] by blast

theorem extrema_bound_the_list_witness:
  "\<exists>m n. max_value (list_value [str_value ''b'', str_value ''a'']) = Ok m \<and>
    m \<in> set [str_value ''b'', str_value ''a''] \<and>
    list_all (\<lambda>x. val_cmp x m \<noteq> Ok Greater) [str_value ''b'', str_value ''a''] \<and>
    min_value (list_value [str_value ''b'', str_value ''a'']) = Ok n \<and>
    n \<in> set [str_value ''b'', str_value ''a''] \<and>
    list_all (\<lambda>x. val_cmp n x \<noteq> Ok Greater) [str_value ''b'', str_value ''a'']"
  by (rule extrema_bound_the_list) (simp_all add: comparable_def is_str_def)

text \<open>C35: what \<open>hex\<close> and \<open>bin\<close> print reads back: dropping the prefix and parsing in the radix returns the
  integer, for every \<open>i64\<close> including the least one.\<close>

theorem printed_radix_reads_back:
  "(\<exists>s. hex (int_value a) = str_value s \<and> i64_parse_radix 16 (strip_radix_prefix s) = Some a) \<and>
   (\<exists>s. bin (int_value a) = str_value s \<and> i64_parse_radix 2 (strip_radix_prefix s) = Some a)"
proof -
  have h: "i64_parse_radix 16 (strip_radix_prefix ''-0x8000000000000000'') = Some i64_MIN"
    by (simp add: i64_parse_radix_def str_sign_def strip_radix_prefix_def to_digit_def in_i64_def i64_MIN_def)
  have b: "i64_parse_radix 2 (strip_radix_prefix
      ''-0b1000000000000000000000000000000000000000000000000000000000000000'') = Some i64_MIN"
    by (simp add: i64_parse_radix_def str_sign_def strip_radix_prefix_def to_digit_def in_i64_def i64_MIN_def)
  have
    "i64_parse_radix 16 (strip_radix_prefix (radix_str ''0x'' ''-0x8000000000000000'' 16 a)) = Some a"
    by (rule radix_str_parses [OF _ _ _ _ h]) simp_all
  moreover have "i64_parse_radix 2 (strip_radix_prefix (radix_str ''0b''
       ''-0b1000000000000000000000000000000000000000000000000000000000000000'' 2 a)) = Some a"
    by (rule radix_str_parses [OF _ _ _ _ b]) simp_all
  ultimately show ?thesis unfolding hex_def bin_def val.case by blast
qed

end
