(* ===== verification/Ast.thy ===== *)
theory Ast
  imports Prelude
begin

text \<open>
  The operators of the syntax tree (\<open>ast/src/ast.rs\<close>) and their symbols: binary, augmented assignment,
  unary and comparison operators, and the conversion of an augmented operator to its binary one.
\<close>

datatype bin_op =
    BinOp_Add | BinOp_Sub | BinOp_Mul | BinOp_Div | BinOp_Mod | BinOp_Pow | BinOp_FloorDiv
  | BinOp_LShift | BinOp_RShift | BinOp_BitXor | BinOp_BitAnd | BinOp_BitOr | BinOp_And | BinOp_Or
  | BinOp_As

datatype aug_op =
    AugOp_Assign | AugOp_Add | AugOp_Sub | AugOp_Mul | AugOp_Div | AugOp_Mod | AugOp_Pow
  | AugOp_FloorDiv | AugOp_LShift | AugOp_RShift | AugOp_BitXor | AugOp_BitAnd | AugOp_BitOr

datatype unary_op = UnaryOp_UAdd | UnaryOp_USub | UnaryOp_Invert | UnaryOp_Not

datatype cmp_op =
    CmpOp_Eq | CmpOp_NotEq | CmpOp_Lt | CmpOp_LtE | CmpOp_Gt | CmpOp_GtE | CmpOp_Is | CmpOp_In
  | CmpOp_NotIn | CmpOp_Not | CmpOp_IsNot

datatype bin_or_cmp_op = Bin bin_op | Cmp cmp_op

fun bin_op_symbol :: "bin_op \<Rightarrow> string" where
  "bin_op_symbol BinOp_Add = ''+''"
| "bin_op_symbol BinOp_Sub = ''-''"
| "bin_op_symbol BinOp_Mul = ''*''"
| "bin_op_symbol BinOp_Div = ''/''"
| "bin_op_symbol BinOp_Mod = ''%''"
| "bin_op_symbol BinOp_Pow = ''**''"
| "bin_op_symbol BinOp_FloorDiv = ''//''"
| "bin_op_symbol BinOp_LShift = ''<<''"
| "bin_op_symbol BinOp_RShift = ''>>''"
| "bin_op_symbol BinOp_BitXor = ''^''"
| "bin_op_symbol BinOp_BitAnd = ''&''"
| "bin_op_symbol BinOp_BitOr = ''|''"
| "bin_op_symbol BinOp_And = ''and''"
| "bin_op_symbol BinOp_Or = ''or''"
| "bin_op_symbol BinOp_As = ''as''"

fun aug_op_symbol :: "aug_op \<Rightarrow> string" where
  "aug_op_symbol AugOp_Assign = ''=''"
| "aug_op_symbol AugOp_Add = ''+=''"
| "aug_op_symbol AugOp_Sub = ''-=''"
| "aug_op_symbol AugOp_Mul = ''*=''"
| "aug_op_symbol AugOp_Div = ''/=''"
| "aug_op_symbol AugOp_Mod = ''%=''"
| "aug_op_symbol AugOp_Pow = ''**=''"
| "aug_op_symbol AugOp_FloorDiv = ''//=''"
| "aug_op_symbol AugOp_LShift = ''<<=''"
| "aug_op_symbol AugOp_RShift = ''>>=''"
| "aug_op_symbol AugOp_BitXor = ''^=''"
| "aug_op_symbol AugOp_BitAnd = ''&=''"
| "aug_op_symbol AugOp_BitOr = ''|=''"

fun aug_op_into_bin_op :: "aug_op \<Rightarrow> bin_op option" where
  "aug_op_into_bin_op AugOp_Add = Some BinOp_Add"
| "aug_op_into_bin_op AugOp_Sub = Some BinOp_Sub"
| "aug_op_into_bin_op AugOp_Mul = Some BinOp_Mul"
| "aug_op_into_bin_op AugOp_Div = Some BinOp_Div"
| "aug_op_into_bin_op AugOp_Mod = Some BinOp_Mod"
| "aug_op_into_bin_op AugOp_Pow = Some BinOp_Pow"
| "aug_op_into_bin_op AugOp_FloorDiv = Some BinOp_FloorDiv"
| "aug_op_into_bin_op AugOp_LShift = Some BinOp_LShift"
| "aug_op_into_bin_op AugOp_RShift = Some BinOp_RShift"
| "aug_op_into_bin_op AugOp_BitXor = Some BinOp_BitXor"
| "aug_op_into_bin_op AugOp_BitAnd = Some BinOp_BitAnd"
| "aug_op_into_bin_op AugOp_BitOr = Some BinOp_BitOr"
| "aug_op_into_bin_op AugOp_Assign = None"

fun unary_op_symbol :: "unary_op \<Rightarrow> string" where
  "unary_op_symbol UnaryOp_UAdd = ''+''"
| "unary_op_symbol UnaryOp_USub = ''-''"
| "unary_op_symbol UnaryOp_Invert = ''~''"
| "unary_op_symbol UnaryOp_Not = ''not''"

fun cmp_op_symbol :: "cmp_op \<Rightarrow> string" where
  "cmp_op_symbol CmpOp_Eq = ''==''"
| "cmp_op_symbol CmpOp_NotEq = ''!=''"
| "cmp_op_symbol CmpOp_Lt = ''<''"
| "cmp_op_symbol CmpOp_LtE = ''<=''"
| "cmp_op_symbol CmpOp_Gt = ''>''"
| "cmp_op_symbol CmpOp_GtE = ''>=''"
| "cmp_op_symbol CmpOp_Is = ''is''"
| "cmp_op_symbol CmpOp_In = ''in''"
| "cmp_op_symbol CmpOp_NotIn = ''not in''"
| "cmp_op_symbol CmpOp_Not = ''not''"
| "cmp_op_symbol CmpOp_IsNot = ''is not''"

text \<open>The symbol of an augmented operator is the symbol of its binary operator followed by an equals sign.\<close>

lemma aug_op_symbol_bin:
  "aug_op_into_bin_op a = Some b \<Longrightarrow> aug_op_symbol a = bin_op_symbol b @ ''=''"
  by (cases a) auto

end
