(* ===== verification/SemaType.thy ===== *)
theory SemaType
  imports RustStr
begin

text \<open>
  The types of the semantic analyzer (\<open>sema/src/ty\<close>): the type representation of \<open>ty/mod.rs\<close>, its
  constructors and tests (\<open>ty/constructor.rs\<close>, \<open>ty/constants.rs\<close>, \<open>ty/into.rs\<close>), the printed forms, and
  the relation \<open>subsume\<close> with the supremum of \<open>ty/unify.rs\<close>.

  A \<open>TypeRef\<close> is a reference-counted pointer, and \<open>typeof\<close> compares pointers; so a type carries the
  address of its allocation (\<open>ty_addr\<close>), which no other operation looks at. An operation that allocates
  takes the next free address. The flags of a type are private, set by the constructors only and
  determined by the kind, so the model computes them from the kind.
\<close>

section \<open>Representation\<close>

text \<open>A \<open>Position\<close> is a file name, a line and an optional column.\<close>

type_synonym position = "string \<times> nat \<times> nat option"
type_synonym source_range = "position \<times> position"

datatype decorator_target = TargetSchema | TargetAttribute

datatype decorator = Decorator
  (dec_target: decorator_target)
  (dec_name: string)
  (dec_key: string)
  (dec_arguments: "string list")
  (dec_keywords: "(string, string) imap")

datatype number_multiplier_type = NumberMultiplierType
  (nm_value: f64)
  (nm_raw_value: i64)
  (nm_binary_suffix: string)
  (nm_is_literal: bool)

datatype module_kind = ModuleUser | ModuleSystem | ModulePlugin

datatype module_type = ModuleType
  (mod_pkgpath: string)
  (mod_imported: "string list")
  (mod_kind: module_kind)

datatype 't attr = Attr
  (attr_ty: 't)
  (attr_range: source_range)

datatype 't dict_type = DictType
  (dt_key_ty: 't)
  (dt_val_ty: 't)
  (dt_attrs: "(string, 't attr) imap")

datatype 't parameter = Parameter
  (param_name: string)
  (param_ty: 't)
  (param_has_default: bool)
  (param_default_value: "string option")
  (param_range: source_range)

datatype 't function_type = FunctionType
  (fn_doc: string)
  (fn_params: "'t parameter list")
  (fn_self_ty: "'t option")
  (fn_return_ty: 't)
  (fn_is_variadic: bool)
  (fn_kw_only_index: "nat option")

datatype 't schema_attr = SchemaAttr
  (sa_is_optional: bool)
  (sa_has_default: bool)
  (sa_default: "string option")
  (sa_ty: 't)
  (sa_range: source_range)
  (sa_doc: "string option")
  (sa_decorators: "decorator list")

datatype 't schema_index_signature = SchemaIndexSignature
  (is_key_name: "string option")
  (is_key_ty: 't)
  (is_val_ty: 't)
  (is_any_other: bool)

datatype 't schema_ty = SchemaType
  (st_name: string)
  (st_pkgpath: string)
  (st_filename: string)
  (st_doc: string)
  (st_examples: "(string, string \<times> string \<times> string) imap")
  (st_is_instance: bool)
  (st_is_mixin: bool)
  (st_is_protocol: bool)
  (st_is_rule: bool)
  (st_base: "'t schema_ty option")
  (st_protocol: "'t schema_ty option")
  (st_mixins: "'t schema_ty list")
  (st_attrs: "(string, 't schema_attr) imap")
  (st_func: "'t function_type")
  (st_index_signature: "'t schema_index_signature option")
  (st_decorators: "decorator list")

datatype 't type_kind =
    TNone | TAny | TBool | TBoolLit bool | TInt | TIntLit i64 | TFloat | TFloatLit f64
  | TStr | TStrLit string | TList 't | TDict "'t dict_type" | TUnion "'t list"
  | TSchema "'t schema_ty" | TNumberMultiplier number_multiplier_type
  | TFunction "'t function_type" | TVoid | TModule module_type | TNamed string

datatype type = Type
  (ty_addr: nat)
  (ty_kind: "type type_kind")
  (ty_is_type_alias: bool)

section \<open>Flags and tests\<close>

type_synonym type_flags = "16 word"

definition FLAG_VOID :: type_flags where "FLAG_VOID = 1"
definition FLAG_INT :: type_flags where "FLAG_INT = 2"
definition FLAG_FLOAT :: type_flags where "FLAG_FLOAT = 4"
definition FLAG_STR :: type_flags where "FLAG_STR = 8"
definition FLAG_BOOL :: type_flags where "FLAG_BOOL = 16"
definition FLAG_ANY :: type_flags where "FLAG_ANY = 32"
definition FLAG_NONE :: type_flags where "FLAG_NONE = 64"
definition FLAG_LIST :: type_flags where "FLAG_LIST = 128"
definition FLAG_DICT :: type_flags where "FLAG_DICT = 256"
definition FLAG_SCHEMA :: type_flags where "FLAG_SCHEMA = 512"
definition FLAG_UNION :: type_flags where "FLAG_UNION = 1024"
definition FLAG_LITERAL :: type_flags where "FLAG_LITERAL = 2048"
definition FLAG_NUMBER_MULTIPLIER :: type_flags where "FLAG_NUMBER_MULTIPLIER = 4096"
definition FLAG_FUNCTION :: type_flags where "FLAG_FUNCTION = 8192"
definition FLAG_MODULE :: type_flags where "FLAG_MODULE = 16384"
definition FLAG_NAMED :: type_flags where "FLAG_NAMED = 32768"

lemmas flag_defs =
  FLAG_VOID_def FLAG_INT_def FLAG_FLOAT_def FLAG_STR_def FLAG_BOOL_def FLAG_ANY_def FLAG_NONE_def
  FLAG_LIST_def FLAG_DICT_def FLAG_SCHEMA_def FLAG_UNION_def FLAG_LITERAL_def
  FLAG_NUMBER_MULTIPLIER_def FLAG_FUNCTION_def FLAG_MODULE_def FLAG_NAMED_def

fun kind_flags :: "'t type_kind \<Rightarrow> type_flags" where
  "kind_flags TNone = FLAG_NONE"
| "kind_flags TAny = FLAG_ANY"
| "kind_flags TBool = FLAG_BOOL"
| "kind_flags (TBoolLit _) = FLAG_BOOL OR FLAG_LITERAL"
| "kind_flags TInt = FLAG_INT"
| "kind_flags (TIntLit _) = FLAG_INT OR FLAG_LITERAL"
| "kind_flags TFloat = FLAG_FLOAT"
| "kind_flags (TFloatLit _) = FLAG_FLOAT OR FLAG_LITERAL"
| "kind_flags TStr = FLAG_STR"
| "kind_flags (TStrLit _) = FLAG_STR OR FLAG_LITERAL"
| "kind_flags (TList _) = FLAG_LIST"
| "kind_flags (TDict _) = FLAG_DICT"
| "kind_flags (TUnion _) = FLAG_UNION"
| "kind_flags (TSchema _) = FLAG_SCHEMA"
| "kind_flags (TNumberMultiplier _) = FLAG_NUMBER_MULTIPLIER"
| "kind_flags (TFunction _) = FLAG_FUNCTION"
| "kind_flags TVoid = FLAG_VOID"
| "kind_flags (TModule _) = FLAG_MODULE"
| "kind_flags (TNamed _) = FLAG_NAMED"

definition contains_flags :: "type \<Rightarrow> type_flags \<Rightarrow> bool" where
  "contains_flags t f = (kind_flags (ty_kind t) AND f = f)"

definition ty_is_any :: "type \<Rightarrow> bool" where "ty_is_any t = contains_flags t FLAG_ANY"
definition ty_is_int :: "type \<Rightarrow> bool" where "ty_is_int t = contains_flags t FLAG_INT"
definition ty_is_float :: "type \<Rightarrow> bool" where "ty_is_float t = contains_flags t FLAG_FLOAT"
definition ty_is_bool :: "type \<Rightarrow> bool" where "ty_is_bool t = contains_flags t FLAG_BOOL"
definition ty_is_str :: "type \<Rightarrow> bool" where "ty_is_str t = contains_flags t FLAG_STR"
definition ty_is_literal :: "type \<Rightarrow> bool" where "ty_is_literal t = contains_flags t FLAG_LITERAL"
definition ty_is_none :: "type \<Rightarrow> bool" where "ty_is_none t = contains_flags t FLAG_NONE"
definition ty_is_void :: "type \<Rightarrow> bool" where "ty_is_void t = contains_flags t FLAG_VOID"
definition ty_is_list :: "type \<Rightarrow> bool" where "ty_is_list t = contains_flags t FLAG_LIST"
definition ty_is_dict :: "type \<Rightarrow> bool" where "ty_is_dict t = contains_flags t FLAG_DICT"
definition ty_is_schema :: "type \<Rightarrow> bool" where "ty_is_schema t = contains_flags t FLAG_SCHEMA"
definition ty_is_union :: "type \<Rightarrow> bool" where "ty_is_union t = contains_flags t FLAG_UNION"
definition ty_is_func :: "type \<Rightarrow> bool" where "ty_is_func t = contains_flags t FLAG_FUNCTION"
definition ty_is_module :: "type \<Rightarrow> bool" where "ty_is_module t = contains_flags t FLAG_MODULE"

definition ty_is_number_multiplier :: "type \<Rightarrow> bool" where
  "ty_is_number_multiplier t = contains_flags t FLAG_NUMBER_MULTIPLIER"

definition ty_is_number :: "type \<Rightarrow> bool" where
  "ty_is_number t = (contains_flags t FLAG_INT \<or> contains_flags t FLAG_FLOAT)"

definition ty_is_none_or_any :: "type \<Rightarrow> bool" where
  "ty_is_none_or_any t = (ty_is_none t \<or> ty_is_any t)"

definition ty_is_dict_or_schema :: "type \<Rightarrow> bool" where
  "ty_is_dict_or_schema t = (ty_is_dict t \<or> ty_is_schema t)"

definition ty_is_iterable :: "type \<Rightarrow> bool" where
  "ty_is_iterable t = (ty_is_str t \<or> ty_is_list t \<or> ty_is_dict t \<or> ty_is_schema t)"

definition ty_is_primitive :: "type \<Rightarrow> bool" where
  "ty_is_primitive t =
     (case ty_kind t of TBool \<Rightarrow> True | TInt \<Rightarrow> True | TFloat \<Rightarrow> True | TStr \<Rightarrow> True | _ \<Rightarrow> False)"

definition ty_is_schema_def :: "type \<Rightarrow> bool" where
  "ty_is_schema_def t = (case ty_kind t of TSchema s \<Rightarrow> \<not> st_is_instance s | _ \<Rightarrow> False)"

definition ty_is_assignable_type :: "type \<Rightarrow> bool" where
  "ty_is_assignable_type t =
     (case ty_kind t of TVoid \<Rightarrow> False | TModule _ \<Rightarrow> False | TNamed _ \<Rightarrow> False | _ \<Rightarrow> True)"

fun ty_is_key :: "type \<Rightarrow> bool" where
  "ty_is_key (Type _ TStr _) = True"
| "ty_is_key (Type _ (TStrLit _) _) = True"
| "ty_is_key (Type _ (TUnion ts) _) = list_all ty_is_key ts"
| "ty_is_key _ = False"

lemmas ty_test_defs =
  ty_is_any_def ty_is_int_def ty_is_float_def ty_is_bool_def ty_is_str_def ty_is_literal_def
  ty_is_none_def ty_is_void_def ty_is_list_def ty_is_dict_def ty_is_schema_def ty_is_union_def
  ty_is_func_def ty_is_module_def ty_is_number_multiplier_def ty_is_number_def ty_is_none_or_any_def
  ty_is_dict_or_schema_def ty_is_iterable_def

subsection \<open>What the flags decide\<close>

lemma contains_flags_simps [simp]:
  "contains_flags t FLAG_ANY \<longleftrightarrow> ty_kind t = TAny"
  "contains_flags t FLAG_NONE \<longleftrightarrow> ty_kind t = TNone"
  "contains_flags t FLAG_VOID \<longleftrightarrow> ty_kind t = TVoid"
  "contains_flags t FLAG_INT \<longleftrightarrow> (case ty_kind t of TInt \<Rightarrow> True | TIntLit _ \<Rightarrow> True | _ \<Rightarrow> False)"
  "contains_flags t FLAG_FLOAT \<longleftrightarrow> (case ty_kind t of TFloat \<Rightarrow> True | TFloatLit _ \<Rightarrow> True | _ \<Rightarrow> False)"
  "contains_flags t FLAG_STR \<longleftrightarrow> (case ty_kind t of TStr \<Rightarrow> True | TStrLit _ \<Rightarrow> True | _ \<Rightarrow> False)"
  "contains_flags t FLAG_BOOL \<longleftrightarrow> (case ty_kind t of TBool \<Rightarrow> True | TBoolLit _ \<Rightarrow> True | _ \<Rightarrow> False)"
  "contains_flags t FLAG_LIST \<longleftrightarrow> (case ty_kind t of TList _ \<Rightarrow> True | _ \<Rightarrow> False)"
  "contains_flags t FLAG_DICT \<longleftrightarrow> (case ty_kind t of TDict _ \<Rightarrow> True | _ \<Rightarrow> False)"
  "contains_flags t FLAG_SCHEMA \<longleftrightarrow> (case ty_kind t of TSchema _ \<Rightarrow> True | _ \<Rightarrow> False)"
  "contains_flags t FLAG_UNION \<longleftrightarrow> (case ty_kind t of TUnion _ \<Rightarrow> True | _ \<Rightarrow> False)"
  "contains_flags t FLAG_FUNCTION \<longleftrightarrow> (case ty_kind t of TFunction _ \<Rightarrow> True | _ \<Rightarrow> False)"
  "contains_flags t FLAG_MODULE \<longleftrightarrow> (case ty_kind t of TModule _ \<Rightarrow> True | _ \<Rightarrow> False)"
  "contains_flags t FLAG_NUMBER_MULTIPLIER \<longleftrightarrow>
     (case ty_kind t of TNumberMultiplier _ \<Rightarrow> True | _ \<Rightarrow> False)"
  "contains_flags t FLAG_LITERAL \<longleftrightarrow>
     (case ty_kind t of TBoolLit _ \<Rightarrow> True | TIntLit _ \<Rightarrow> True | TFloatLit _ \<Rightarrow> True | TStrLit _ \<Rightarrow> True
      | _ \<Rightarrow> False)"
  by (cases "ty_kind t"; simp add: contains_flags_def flag_defs)+

section \<open>Constructors and downcasts\<close>

text \<open>\<open>Arc::new(Type { kind, .. })\<close> at a free address; the constructors never make an alias.\<close>

definition arc_new :: "nat \<Rightarrow> type type_kind \<Rightarrow> type" where
  "arc_new addr k = Type addr k False"

lemma arc_new_simps [simp]:
  "ty_addr (arc_new n k) = n" "ty_kind (arc_new n k) = k" "ty_is_type_alias (arc_new n k) = False"
  by (simp_all add: arc_new_def)

definition ty_list :: "nat \<Rightarrow> type \<Rightarrow> type" where
  "ty_list addr item = arc_new addr (TList item)"

definition ty_union :: "nat \<Rightarrow> type list \<Rightarrow> type" where
  "ty_union addr ts = arc_new addr (TUnion ts)"

definition ty_dict_with_attrs :: "nat \<Rightarrow> type \<Rightarrow> type \<Rightarrow> (string, type attr) imap \<Rightarrow> type" where
  "ty_dict_with_attrs addr k v attrs = arc_new addr (TDict (DictType k v attrs))"

definition ty_dict :: "nat \<Rightarrow> type \<Rightarrow> type \<Rightarrow> type" where
  "ty_dict addr k v = ty_dict_with_attrs addr k v []"

definition ty_number_multiplier :: "nat \<Rightarrow> f64 \<Rightarrow> i64 \<Rightarrow> string \<Rightarrow> type" where
  "ty_number_multiplier addr v raw suffix =
     arc_new addr (TNumberMultiplier (NumberMultiplierType v raw suffix True))"

definition ty_number_multiplier_non_lit :: "nat \<Rightarrow> type" where
  "ty_number_multiplier_non_lit addr =
     arc_new addr (TNumberMultiplier (NumberMultiplierType f64_zero 0 [] False))"

text \<open>The downcasts panic (\<open>bug!\<close>) on another kind: \<open>None\<close>.\<close>

definition list_item_ty :: "type \<Rightarrow> type option" where
  "list_item_ty t = (case ty_kind t of TList item \<Rightarrow> Some item | _ \<Rightarrow> None)"

definition dict_entry_ty :: "type \<Rightarrow> (type \<times> type) option" where
  "dict_entry_ty t = (case ty_kind t of TDict d \<Rightarrow> Some (dt_key_ty d, dt_val_ty d) | _ \<Rightarrow> None)"

definition union_types :: "type \<Rightarrow> type list option" where
  "union_types t = (case ty_kind t of TUnion ts \<Rightarrow> Some ts | _ \<Rightarrow> None)"

definition into_schema_type :: "type \<Rightarrow> type schema_ty option" where
  "into_schema_type t = (case ty_kind t of TSchema s \<Rightarrow> Some s | _ \<Rightarrow> None)"

definition into_func_type :: "type \<Rightarrow> type function_type option" where
  "into_func_type t = (case ty_kind t of TFunction f \<Rightarrow> Some f | _ \<Rightarrow> None)"

definition into_number_multiplier :: "type \<Rightarrow> number_multiplier_type option" where
  "into_number_multiplier t = (case ty_kind t of TNumberMultiplier n \<Rightarrow> Some n | _ \<Rightarrow> None)"

lemmas downcast_defs =
  list_item_ty_def dict_entry_ty_def union_types_def into_schema_type_def into_func_type_def
  into_number_multiplier_def

section \<open>Printed forms\<close>

definition MAIN_PKG :: string where "MAIN_PKG = ''__main__''"

definition full_name :: "string \<Rightarrow> string \<Rightarrow> string" where
  "full_name pkgpath name =
     (if pkgpath = [] \<or> pkgpath = MAIN_PKG then name else pkgpath @ ''.'' @ name)"

definition schema_full_ty_str :: "'t schema_ty \<Rightarrow> string" where
  "schema_full_ty_str s = full_name (st_pkgpath s) (st_name s)"

definition ty_str_with_at_pkgpath_prefix :: "'t schema_ty \<Rightarrow> string" where
  "ty_str_with_at_pkgpath_prefix s =
     (if st_pkgpath s = [] \<or> st_pkgpath s = MAIN_PKG then st_name s
      else ''@'' @ st_pkgpath s @ ''.'' @ st_name s)"

definition number_multiplier_ty_str :: "number_multiplier_type \<Rightarrow> string" where
  "number_multiplier_ty_str n =
     (if nm_is_literal n then
        ''number_multiplier('' @ int_to_string (sint (nm_raw_value n)) @ nm_binary_suffix n @ '')''
      else ''number_multiplier'')"

fun join :: "string \<Rightarrow> string list \<Rightarrow> string" where
  "join sep [] = []"
| "join sep [s] = s"
| "join sep (s # ss) = s @ sep @ join sep ss"

lemma size_params [termination_simp]:
  "p \<in> set ps \<Longrightarrow> size (param_ty p) < Suc (Suc (Suc (size_list (size_parameter size) ps + a + b)))"
proof -
  assume "p \<in> set ps"
  then have "size_parameter size p \<le> size_list (size_parameter size) ps"
    by (induction ps) auto
  then show ?thesis by (cases p) auto
qed

lemma size_type_members [termination_simp]:
  "t \<in> set ts \<Longrightarrow> size t < size (Type a (TUnion ts) al)"
  "size item < size (Type a (TList item) al)"
  "size k < size (Type a (TDict (DictType k v attrs)) al)"
  "size v < size (Type a (TDict (DictType k v attrs)) al)"
  "p \<in> set ps \<Longrightarrow> size (param_ty p) < size (Type a (TFunction (FunctionType d ps self ret var kw)) al)"
  "size ret < size (Type a (TFunction (FunctionType d ps self ret var kw)) al)"
proof -
  show "t \<in> set ts \<Longrightarrow> size t < size (Type a (TUnion ts) al)"
    by (induction ts) auto
  show "p \<in> set ps \<Longrightarrow> size (param_ty p) < size (Type a (TFunction (FunctionType d ps self ret var kw)) al)"
    by (simp add: size_params)
qed auto

fun ty_str :: "type \<Rightarrow> string" where
  "ty_str (Type _ TNone _) = ''NoneType''"
| "ty_str (Type _ TAny _) = ''any''"
| "ty_str (Type _ TBool _) = ''bool''"
| "ty_str (Type _ (TBoolLit v) _) = ''bool('' @ (if v then ''True'' else ''False'') @ '')''"
| "ty_str (Type _ TInt _) = ''int''"
| "ty_str (Type _ (TIntLit v) _) = ''int('' @ int_to_string (sint v) @ '')''"
| "ty_str (Type _ TFloat _) = ''float''"
| "ty_str (Type _ (TFloatLit v) _) = ''float('' @ f64_display v @ '')''"
| "ty_str (Type _ TStr _) = ''str''"
| "ty_str (Type _ (TStrLit v) _) = ''str('' @ v @ '')''"
| "ty_str (Type _ (TList item) _) = ''['' @ ty_str item @ '']''"
| "ty_str (Type _ (TDict (DictType k v _)) _) = ''{'' @ ty_str k @ '':'' @ ty_str v @ ''}''"
| "ty_str (Type _ (TUnion ts) _) = join '' | '' (map ty_str ts)"
| "ty_str (Type _ (TSchema s) _) = st_name s"
| "ty_str (Type _ (TNumberMultiplier n) _) = number_multiplier_ty_str n"
| "ty_str (Type _ (TFunction (FunctionType _ ps _ ret _ _)) _) =
     ''('' @ join '', '' (map (\<lambda>p. ty_str (param_ty p)) ps) @ '') -> '' @ ty_str ret"
| "ty_str (Type _ TVoid _) = ''void''"
| "ty_str (Type _ (TModule m) _) = ''module '' @ [CHR 39] @ mod_pkgpath m @ [CHR 39]"
| "ty_str (Type _ (TNamed name) _) = name"

fun ty_hint :: "type \<Rightarrow> string" where
  "ty_hint (Type _ (TStrLit s) _) = [CHR 34] @ s @ [CHR 34]"
| "ty_hint (Type _ (TIntLit v) _) = int_to_string (sint v)"
| "ty_hint (Type _ (TFloatLit v) _) = f64_display v"
| "ty_hint (Type _ (TList item) _) = ''['' @ ty_hint item @ '']''"
| "ty_hint (Type _ (TDict (DictType k v _)) _) = ''{'' @ ty_hint k @ '':'' @ ty_hint v @ ''}''"
| "ty_hint (Type _ (TUnion ts) _) = join '' | '' (map ty_hint ts)"
| "ty_hint t = ty_str t"

fun full_ty_str :: "type \<Rightarrow> string" where
  "full_ty_str (Type _ (TList item) _) = ''['' @ full_ty_str item @ '']''"
| "full_ty_str (Type _ (TDict (DictType k v _)) _) = ''{'' @ full_ty_str k @ '':'' @ full_ty_str v @ ''}''"
| "full_ty_str (Type _ (TUnion ts) _) = join '' | '' (map full_ty_str ts)"
| "full_ty_str (Type _ (TSchema s) _) = schema_full_ty_str s"
| "full_ty_str t = ty_str t"

text \<open>\<open>v.replace('"', "\\\"")\<close> and the annotation form of a type.\<close>

definition escape_quotes :: "string \<Rightarrow> string" where
  "escape_quotes s = concat (map (\<lambda>c. if c = CHR 34 then [CHR 92, CHR 34] else [c]) s)"

fun into_type_annotation_str :: "type \<Rightarrow> string" where
  "into_type_annotation_str (Type _ TNone _) = ''None''"
| "into_type_annotation_str (Type _ (TBoolLit v) _) = (if v then ''True'' else ''False'')"
| "into_type_annotation_str (Type _ (TIntLit v) _) = int_to_string (sint v)"
| "into_type_annotation_str (Type _ (TFloatLit v) _) =
     (let s = f64_display v in if CHR ''.'' \<in> set s then s else s @ ''.0'')"
| "into_type_annotation_str (Type _ (TStrLit v) _) = [CHR 34] @ escape_quotes v @ [CHR 34]"
| "into_type_annotation_str (Type _ (TList item) _) = ''['' @ into_type_annotation_str item @ '']''"
| "into_type_annotation_str (Type _ (TDict (DictType k v _)) _) =
     ''{'' @ into_type_annotation_str k @ '':'' @ into_type_annotation_str v @ ''}''"
| "into_type_annotation_str (Type _ (TUnion ts) _) = join '' | '' (map into_type_annotation_str ts)"
| "into_type_annotation_str (Type _ (TSchema s) _) = ty_str_with_at_pkgpath_prefix s"
| "into_type_annotation_str (Type _ (TNumberMultiplier n) _) =
     (if nm_is_literal n then number_multiplier_ty_str n else ''units.NumberMultiplier'')"
| "into_type_annotation_str t = ty_str t"

end
