(* ===== verification/SemaUnify.thy ===== *)
theory SemaUnify
  imports SemaType
begin

text \<open>
  The relations between types (\<open>sema/src/ty/unify.rs\<close>): equality, assignability (\<open>subsume\<close>), and the
  supremum of a list of types.
\<close>

section \<open>Equality\<close>

text \<open>
  The derived \<open>PartialEq\<close>: every field is compared; \<open>IndexMap\<close> and \<open>HashMap\<close> compare as maps, without
  order, and floats as IEEE numbers. Each combinator takes the equality of the types inside.
\<close>

definition option_eq :: "('a \<Rightarrow> 'a \<Rightarrow> bool) \<Rightarrow> 'a option \<Rightarrow> 'a option \<Rightarrow> bool" where
  "option_eq e x y =
     (case x of None \<Rightarrow> y = None | Some a \<Rightarrow> (case y of None \<Rightarrow> False | Some b \<Rightarrow> e a b))"

definition imap_eq :: "('v \<Rightarrow> 'v \<Rightarrow> bool) \<Rightarrow> (string, 'v) imap \<Rightarrow> (string, 'v) imap \<Rightarrow> bool" where
  "imap_eq e m n =
     (length m = length n \<and>
      list_all (\<lambda>(k, v). case imap_get n k of None \<Rightarrow> False | Some w \<Rightarrow> e v w) m)"

definition decorator_eq :: "decorator \<Rightarrow> decorator \<Rightarrow> bool" where
  "decorator_eq d e =
     (dec_target d = dec_target e \<and> dec_name d = dec_name e \<and> dec_key d = dec_key e \<and>
      dec_arguments d = dec_arguments e \<and> imap_eq (=) (dec_keywords d) (dec_keywords e))"

definition number_multiplier_eq :: "number_multiplier_type \<Rightarrow> number_multiplier_type \<Rightarrow> bool" where
  "number_multiplier_eq m n =
     (f64_eq (nm_value m) (nm_value n) \<and> nm_raw_value m = nm_raw_value n \<and>
      nm_binary_suffix m = nm_binary_suffix n \<and> nm_is_literal m = nm_is_literal n)"

definition attr_eq :: "('t \<Rightarrow> 't \<Rightarrow> bool) \<Rightarrow> 't attr \<Rightarrow> 't attr \<Rightarrow> bool" where
  "attr_eq e a b = (e (attr_ty a) (attr_ty b) \<and> attr_range a = attr_range b)"

definition dict_type_eq :: "('t \<Rightarrow> 't \<Rightarrow> bool) \<Rightarrow> 't dict_type \<Rightarrow> 't dict_type \<Rightarrow> bool" where
  "dict_type_eq e c d =
     (e (dt_key_ty c) (dt_key_ty d) \<and> e (dt_val_ty c) (dt_val_ty d) \<and>
      imap_eq (attr_eq e) (dt_attrs c) (dt_attrs d))"

definition parameter_eq :: "('t \<Rightarrow> 't \<Rightarrow> bool) \<Rightarrow> 't parameter \<Rightarrow> 't parameter \<Rightarrow> bool" where
  "parameter_eq e p q =
     (param_name p = param_name q \<and> e (param_ty p) (param_ty q) \<and>
      param_has_default p = param_has_default q \<and> param_default_value p = param_default_value q \<and>
      param_range p = param_range q)"

definition function_type_eq :: "('t \<Rightarrow> 't \<Rightarrow> bool) \<Rightarrow> 't function_type \<Rightarrow> 't function_type \<Rightarrow> bool" where
  "function_type_eq e f g =
     (fn_doc f = fn_doc g \<and> list_all2 (parameter_eq e) (fn_params f) (fn_params g) \<and>
      option_eq e (fn_self_ty f) (fn_self_ty g) \<and> e (fn_return_ty f) (fn_return_ty g) \<and>
      fn_is_variadic f = fn_is_variadic g \<and> fn_kw_only_index f = fn_kw_only_index g)"

definition schema_attr_eq :: "('t \<Rightarrow> 't \<Rightarrow> bool) \<Rightarrow> 't schema_attr \<Rightarrow> 't schema_attr \<Rightarrow> bool" where
  "schema_attr_eq e a b =
     (sa_is_optional a = sa_is_optional b \<and> sa_has_default a = sa_has_default b \<and>
      sa_default a = sa_default b \<and> e (sa_ty a) (sa_ty b) \<and> sa_range a = sa_range b \<and>
      sa_doc a = sa_doc b \<and> list_all2 decorator_eq (sa_decorators a) (sa_decorators b))"

definition index_signature_eq ::
    "('t \<Rightarrow> 't \<Rightarrow> bool) \<Rightarrow> 't schema_index_signature \<Rightarrow> 't schema_index_signature \<Rightarrow> bool" where
  "index_signature_eq e a b =
     (is_key_name a = is_key_name b \<and> e (is_key_ty a) (is_key_ty b) \<and> e (is_val_ty a) (is_val_ty b) \<and>
      is_any_other a = is_any_other b)"

lemma option_eq_cong [fundef_cong]:
  "x = x' \<Longrightarrow> y = y' \<Longrightarrow> (\<And>a b. x' = Some a \<Longrightarrow> f a b = g a b) \<Longrightarrow> option_eq f x y = option_eq g x' y'"
  by (auto simp: option_eq_def split: option.splits)

lemma imap_eq_cong [fundef_cong]:
  "m = m' \<Longrightarrow> n = n' \<Longrightarrow> (\<And>k v w. (k, v) \<in> set m' \<Longrightarrow> f v w = g v w) \<Longrightarrow> imap_eq f m n = imap_eq g m' n'"
  by (auto simp: imap_eq_def list_all_iff split: option.splits)

fun schema_type_eq :: "('t \<Rightarrow> 't \<Rightarrow> bool) \<Rightarrow> 't schema_ty \<Rightarrow> 't schema_ty \<Rightarrow> bool" where
  "schema_type_eq e (SchemaType nm pk fl dc ex ins mx pr rl base proto mixins attrs func isig decs) t =
     (nm = st_name t \<and> pk = st_pkgpath t \<and> fl = st_filename t \<and> dc = st_doc t \<and>
      imap_eq (=) ex (st_examples t) \<and> ins = st_is_instance t \<and> mx = st_is_mixin t \<and>
      pr = st_is_protocol t \<and> rl = st_is_rule t \<and>
      option_eq (schema_type_eq e) base (st_base t) \<and> option_eq (schema_type_eq e) proto (st_protocol t) \<and>
      list_all2 (schema_type_eq e) mixins (st_mixins t) \<and>
      imap_eq (schema_attr_eq e) attrs (st_attrs t) \<and> function_type_eq e func (st_func t) \<and>
      option_eq (index_signature_eq e) isig (st_index_signature t) \<and>
      list_all2 decorator_eq decs (st_decorators t))"

fun kind_eq :: "('t \<Rightarrow> 't \<Rightarrow> bool) \<Rightarrow> 't type_kind \<Rightarrow> 't type_kind \<Rightarrow> bool" where
  "kind_eq e (TFloatLit a) k = (case k of TFloatLit b \<Rightarrow> f64_eq a b | _ \<Rightarrow> False)"
| "kind_eq e (TList t) k = (case k of TList u \<Rightarrow> e t u | _ \<Rightarrow> False)"
| "kind_eq e (TDict c) k = (case k of TDict d \<Rightarrow> dict_type_eq e c d | _ \<Rightarrow> False)"
| "kind_eq e (TUnion ts) k = (case k of TUnion us \<Rightarrow> list_all2 e ts us | _ \<Rightarrow> False)"
| "kind_eq e (TSchema s) k = (case k of TSchema t \<Rightarrow> schema_type_eq e s t | _ \<Rightarrow> False)"
| "kind_eq e (TNumberMultiplier m) k =
     (case k of TNumberMultiplier n \<Rightarrow> number_multiplier_eq m n | _ \<Rightarrow> False)"
| "kind_eq e (TFunction f) k = (case k of TFunction g \<Rightarrow> function_type_eq e f g | _ \<Rightarrow> False)"
| "kind_eq e (TBoolLit a) k = (case k of TBoolLit b \<Rightarrow> a = b | _ \<Rightarrow> False)"
| "kind_eq e (TIntLit a) k = (case k of TIntLit b \<Rightarrow> a = b | _ \<Rightarrow> False)"
| "kind_eq e (TStrLit a) k = (case k of TStrLit b \<Rightarrow> a = b | _ \<Rightarrow> False)"
| "kind_eq e (TModule a) k = (case k of TModule b \<Rightarrow> a = b | _ \<Rightarrow> False)"
| "kind_eq e (TNamed a) k = (case k of TNamed b \<Rightarrow> a = b | _ \<Rightarrow> False)"
| "kind_eq e TNone k = (case k of TNone \<Rightarrow> True | _ \<Rightarrow> False)"
| "kind_eq e TAny k = (case k of TAny \<Rightarrow> True | _ \<Rightarrow> False)"
| "kind_eq e TBool k = (case k of TBool \<Rightarrow> True | _ \<Rightarrow> False)"
| "kind_eq e TInt k = (case k of TInt \<Rightarrow> True | _ \<Rightarrow> False)"
| "kind_eq e TFloat k = (case k of TFloat \<Rightarrow> True | _ \<Rightarrow> False)"
| "kind_eq e TStr k = (case k of TStr \<Rightarrow> True | _ \<Rightarrow> False)"
| "kind_eq e TVoid k = (case k of TVoid \<Rightarrow> True | _ \<Rightarrow> False)"

subsection \<open>The types inside a type are smaller\<close>

lemma set_attr_sel: "set_attr a = {attr_ty a}"
  by (cases a) simp

lemma set_parameter_sel: "set_parameter p = {param_ty p}"
  by (cases p) simp

lemma set_schema_attr_sel: "set_schema_attr a = {sa_ty a}"
  by (cases a) simp

lemma set_index_signature_sel: "set_schema_index_signature i = {is_key_ty i, is_val_ty i}"
  by (cases i) auto

lemma dict_type_eq_cong [fundef_cong]:
  assumes "c = c'" "d = d'" "\<And>x y. x \<in> set_dict_type c' \<Longrightarrow> f x y = g x y"
  shows "dict_type_eq f c d = dict_type_eq g c' d'"
proof -
  obtain k v attrs where c: "c' = DictType k v attrs" by (cases c')
  have in_set: "k \<in> set_dict_type c'" "v \<in> set_dict_type c'"
    "(n, a) \<in> set attrs \<Longrightarrow> attr_ty a \<in> set_dict_type c'" for n a
    by (force simp: c set_attr_sel)+
  have "imap_eq (attr_eq f) attrs m = imap_eq (attr_eq g) attrs m" for m
    by (rule imap_eq_cong [OF refl refl]) (simp add: attr_eq_def assms(3) [OF in_set(3)])
  then show ?thesis by (simp add: assms(1,2) c dict_type_eq_def assms(3) [OF in_set(1), unfolded c]
      assms(3) [OF in_set(2), unfolded c])
qed

lemma function_type_eq_cong [fundef_cong]:
  assumes "c = c'" "d = d'" "\<And>x y. x \<in> set_function_type c' \<Longrightarrow> f x y = g x y"
  shows "function_type_eq f c d = function_type_eq g c' d'"
proof -
  obtain dc ps self ret var kw where c: "c' = FunctionType dc ps self ret var kw" by (cases c')
  have in_set: "ret \<in> set_function_type c'" "self = Some t \<Longrightarrow> t \<in> set_function_type c'"
    "p \<in> set ps \<Longrightarrow> param_ty p \<in> set_function_type c'" for p t
    by (auto simp: c set_parameter_sel)
  have "list_all2 (parameter_eq f) ps qs = list_all2 (parameter_eq g) ps qs" for qs
    by (rule list_all2_fundef_cong [OF refl refl]) (simp add: parameter_eq_def assms(3) [OF in_set(3)])
  moreover have "option_eq f self o' = option_eq g self o'" for o'
    by (rule option_eq_cong [OF refl refl]) (simp add: assms(3) [OF in_set(2)])
  ultimately show ?thesis
    by (simp add: assms(1,2) c function_type_eq_def assms(3) [OF in_set(1), unfolded c])
qed

lemma schema_type_eq_cong_aux:
  "(\<And>x y. x \<in> set_schema_ty c \<Longrightarrow> f x y = g x y) \<Longrightarrow> schema_type_eq f c d = schema_type_eq g c d"
proof (induction c arbitrary: d)
  case (SchemaType nm pk fl dc ex ins mx pr rl base proto mixins attrs func isig decs)
  let ?c = "SchemaType nm pk fl dc ex ins mx pr rl base proto mixins attrs func isig decs"
  have sub: "u \<in> set_schema_ty ?c" if "s \<in> set_option base \<union> set_option proto \<union> set mixins"
    "u \<in> set_schema_ty s" for s u using that by auto
  have at: "sa_ty a \<in> set_schema_ty ?c" if "(k, a) \<in> set attrs" for k a
    using that by (force simp: set_schema_attr_sel)
  have fn: "u \<in> set_schema_ty ?c" if "u \<in> set_function_type func" for u using that by simp
  have ix: "is_key_ty i \<in> set_schema_ty ?c" "is_val_ty i \<in> set_schema_ty ?c" if "isig = Some i" for i
    using that by (simp_all add: set_index_signature_sel)
  have ih: "schema_type_eq f s t = schema_type_eq g s t"
    if "s \<in> set_option base \<union> set_option proto \<union> set mixins" for s t
  proof -
    have "f u w = g u w" if "u \<in> set_schema_ty s" for u w
      using SchemaType.prems sub [OF \<open>s \<in> _\<close> that] by blast
    with that SchemaType.IH show ?thesis by blast
  qed
  have "option_eq (schema_type_eq f) base b = option_eq (schema_type_eq g) base b" for b
    by (rule option_eq_cong [OF refl refl]) (rule ih, simp)
  moreover have "option_eq (schema_type_eq f) proto b = option_eq (schema_type_eq g) proto b" for b
    by (rule option_eq_cong [OF refl refl]) (rule ih, simp)
  moreover have "list_all2 (schema_type_eq f) mixins b = list_all2 (schema_type_eq g) mixins b" for b
    by (rule list_all2_fundef_cong [OF refl refl]) (rule ih, simp)
  moreover have "imap_eq (schema_attr_eq f) attrs b = imap_eq (schema_attr_eq g) attrs b" for b
    by (rule imap_eq_cong [OF refl refl]) (simp only: schema_attr_eq_def SchemaType.prems [OF at])
  moreover have "function_type_eq f func b = function_type_eq g func b" for b
    by (rule function_type_eq_cong [OF refl refl]) (rule SchemaType.prems [OF fn])
  moreover have "option_eq (index_signature_eq f) isig b = option_eq (index_signature_eq g) isig b" for b
    by (rule option_eq_cong [OF refl refl])
      (simp only: index_signature_eq_def SchemaType.prems [OF ix(1)] SchemaType.prems [OF ix(2)])
  ultimately show ?case by simp
qed

lemma schema_type_eq_cong [fundef_cong]:
  "c = c' \<Longrightarrow> d = d' \<Longrightarrow> (\<And>x y. x \<in> set_schema_ty c' \<Longrightarrow> f x y = g x y) \<Longrightarrow>
    schema_type_eq f c d = schema_type_eq g c' d'"
  using schema_type_eq_cong_aux [of c' f g d'] by simp

lemma kind_eq_cong [fundef_cong]:
  assumes "k = k'" "l = l'" "\<And>x y. x \<in> set_type_kind k' \<Longrightarrow> f x y = g x y"
  shows "kind_eq f k l = kind_eq g k' l'"
  using assms dict_type_eq_cong [OF refl refl, of _ f g] function_type_eq_cong [OF refl refl, of _ f g]
    schema_type_eq_cong_aux [of _ f g] list_all2_fundef_cong [OF refl refl, of _ f g]
  by (cases k') (simp_all split: type_kind.splits)

lemma size_member_list: "x \<in> set xs \<Longrightarrow> n \<le> f x \<Longrightarrow> n \<le> size_list f xs"
  by (rule size_list_estimation')

lemma size_member_dict: "x \<in> set_dict_type d \<Longrightarrow> f x \<le> size_dict_type f d"
proof (cases d)
  case (DictType k v attrs)
  have "f (attr_ty a) \<le> size_list (size_prod (\<lambda>_. 0) (size_attr f)) attrs" if "(n, a) \<in> set attrs" for n a
    using that by (rule size_member_list) (cases a, simp)
  with DictType show "x \<in> set_dict_type d \<Longrightarrow> ?thesis" by (fastforce simp: set_attr_sel)
qed

lemma size_member_function: "x \<in> set_function_type d \<Longrightarrow> f x \<le> size_function_type f d"
proof (cases d)
  case (FunctionType dc ps self ret var kw)
  have "f (param_ty p) \<le> size_list (size_parameter f) ps" if "p \<in> set ps" for p
    using that by (rule size_member_list) (cases p, simp)
  with FunctionType show "x \<in> set_function_type d \<Longrightarrow> ?thesis"
    by (fastforce simp: set_parameter_sel)
qed

lemma size_member_schema: "x \<in> set_schema_ty d \<Longrightarrow> f x \<le> size_schema_ty f d"
proof (induction d)
  case (SchemaType nm pk fl dc ex ins mx pr rl base proto mixins attrs func isig decs)
  have at: "f (sa_ty a) \<le> size_list (size_prod (\<lambda>_. 0) (size_schema_attr f)) attrs"
    if "(n, a) \<in> set attrs" for n a
    using that by (rule size_member_list) (cases a, simp)
  have mi: "f x \<le> size_list (size_schema_ty f) mixins" if "s \<in> set mixins" "x \<in> set_schema_ty s" for s
    using that(1) by (rule size_member_list) (rule SchemaType.IH(3) [OF that])
  have fu: "x \<in> set_function_type func \<Longrightarrow> f x \<le> size_function_type f func"
    by (rule size_member_function)
  consider s where "base = Some s" "x \<in> set_schema_ty s" | s where "proto = Some s" "x \<in> set_schema_ty s"
    | s where "s \<in> set mixins" "x \<in> set_schema_ty s" | n a where "(n, a) \<in> set attrs" "x = sa_ty a"
    | "x \<in> set_function_type func" | i where "isig = Some i" "x \<in> set_schema_index_signature i"
    using SchemaType.prems by (auto simp: set_schema_attr_sel)
  then show ?case
  proof cases
    case 1
    with SchemaType.IH(1) [of s] show ?thesis by (simp add: trans_le_add1)
  next
    case 2
    with SchemaType.IH(2) [of s] show ?thesis by (simp add: trans_le_add1 trans_le_add2)
  next
    case 6
    then show ?thesis by (cases i) auto
  qed (use at mi fu in \<open>fastforce+\<close>)
qed

lemma size_kind_member [termination_simp]: "t \<in> set_type_kind k \<Longrightarrow> size t < Suc (size_type_kind size k)"
  using size_member_dict [of t _ size] size_member_function [of t _ size] size_member_schema [of t _ size]
  by (cases k) (auto simp: less_Suc_eq_le elim: size_member_list intro: le_SucI)

fun type_eq :: "type \<Rightarrow> type \<Rightarrow> bool" where
  "type_eq (Type _ k al) u = (kind_eq type_eq k (ty_kind u) \<and> al = ty_is_type_alias u)"

definition equal :: "type \<Rightarrow> type \<Rightarrow> bool" where
  "equal t u = kind_eq type_eq (ty_kind t) (ty_kind u)"

section \<open>Assignability\<close>

fun is_sub_schema_of :: "'t schema_ty \<Rightarrow> 't schema_ty \<Rightarrow> bool" where
  "is_sub_schema_of (SchemaType nm pk fl dc ex ins mx pr rl base proto mixins attrs func isig decs) t =
     (if full_name pk nm = schema_full_ty_str t then True
      else case base of Some b \<Rightarrow> is_sub_schema_of b t | None \<Rightarrow> False)"

definition number_multiplier_subsume :: "number_multiplier_type \<Rightarrow> number_multiplier_type \<Rightarrow> bool" where
  "number_multiplier_subsume m n =
     (if nm_is_literal m \<and> nm_is_literal n then
        nm_raw_value m = nm_raw_value n \<and> nm_binary_suffix m = nm_binary_suffix n
      else if nm_is_literal m \<and> \<not> nm_is_literal n then True
      else nm_is_literal m \<or> \<not> nm_is_literal n)"

definition literal_subsume :: "type \<Rightarrow> type \<Rightarrow> bool" where
  "literal_subsume l r =
     (if ty_is_literal r then kind_eq type_eq (ty_kind l) (ty_kind r)
      else if ty_is_primitive r then
        (if ty_is_float r \<and> \<not> ty_is_str l then True else str_contains (ty_str l) (ty_str r))
      else False)"

text \<open>
  The branches in the order of the code. A downcast whose branch has tested the flag never panics: the
  option it returns stands for the flag test and the downcast together, and \<open>both\<close> for a test of both sides.
\<close>

definition both :: "('a \<Rightarrow> 'b option) \<Rightarrow> 'a \<Rightarrow> 'a \<Rightarrow> ('b \<times> 'b) option" where
  "both f x y = (case f x of None \<Rightarrow> None | Some a \<Rightarrow> map_option (Pair a) (f y))"

lemma both_eq_Some: "both f x y = Some (a, b) \<longleftrightarrow> f x = Some a \<and> f y = Some b"
  by (auto simp: both_def split: option.splits)

function subsume :: "type \<Rightarrow> type \<Rightarrow> bool \<Rightarrow> bool" where
  "subsume l r check_left_any =
     (if (check_left_any \<and> ty_is_any l) \<or> (ty_is_any r \<or> ty_is_none l) then True
      else case union_types l of Some ts \<Rightarrow> list_all (\<lambda>t. subsume t r False) ts
      | None \<Rightarrow> case union_types r of Some ts \<Rightarrow> list_ex (\<lambda>t. subsume l t False) ts
      | None \<Rightarrow> case into_schema_type l of
          Some s \<Rightarrow> (case into_schema_type r of Some t \<Rightarrow> is_sub_schema_of s t | None \<Rightarrow> False)
      | None \<Rightarrow>
      if ty_is_int l \<and> ty_is_float r then True
      else case both into_number_multiplier l r of Some (m, n) \<Rightarrow> number_multiplier_subsume m n
      | None \<Rightarrow>
      if ty_is_primitive l \<and> ty_is_primitive r then kind_eq type_eq (ty_kind l) (ty_kind r)
      else if ty_is_literal l then literal_subsume l r
      else case both list_item_ty l r of Some (a, b) \<Rightarrow> subsume a b check_left_any
      | None \<Rightarrow> case both dict_entry_ty l r of
          Some (c, d) \<Rightarrow> subsume (fst c) (fst d) check_left_any \<and> subsume (snd c) (snd d) check_left_any
      | None \<Rightarrow>
      if ty_is_str l \<and> ty_is_literal r \<and> ty_is_str r then True
      else case both into_func_type l r of
          Some (f, g) \<Rightarrow>
            length (fn_params f) = length (fn_params g) \<and>
            list_all (\<lambda>(p, q). subsume (param_ty q) (param_ty p) check_left_any)
              (zip (fn_params f) (fn_params g)) \<and>
            subsume (fn_return_ty f) (fn_return_ty g) check_left_any
      | None \<Rightarrow> equal l r)"
  by pat_completeness auto

lemma size_downcast:
  "union_types l = Some ts \<Longrightarrow> t \<in> set ts \<Longrightarrow> size t < size l"
  "list_item_ty l = Some a \<Longrightarrow> size a < size l"
  "dict_entry_ty l = Some c \<Longrightarrow> size (fst c) < size l \<and> size (snd c) < size l"
  "into_func_type l = Some f \<Longrightarrow> p \<in> set (fn_params f) \<Longrightarrow> size (param_ty p) < size l"
  "into_func_type l = Some f \<Longrightarrow> size (fn_return_ty f) < size l"
proof -
  show "union_types l = Some ts \<Longrightarrow> t \<in> set ts \<Longrightarrow> size t < size l"
    using size_type_members(1) [of t ts] by (cases l) (auto simp: union_types_def split: type_kind.splits)
  show "list_item_ty l = Some a \<Longrightarrow> size a < size l"
    by (cases l) (auto simp: list_item_ty_def split: type_kind.splits)
  show "dict_entry_ty l = Some c \<Longrightarrow> size (fst c) < size l \<and> size (snd c) < size l"
    using size_member_dict [of "fst c" _ size] size_member_dict [of "snd c" _ size]
    by (cases l) (auto simp: dict_entry_ty_def dict_type.set_sel less_Suc_eq_le intro: le_SucI
        split: type_kind.splits)
  show "into_func_type l = Some f \<Longrightarrow> size (fn_return_ty f) < size l"
    using size_type_members(6) [of "fn_return_ty f"]
    by (cases l; cases f) (auto simp: into_func_type_def split: type_kind.splits)
  show "into_func_type l = Some f \<Longrightarrow> p \<in> set (fn_params f) \<Longrightarrow> size (param_ty p) < size l"
    using size_type_members(5) [of p "fn_params f"]
    by (cases l; cases f) (auto simp: into_func_type_def split: type_kind.splits)
qed

lemma size_calls:
  "union_types l = Some ts \<Longrightarrow> t \<in> set ts \<Longrightarrow> size t + size r < size l + size r"
  "union_types r = Some ts \<Longrightarrow> t \<in> set ts \<Longrightarrow> size l + size t < size l + size r"
  "both list_item_ty l r = Some (a, b) \<Longrightarrow> size a + size b < size l + size r"
  "both dict_entry_ty l r = Some (c, d) \<Longrightarrow> size (fst c) + size (fst d) < size l + size r"
  "both dict_entry_ty l r = Some (c, d) \<Longrightarrow> size (snd c) + size (snd d) < size l + size r"
  "both into_func_type l r = Some (f, g) \<Longrightarrow>
    (p, q) \<in> set (zip (fn_params f) (fn_params g)) \<Longrightarrow>
    size (param_ty q) + size (param_ty p) < size l + size r"
  "both into_func_type l r = Some (f, g) \<Longrightarrow>
    size (fn_return_ty f) + size (fn_return_ty g) < size l + size r"
proof -
  show "both into_func_type l r = Some (f, g) \<Longrightarrow> (p, q) \<in> set (zip (fn_params f) (fn_params g)) \<Longrightarrow>
      size (param_ty q) + size (param_ty p) < size l + size r"
    using size_downcast(4) [of l f p] size_downcast(4) [of r g q] set_zip_leftD [of p q] set_zip_rightD [of p q]
    by (fastforce simp: both_eq_Some)
qed (auto simp: both_eq_Some dest!: size_downcast)

termination subsume
  by (relation "measure (\<lambda>(l, r, c). size l + size r)") (auto intro: size_calls size_downcast)

declare subsume.simps [simp del]

definition assignable_to :: "type \<Rightarrow> type \<Rightarrow> bool" where
  "assignable_to t expected = (if \<not> ty_is_assignable_type t then False else subsume t expected True)"

definition is_upper_bound :: "type \<Rightarrow> type \<Rightarrow> bool" where
  "is_upper_bound l r = subsume r l False"

definition has_any_type :: "type list \<Rightarrow> bool" where
  "has_any_type ts = list_ex ty_is_any ts"

section \<open>Suprema\<close>

text \<open>
  The type set is an \<open>IndexMap\<close> keyed by the address of the type. \<open>remove\<close> of an \<open>IndexMap\<close> swaps the
  last entry into the hole, and the addresses to remove come out of a \<open>HashSet\<close> in an order its hash
  function chooses: the argument \<open>hash_order\<close> lists the elements of a set.
\<close>

fun add_type :: "(nat, type) imap \<Rightarrow> type \<Rightarrow> (nat, type) imap" where
  "add_type m (Type a (TUnion ts) al) = fold (\<lambda>t m. add_type m t) ts m"
| "add_type m t =
     (if \<not> ty_is_void t \<and> \<not> imap_contains m (ty_addr t) then imap_insert (ty_addr t) t m else m)"

definition add_types :: "(nat, type) imap \<Rightarrow> type list \<Rightarrow> (nat, type) imap" where
  "add_types m ts = fold (\<lambda>t m. add_type m t) ts m"

fun removed_by :: "nat \<times> type \<Rightarrow> (nat, type) imap \<Rightarrow> nat list" where
  "removed_by (a, s) [] = []"
| "removed_by (a, s) ((b, t) # es) =
     (if subsume s t False then [a] else if subsume t s False then [b] else []) @ removed_by (a, s) es"

fun remove_index_set :: "(nat, type) imap \<Rightarrow> nat list" where
  "remove_index_set [] = []"
| "remove_index_set (e # es) = removed_by e es @ remove_index_set es"

definition typeof :: "(nat list \<Rightarrow> nat list) \<Rightarrow> nat \<Rightarrow> type list \<Rightarrow> bool \<Rightarrow> type" where
  "typeof hash_order addr ts should_remove_sub_types =
     (let type_set = add_types [] ts;
          type_set =
            (if should_remove_sub_types
             then fold imap_remove (hash_order (remove_index_set type_set)) type_set else type_set)
      in case type_set of
           [] \<Rightarrow> arc_new addr TAny
         | [(_, t)] \<Rightarrow> t
         | _ \<Rightarrow> ty_union addr (map snd type_set))"

definition sup_types :: "(nat list \<Rightarrow> nat list) \<Rightarrow> nat \<Rightarrow> type list \<Rightarrow> type" where
  "sup_types hash_order addr ts = typeof hash_order addr ts True"

end
