(* ===== verification/SemaOrder.thy ===== *)
theory SemaOrder
  imports SemaUnify
begin

text \<open>
  What the relations of \<open>sema/src/ty/unify.rs\<close> mean: assignability is reflexive, it is transitive on the
  types of plain data, and on these the supremum of a list of types is its least upper bound.
\<close>

section \<open>Reflexivity\<close>

fun self_equal_type :: "type \<Rightarrow> bool" where
  "self_equal_type (Type _ (TFloatLit a) _) = f64_eq a a"
| "self_equal_type (Type _ (TList t) _) = self_equal_type t"
| "self_equal_type (Type _ (TDict (DictType k v _)) _) = (self_equal_type k \<and> self_equal_type v)"
| "self_equal_type (Type _ (TUnion ts) _) = list_all self_equal_type ts"
| "self_equal_type (Type _ (TFunction (FunctionType _ ps _ ret _ _)) _) =
     (list_all (\<lambda>p. self_equal_type (param_ty p)) ps \<and> self_equal_type ret)"
| "self_equal_type _ = True"

fun leaves :: "type \<Rightarrow> type list" where
  "leaves (Type _ (TUnion ts) _) = concat (map leaves ts)"
| "leaves t = [t]"

lemma leaves_not_union: "u \<in> set (leaves t) \<Longrightarrow> union_types u = None"
  by (induction t rule: leaves.induct) (auto simp: union_types_def)

lemma leaves_non_union: "union_types t = None \<Longrightarrow> leaves t = [t]"
  by (cases t rule: leaves.cases) (auto simp: union_types_def)

lemma leaves_union: "union_types t = Some ts \<Longrightarrow> leaves t = concat (map leaves ts)"
  by (cases t rule: leaves.cases) (auto simp: union_types_def)

lemma size_leaves: "u \<in> set (leaves t) \<Longrightarrow> size u \<le> size t"
proof (induction t rule: leaves.induct)
  case (1 a ts al)
  then obtain t where t: "t \<in> set ts" "u \<in> set (leaves t)" by auto
  with 1 have "size u \<le> size t" by blast
  with size_type_members(1) [OF t(1), of a al] show ?case by simp
qed auto

lemma subsume_trivial [simp]:
  "ty_kind r = TAny \<Longrightarrow> subsume l r c"
  "ty_kind l = TNone \<Longrightarrow> subsume l r c"
  by (subst subsume.simps; simp add: ty_test_defs)+

lemma subsume_union_left:
  assumes "union_types l = Some ts" "ty_kind r \<noteq> TAny"
  shows "subsume l r c = list_all (\<lambda>t. subsume t r False) ts"
proof -
  have "ty_kind l = TUnion ts" using assms(1) by (auto simp: union_types_def split: type_kind.splits)
  with assms show ?thesis by (subst subsume.simps) (simp add: ty_test_defs)
qed

lemma subsume_union_right:
  assumes "union_types l = None" "union_types r = Some ts" "ty_kind l \<noteq> TNone"
  shows "subsume l r False = list_ex (\<lambda>t. subsume l t False) ts"
proof -
  have "ty_kind r = TUnion ts" using assms(2) by (auto simp: union_types_def split: type_kind.splits)
  with assms show ?thesis by (subst subsume.simps) (simp add: ty_test_defs)
qed

lemma subsume_leaves_left:
  "(\<And>u. u \<in> set (leaves l) \<Longrightarrow> subsume u r False) \<Longrightarrow> subsume l r False"
proof (induction l rule: leaves.induct)
  case (1 a ts al)
  then have "subsume t r False" if "t \<in> set ts" for t using that by auto
  then show ?case using subsume_union_left [of "Type a (TUnion ts) al" ts r False]
    by (cases "ty_kind r = TAny") (auto simp: union_types_def list_all_iff)
qed auto

lemma subsume_leaf_right:
  "u \<in> set (leaves r) \<Longrightarrow> subsume u u False \<Longrightarrow> subsume u r False"
proof (induction r rule: leaves.induct)
  case (1 a ts al)
  then obtain t where "t \<in> set ts" "subsume u t False" by auto
  with leaves_not_union [OF 1(2)] show ?case
    using subsume_union_right [of u "Type a (TUnion ts) al" ts]
    by (cases "ty_kind u = TNone") (auto simp: union_types_def list_ex_iff)
qed auto

lemma schema_subsume_refl: "is_sub_schema_of s s"
  by (cases s) (simp add: schema_full_ty_str_def)

lemmas subsume_cases_simps =
  ty_test_defs downcast_defs both_def ty_is_primitive_def equal_def literal_subsume_def

lemma subsume_refl_step:
  assumes "union_types t = None" "self_equal_type t"
    and "\<And>u. size u < size t \<Longrightarrow> self_equal_type u \<Longrightarrow> subsume u u c"
  shows "subsume t t c"
proof (cases t)
  case t: (Type a k al)
  show ?thesis
  proof (cases k)
    case (TList u)
    with t assms(2) assms(3) [of u] show ?thesis
      by (subst subsume.simps) (simp add: subsume_cases_simps)
  next
    case (TDict d)
    obtain kt vt attrs where d: "d = DictType kt vt attrs" by (cases d)
    with t TDict assms(2) assms(3) [of kt] assms(3) [of vt]
    show ?thesis by (subst subsume.simps) (simp add: subsume_cases_simps)
  next
    case (TFunction f)
    obtain dc ps self ret var kw where f: "f = FunctionType dc ps self ret var kw" by (cases f)
    have "subsume (param_ty p) (param_ty p) c" if "p \<in> set ps" for p
      using assms(2) t TFunction f that size_type_members(5) [OF that]
      by (intro assms(3)) (auto simp: list_all_iff)
    moreover have "subsume ret ret c"
      using assms(2) t TFunction f by (intro assms(3)) auto
    ultimately show ?thesis using t TFunction f
      by (subst subsume.simps) (auto simp: subsume_cases_simps zip_same list_all_iff)
  next
    case (TSchema s)
    with t show ?thesis by (subst subsume.simps) (simp add: subsume_cases_simps schema_subsume_refl)
  next
    case (TNumberMultiplier n)
    with t show ?thesis
      by (subst subsume.simps) (simp add: subsume_cases_simps number_multiplier_subsume_def)
  qed (use t assms(1,2) in \<open>subst subsume.simps, simp add: subsume_cases_simps\<close>)+
qed

lemma subsume_refl: "self_equal_type t \<Longrightarrow> subsume t t c"
proof (induction t arbitrary: c rule: measure_induct_rule [of size])
  case (less t)
  show ?case
  proof (cases "union_types t")
    case None
    show ?thesis by (rule subsume_refl_step [OF None less.prems]) (rule less.IH)
  next
    case (Some ts)
    have leaf: "subsume u t False" if u: "u \<in> set (leaves t)" for u
    proof -
      obtain v where v: "v \<in> set ts" "u \<in> set (leaves v)" using u leaves_union [OF Some] by auto
      then have "size u < size t" using size_leaves [OF v(2)] size_downcast(1) [OF Some v(1)] by simp
      moreover have "self_equal_type u" using less.prems u
        by (induction t rule: leaves.induct) (auto simp: list_all_iff)
      ultimately show ?thesis using less.IH subsume_leaf_right [OF u] by blast
    qed
    have "ty_kind t \<noteq> TAny" using Some by (auto simp: union_types_def)
    moreover have "subsume v t False" if "v \<in> set ts" for v
      by (rule subsume_leaves_left) (use that leaf leaves_union [OF Some] in auto)
    ultimately show ?thesis by (simp add: subsume_union_left [OF Some] list_all_iff)
  qed
qed

section \<open>Types of plain data\<close>

text \<open>Types made of \<open>None\<close>, \<open>any\<close>, the primitive types, lists, dicts and unions.\<close>

fun plain :: "type \<Rightarrow> bool" where
  "plain (Type _ (TList t) _) = plain t"
| "plain (Type _ (TDict (DictType k v _)) _) = (plain k \<and> plain v)"
| "plain (Type _ (TUnion ts) _) = list_all plain ts"
| "plain (Type _ k _) = (case k of TNone \<Rightarrow> True | TAny \<Rightarrow> True | TBool \<Rightarrow> True | TInt \<Rightarrow> True
     | TFloat \<Rightarrow> True | TStr \<Rightarrow> True | _ \<Rightarrow> False)"

lemma plain_downcast:
  "plain t \<Longrightarrow> union_types t = Some ts \<Longrightarrow> u \<in> set ts \<Longrightarrow> plain u"
  "plain t \<Longrightarrow> list_item_ty t = Some u \<Longrightarrow> plain u"
  "plain t \<Longrightarrow> dict_entry_ty t = Some c \<Longrightarrow> plain (fst c) \<and> plain (snd c)"
  by (cases t rule: plain.cases; auto simp: downcast_defs list_all_iff)+

text \<open>The relation between two such types that are no unions.\<close>

lemma subsume_plain:
  assumes "plain l" "plain r" "union_types l = None" "union_types r = None"
  shows "subsume l r False \<longleftrightarrow>
    ty_kind r = TAny \<or> ty_kind l = TNone \<or> (ty_kind l = TInt \<and> ty_kind r = TFloat) \<or>
    (ty_is_primitive l \<and> ty_kind l = ty_kind r) \<or>
    (\<exists>a b. list_item_ty l = Some a \<and> list_item_ty r = Some b \<and> subsume a b False) \<or>
    (\<exists>c d. dict_entry_ty l = Some c \<and> dict_entry_ty r = Some d \<and>
      subsume (fst c) (fst d) False \<and> subsume (snd c) (snd d) False)"
  using assms
  by (subst subsume.simps) (cases l rule: plain.cases; cases r rule: plain.cases;
      auto simp: subsume_cases_simps split: type_kind.splits)

lemma plain_kinds:
  assumes "plain t" "union_types t = None"
  shows "ty_kind t = TNone \<or> ty_kind t = TAny \<or> ty_is_primitive t \<or>
    (\<exists>a. list_item_ty t = Some a) \<or> (\<exists>c. dict_entry_ty t = Some c)"
  using assms by (cases t rule: plain.cases) (auto simp: downcast_defs ty_is_primitive_def split: type_kind.splits)

lemma downcast_kinds:
  "list_item_ty t = Some a \<Longrightarrow> ty_kind t = TList a"
  "union_types t = Some ts \<Longrightarrow> ty_kind t = TUnion ts"
  "dict_entry_ty t = Some c \<Longrightarrow> \<exists>d. ty_kind t = TDict d"
  by (auto simp: downcast_defs split: type_kind.splits)

lemma subsume_trans_base:
  assumes plain: "plain a" "plain b" "plain c"
    and no: "union_types a = None" "union_types b = None" "union_types c = None"
    and le: "subsume a b False" "subsume b c False"
    and IH: "\<And>x y z. size x + size y + size z < size a + size b + size c \<Longrightarrow> plain x \<Longrightarrow> plain y \<Longrightarrow> plain z \<Longrightarrow>
      subsume x y False \<Longrightarrow> subsume y z False \<Longrightarrow> subsume x z False"
  shows "subsume a c False"
proof -
  have list: "subsume x z False" if "list_item_ty a = Some x" "list_item_ty b = Some y" "list_item_ty c = Some z"
      "subsume x y False" "subsume y z False" for x y z
    using that plain size_downcast(2) [of a x] size_downcast(2) [of b y] size_downcast(2) [of c z]
    by (intro IH [of x y z]) (auto dest: plain_downcast(2))
  have dict: "subsume (fst x) (fst z) False \<and> subsume (snd x) (snd z) False"
    if "dict_entry_ty a = Some x" "dict_entry_ty b = Some y" "dict_entry_ty c = Some z"
      "subsume (fst x) (fst y) False" "subsume (fst y) (fst z) False"
      "subsume (snd x) (snd y) False" "subsume (snd y) (snd z) False" for x y z
    using that plain size_downcast(3) [of a x] size_downcast(3) [of b y] size_downcast(3) [of c z]
      plain_downcast(3) [of a x] plain_downcast(3) [of b y] plain_downcast(3) [of c z]
    by (auto intro: IH [of "fst x" "fst y" "fst z"] IH [of "snd x" "snd y" "snd z"])
  note le' = le(1) [unfolded subsume_plain [OF plain(1,2) no(1,2)]]
    le(2) [unfolded subsume_plain [OF plain(2,3) no(2,3)]]
  note goal = subsume_plain [OF plain(1,3) no(1,3)]
  from le'(1) consider "ty_kind b = TAny" | "ty_kind a = TNone" | "ty_kind a = TInt" "ty_kind b = TFloat"
    | "ty_is_primitive a" "ty_kind a = ty_kind b"
    | x y where "list_item_ty a = Some x" "list_item_ty b = Some y" "subsume x y False"
    | x y where "dict_entry_ty a = Some x" "dict_entry_ty b = Some y"
      "subsume (fst x) (fst y) False" "subsume (snd x) (snd y) False" by blast
  then show ?thesis
  proof cases
    case 1
    with le'(2) have "ty_kind c = TAny" by (auto simp: ty_is_primitive_def downcast_defs)
    then show ?thesis by simp
  next
    case 2
    then show ?thesis by simp
  next
    case 3
    with le'(2) show ?thesis unfolding goal by (auto simp: ty_is_primitive_def downcast_defs)
  next
    case 4
    with le'(2) show ?thesis unfolding goal
      by (auto simp: ty_is_primitive_def downcast_defs split: type_kind.splits)
  next
    case 5
    then have "ty_kind b = TList y" "dict_entry_ty b = None" by (auto simp: downcast_defs split: type_kind.splits)
    with le'(2) 5(2) have "ty_kind c = TAny \<or> (\<exists>z. list_item_ty c = Some z \<and> subsume y z False)"
      by (auto simp: ty_is_primitive_def)
    with list [OF 5(1,2) _ 5(3)] 5(1) show ?thesis unfolding goal by blast
  next
    case 6
    then obtain d where "ty_kind b = TDict d" "list_item_ty b = None"
      by (auto simp: downcast_defs split: type_kind.splits)
    with le'(2) 6(2) have "ty_kind c = TAny \<or> (\<exists>z. dict_entry_ty c = Some z \<and>
        subsume (fst y) (fst z) False \<and> subsume (snd y) (snd z) False)"
      by (auto simp: ty_is_primitive_def)
    with dict [OF 6(1,2) _ 6(3) _ 6(4)] 6(1) show ?thesis unfolding goal by blast
  qed
qed

lemma subsume_trans:
  "plain a \<Longrightarrow> plain b \<Longrightarrow> plain c \<Longrightarrow> subsume a b False \<Longrightarrow> subsume b c False \<Longrightarrow> subsume a c False"
proof (induction "(a, b, c)" arbitrary: a b c rule: measure_induct_rule [of "\<lambda>(a, b, c). size a + size b + size c"])
  case (less a b c)
  have IH: "subsume x z False" if "size x + size y + size z < size a + size b + size c" "plain x" "plain y"
      "plain z" "subsume x y False" "subsume y z False" for x y z
    using less(1) [of x y z] that by simp
  show ?case
  proof (cases "ty_kind c = TAny \<or> ty_kind a = TNone")
    case False
    then have k: "ty_kind c \<noteq> TAny" "ty_kind a \<noteq> TNone" by auto
    show ?thesis
    proof (cases "union_types a")
      case a: (Some ts)
      have "subsume t b False" if "t \<in> set ts" "ty_kind b \<noteq> TAny" for t
        using less(5) that subsume_union_left [OF a that(2)] by (simp add: list_all_iff)
      then have "subsume t c False" if "t \<in> set ts" for t
        using that size_downcast(1) [OF a that] plain_downcast(1) [OF less(2) a that] less(3,4,6)
        by (cases "ty_kind b = TAny") (auto intro!: IH [of t b c])
      then show ?thesis using subsume_union_left [OF a k(1)] by (simp add: list_all_iff)
    next
      case a: None
      show ?thesis
      proof (cases "union_types b")
        case b: (Some ts)
        then obtain t where t: "t \<in> set ts" "subsume a t False"
          using less(5) subsume_union_right [OF a b k(2)] by (auto simp: list_ex_iff)
        then have "subsume t c False" using less(6) subsume_union_left [OF b k(1)] by (simp add: list_all_iff)
        with t size_downcast(1) [OF b t(1)] plain_downcast(1) [OF less(3) b t(1)] less(2,4)
        show ?thesis by (auto intro!: IH [of a t c])
      next
        case b: None
        show ?thesis
        proof (cases "union_types c")
          case c: (Some ts)
          show ?thesis
          proof (cases "ty_kind b = TNone")
            case True
            then show ?thesis using less k a b subsume_plain [OF less(2,3) a b]
              by (auto simp: ty_is_primitive_def dest: downcast_kinds)
          next
            case False
            then obtain t where t: "t \<in> set ts" "subsume b t False"
              using less(6) subsume_union_right [OF b c] by (auto simp: list_ex_iff)
            with size_downcast(1) [OF c t(1)] plain_downcast(1) [OF less(4) c t(1)] less(2,3,5)
            have "subsume a t False" by (auto intro!: IH [of a b t])
            with t show ?thesis using subsume_union_right [OF a c k(2)] by (auto simp: list_ex_iff)
          qed
        next
          case c: None
          show ?thesis using less(2-6) a b c IH by (rule_tac subsume_trans_base [of a b c]) auto
        qed
      qed
    qed
  qed auto
qed

section \<open>Suprema\<close>

subsection \<open>The type set\<close>

definition add_leaf :: "type \<Rightarrow> (nat, type) imap \<Rightarrow> (nat, type) imap" where
  "add_leaf t m = (if \<not> ty_is_void t \<and> \<not> imap_contains m (ty_addr t) then imap_insert (ty_addr t) t m else m)"

lemma fold_add_type_leaves:
  assumes "\<And>t m. t \<in> set ts \<Longrightarrow> add_type m t = fold add_leaf (leaves t) m"
  shows "fold (\<lambda>t m. add_type m t) ts m = fold add_leaf (concat (map leaves ts)) m"
  using assms by (induction ts arbitrary: m) auto

lemma add_type_leaves: "add_type m t = fold add_leaf (leaves t) m"
proof (induction t arbitrary: m rule: leaves.induct)
  case (1 a ts al)
  then show ?case by (simp add: fold_add_type_leaves)
qed (auto simp: add_leaf_def)

lemma add_types_leaves: "add_types [] ts = fold add_leaf (concat (map leaves ts)) []"
  unfolding add_types_def by (intro fold_add_type_leaves add_type_leaves)

lemma set_add_leaf:
  "set (add_leaf u m) = set m \<union>
    (if \<not> ty_is_void u \<and> ty_addr u \<notin> set (imap_keys m) then {(ty_addr u, u)} else {})"
  by (auto simp: add_leaf_def imap_contains_iff imap_insert_new)

lemma fold_add_leaf_entries:
  "set (fold add_leaf us m) \<subseteq> set m \<union> {(ty_addr u, u) |u. u \<in> set us \<and> \<not> ty_is_void u}"
proof (induction us arbitrary: m)
  case (Cons u us)
  from Cons.IH [of "add_leaf u m"] show ?case by (auto simp: set_add_leaf split: if_splits)
qed simp

lemma fold_add_leaf_keys:
  "a \<in> set (imap_keys m) \<or> (\<exists>u\<in>set us. a = ty_addr u \<and> \<not> ty_is_void u) \<Longrightarrow>
    a \<in> set (imap_keys (fold add_leaf us m))"
proof (induction us arbitrary: m)
  case (Cons u us)
  have "a \<in> set (imap_keys (add_leaf u m)) \<or> (\<exists>u\<in>set us. a = ty_addr u \<and> \<not> ty_is_void u)"
    using Cons.prems by (auto simp: imap_keys_def set_add_leaf split: if_splits)
  then show ?case using Cons.IH by simp
qed simp

lemma imap_inv_fold_add_leaf: "imap_inv m \<Longrightarrow> imap_inv (fold add_leaf us m)"
  by (induction us arbitrary: m) (auto simp: add_leaf_def)

definition address_consistent :: "type list \<Rightarrow> bool" where
  "address_consistent us = (\<forall>u\<in>set us. \<forall>v\<in>set us. ty_addr u = ty_addr v \<longrightarrow> u = v)"

lemma set_add_types:
  assumes "address_consistent (concat (map leaves ts))"
  shows "set (add_types [] ts) = {(ty_addr u, u) |u. u \<in> set (concat (map leaves ts)) \<and> \<not> ty_is_void u}"
    (is "?S = ?L")
proof
  let ?us = "concat (map leaves ts)"
  show sub: "?S \<subseteq> ?L" using fold_add_leaf_entries [of ?us "[]"] by (simp only: add_types_leaves) auto
  show "?L \<subseteq> ?S"
  proof clarify
    fix u assume u: "u \<in> set ?us" "\<not> ty_is_void u"
    then have "ty_addr u \<in> set (imap_keys (add_types [] ts))"
      unfolding add_types_leaves by (intro fold_add_leaf_keys) blast
    then obtain v where v: "(ty_addr u, v) \<in> ?S" by (auto simp: imap_keys_def)
    then have "v \<in> set ?us" "ty_addr v = ty_addr u" using sub by auto
    with u assms v show "(ty_addr u, u) \<in> ?S" unfolding address_consistent_def by metis
  qed
qed

subsection \<open>The types that stay dominate the ones removed\<close>

lemma removed_by_iff:
  "c \<in> set (removed_by (a, s) es) \<longleftrightarrow>
    (\<exists>(b, t)\<in>set es. if subsume s t False then c = a else subsume t s False \<and> c = b)"
  by (induction "(a, s)" es rule: removed_by.induct) auto

lemma remove_index_set_keys: "set (remove_index_set es) \<subseteq> set (imap_keys es)"
proof (induction es rule: remove_index_set.induct)
  case (2 e es)
  have "set (removed_by e es) \<subseteq> insert (fst e) (set (imap_keys es))"
    by (cases e) (force simp: removed_by_iff imap_keys_def split: if_splits)
  with 2 show ?case by (cases e) auto
qed simp

lemma plain_self_equal: "plain t \<Longrightarrow> self_equal_type t"
  by (induction t rule: plain.induct) (auto simp: list_all_iff)

lemma removed_by_member:
  assumes "imap_inv ((a, s) # es)" "y \<in> set es"
  shows "fst y \<in> set (removed_by (a, s) es) \<longleftrightarrow> \<not> subsume s (snd y) False \<and> subsume (snd y) s False"
proof -
  have "fst y \<noteq> a" using assms by (auto simp: imap_keys_def)
  moreover have "b = fst y \<Longrightarrow> (b, t) \<in> set es \<Longrightarrow> t = snd y" for b t
    using assms by (metis eq_key_imp_eq_value imap_inv_def distinct.simps(2) list.simps(9) prod.collapse)
  ultimately have "(\<exists>(b, t)\<in>set es. if subsume s t False then fst y = a else subsume t s False \<and> fst y = b) \<longleftrightarrow>
      (\<exists>(b, t)\<in>set es. b = fst y \<and> t = snd y \<and> \<not> subsume s (snd y) False \<and> subsume (snd y) s False)"
    by (auto split: if_splits)
  with assms(2) show ?thesis unfolding removed_by_iff by auto
qed

lemma kept_dominates:
  assumes "imap_inv es" "\<And>e. e \<in> set es \<Longrightarrow> plain (snd e)" "x \<in> set es"
  shows "\<exists>y\<in>set es. fst y \<notin> set (remove_index_set es) \<and> subsume (snd x) (snd y) False"
  using assms
proof (induction es arbitrary: x rule: remove_index_set.induct)
  case (2 e es)
  obtain a s where e: "e = (a, s)" by (cases e)
  have a: "a \<notin> set (imap_keys es)" and inv: "imap_inv es" using 2(2) e by auto
  have "fst x \<in> set (imap_keys es)" if "x \<in> set es" for x using that by (simp add: imap_keys_def)
  with a have fresh: "fst x \<noteq> a" if "x \<in> set es" for x using that by blast
  have IH: "\<exists>y\<in>set es. fst y \<notin> set (remove_index_set es) \<and> subsume (snd x) (snd y) False"
    if "x \<in> set es" for x using 2(1) [OF inv _ that] 2(3) by simp
  have trans: "subsume (snd p) (snd r) False" if "subsume (snd p) (snd q) False" "subsume (snd q) (snd r) False"
      "{p, q, r} \<subseteq> set (e # es)" for p q r
    using that 2(3) by (intro subsume_trans [of "snd p" "snd q" "snd r"]) auto
  note hit = removed_by_member [OF 2(2) [unfolded e], folded e]
  have top: "\<exists>y\<in>set (e # es). fst y \<notin> set (remove_index_set (e # es)) \<and> subsume s (snd y) False"
  proof (cases "\<exists>t\<in>set es. subsume s (snd t) False")
    case True
    then obtain t y where t: "t \<in> set es" "subsume s (snd t) False"
      "y \<in> set es" "fst y \<notin> set (remove_index_set es)" "subsume (snd t) (snd y) False" using IH by blast
    then have "subsume s (snd y) False" using trans [of e t y] e by simp
    with t hit show ?thesis by auto
  next
    case False
    then have "a \<notin> set (removed_by e es)" using fresh by (force simp: e removed_by_iff)
    moreover have "a \<notin> set (remove_index_set es)" using a remove_index_set_keys by blast
    moreover have "subsume s s False" using 2(3) [of e] e by (simp add: subsume_refl plain_self_equal)
    ultimately show ?thesis using e by auto
  qed
  show ?case
  proof (cases "x = e")
    case True
    then show ?thesis using top e by simp
  next
    case False
    then obtain y where y: "y \<in> set es" "fst y \<notin> set (remove_index_set es)" "subsume (snd x) (snd y) False"
      using IH [of x] 2(4) by (auto simp del: split_paired_All split_paired_Ex)
    show ?thesis
    proof (cases "fst y \<in> set (removed_by e es)")
      case True
      with hit y have "subsume (snd x) (snd e) False" using trans [of x y e] 2(4) e by auto
      moreover obtain z where z: "z \<in> set (e # es)" "fst z \<notin> set (remove_index_set (e # es))"
        "subsume (snd e) (snd z) False" using top unfolding e snd_conv by blast
      ultimately have "subsume (snd x) (snd z) False" using trans [of x e z] 2(4) by simp
      with z show ?thesis by blast
    next
      case False
      with y show ?thesis by auto
    qed
  qed
qed simp

subsection \<open>The supremum is the least upper bound\<close>

lemma fold_imap_remove:
  assumes "imap_inv m"
  shows "set (fold imap_remove ks m) = {e \<in> set m. fst e \<notin> set ks}"
  using assms by (induction ks arbitrary: m) (auto simp: set_imap_remove)

text \<open>The members a supremum is built of.\<close>

definition sup_members :: "(nat list \<Rightarrow> nat list) \<Rightarrow> type list \<Rightarrow> type set" where
  "sup_members hash_order ts =
     (let type_set = add_types [] ts
      in snd ` set (fold imap_remove (hash_order (remove_index_set type_set)) type_set))"

lemma subsume_sup_types:
  assumes "u \<in> sup_members hash_order ts" "union_types u = None" "subsume v u False" "union_types v = None"
  shows "subsume v (sup_types hash_order addr ts) False"
proof -
  let ?S = "fold imap_remove (hash_order (remove_index_set (add_types [] ts))) (add_types [] ts)"
  show ?thesis
  proof (cases "\<exists>e. ?S = [e]")
    case True
    then show ?thesis using assms
      by (auto simp: sup_members_def sup_types_def typeof_def Let_def)
  next
    case False
    with assms have "sup_types hash_order addr ts = ty_union addr (map snd ?S)"
      by (auto simp: sup_members_def sup_types_def typeof_def Let_def split: list.splits)
    moreover have "u \<in> set (map snd ?S)" using assms(1) by (simp add: sup_members_def Let_def)
    ultimately show ?thesis using assms(3,4) subsume_union_right [of v "ty_union addr (map snd ?S)" "map snd ?S"]
      by (cases "ty_kind v = TNone") (auto simp: list_ex_iff ty_union_def union_types_def)
  qed
qed

lemma sup_types_subsume:
  assumes "sup_members hash_order ts \<noteq> {}" "\<And>u. u \<in> sup_members hash_order ts \<Longrightarrow> subsume u b False"
  shows "subsume (sup_types hash_order addr ts) b False"
proof -
  let ?S = "fold imap_remove (hash_order (remove_index_set (add_types [] ts))) (add_types [] ts)"
  have "?S \<noteq> []" using assms(1) by (auto simp: sup_members_def Let_def)
  then consider e where "?S = [e]" | e f es where "?S = e # f # es" by (metis neq_Nil_conv)
  then show ?thesis
  proof cases
    case 1
    then show ?thesis using assms
      by (auto simp: sup_members_def sup_types_def typeof_def Let_def split: prod.splits)
  next
    case 2
    have "subsume u b False" if "u \<in> set (map snd ?S)" for u
      using that assms(2) by (simp add: sup_members_def Let_def)
    moreover have "sup_types hash_order addr ts = ty_union addr (map snd ?S)"
      using 2 by (simp add: sup_types_def typeof_def Let_def split: prod.splits)
    ultimately show ?thesis using subsume_union_left [of "ty_union addr (map snd ?S)" "map snd ?S" b False]
      by (cases "ty_kind b = TAny") (auto simp: list_all_iff ty_union_def union_types_def)
  qed
qed

lemma leaves_below:
  "subsume t b False \<Longrightarrow> u \<in> set (leaves t) \<Longrightarrow> subsume u b False"
proof (induction t rule: leaves.induct)
  case (1 a ts al)
  then show ?case using subsume_union_left [of "Type a (TUnion ts) al" ts b False]
    by (cases "ty_kind b = TAny") (auto simp: list_all_iff union_types_def)
qed auto

lemma plain_leaves: "plain t \<Longrightarrow> u \<in> set (leaves t) \<Longrightarrow> plain u \<and> \<not> ty_is_void u"
proof (induction t rule: leaves.induct)
  case (1 a ts al)
  then show ?case by (auto simp: list_all_iff)
qed (auto simp: ty_test_defs)

lemma sup_members_dominate:
  assumes "address_consistent (concat (map leaves ts))" "\<And>xs. set (hash_order xs) = set xs"
    and "list_all plain ts" "u \<in> set (concat (map leaves ts))"
  shows "\<exists>v\<in>sup_members hash_order ts. union_types v = None \<and> subsume u v False"
proof -
  let ?S = "add_types [] ts"
  have S: "set ?S = {(ty_addr u, u) |u. u \<in> set (concat (map leaves ts)) \<and> \<not> ty_is_void u}"
    by (rule set_add_types [OF assms(1)])
  have inv: "imap_inv ?S" by (simp add: add_types_leaves imap_inv_fold_add_leaf)
  have leaf: "plain w \<and> \<not> ty_is_void w" if "w \<in> set (concat (map leaves ts))" for w
    using that assms(3) by (auto simp: list_all_iff dest: plain_leaves)
  have "plain (snd e)" if "e \<in> set ?S" for e using that leaf unfolding S by (auto simp del: set_concat)
  moreover have "(ty_addr u, u) \<in> set ?S" using assms(4) leaf unfolding S by blast
  ultimately obtain y where y: "y \<in> set ?S" "fst y \<notin> set (remove_index_set ?S)" "subsume u (snd y) False"
    using kept_dominates [OF inv, of "(ty_addr u, u)"] by auto
  then have "snd y \<in> sup_members hash_order ts"
    using fold_imap_remove [OF inv] assms(2) by (auto simp: sup_members_def Let_def)
  moreover have "union_types (snd y) = None" using y(1) leaves_not_union unfolding S by auto
  ultimately show ?thesis using y(3) by blast
qed

lemma sup_types_bound:
  assumes "list_all plain ts" "address_consistent (concat (map leaves ts))" "\<And>xs. set (hash_order xs) = set xs"
    and "t \<in> set ts"
  shows "subsume t (sup_types hash_order addr ts) False"
proof (rule subsume_leaves_left)
  fix u assume u: "u \<in> set (leaves t)"
  with assms(4) obtain v where "v \<in> sup_members hash_order ts" "union_types v = None" "subsume u v False"
    using sup_members_dominate [OF assms(2,3,1), of u] by auto
  then show "subsume u (sup_types hash_order addr ts) False"
    by (rule subsume_sup_types) (rule leaves_not_union [OF u])
qed

lemma sup_members_leaves: "v \<in> sup_members hash_order ts \<Longrightarrow> v \<in> set (concat (map leaves ts))"
  using fold_add_leaf_entries [of "concat (map leaves ts)" "[]"]
    fold_imap_remove [OF imap_inv_fold_add_leaf [OF imap_inv_simps(1)]]
  by (force simp: sup_members_def Let_def add_types_leaves)

lemma plain_sup_types:
  assumes "list_all plain ts"
  shows "plain (sup_types hash_order addr ts)"
proof -
  let ?S = "fold imap_remove (hash_order (remove_index_set (add_types [] ts))) (add_types [] ts)"
  have "plain v" if "v \<in> snd ` set ?S" for v
    using that sup_members_leaves [of v hash_order ts] assms plain_leaves
    by (auto simp: sup_members_def Let_def list_all_iff)
  moreover have "sup_types hash_order addr ts =
      (case ?S of [] \<Rightarrow> arc_new addr TAny | [(_, t)] \<Rightarrow> t | _ \<Rightarrow> ty_union addr (map snd ?S))"
    by (simp add: sup_types_def typeof_def Let_def)
  ultimately show ?thesis
    by (auto simp: arc_new_def ty_union_def list_all_iff split: list.splits)
qed



text \<open>
  C15: on the types of plain data (None, any, the primitive types, lists, dicts and unions of these), the
  supremum of a list of types is its least upper bound: every type of the list is assignable to it, and
  it is assignable to every type all of them are assignable to. The set of addresses to remove may be
  traversed in any order; two members at one address are the same type.
\<close>

theorem supremum_is_least_bound:
  assumes "list_all plain ts" "address_consistent (concat (map leaves ts))" "\<And>xs. set (hash_order xs) = set xs"
  shows "(\<forall>t\<in>set ts. is_upper_bound (sup_types hash_order addr ts) t) \<and>
    (\<forall>b. concat (map leaves ts) \<noteq> [] \<and> (\<forall>t\<in>set ts. is_upper_bound b t) \<longrightarrow>
      is_upper_bound b (sup_types hash_order addr ts))"
proof (intro conjI ballI allI impI)
  fix t assume "t \<in> set ts"
  with assms show "is_upper_bound (sup_types hash_order addr ts) t"
    unfolding is_upper_bound_def by (intro sup_types_bound)
next
  fix b assume b: "concat (map leaves ts) \<noteq> [] \<and> (\<forall>t\<in>set ts. is_upper_bound b t)"
  then obtain u where "u \<in> set (concat (map leaves ts))" by (meson last_in_set)
  then have "sup_members hash_order ts \<noteq> {}" using sup_members_dominate [OF assms(2,3,1)] by blast
  moreover have "subsume v b False" if "v \<in> sup_members hash_order ts" for v
  proof -
    have "v \<in> set (concat (map leaves ts))" using that by (rule sup_members_leaves)
    with b show ?thesis by (auto simp: is_upper_bound_def intro: leaves_below)
  qed
  ultimately show "is_upper_bound b (sup_types hash_order addr ts)"
    unfolding is_upper_bound_def by (rule sup_types_subsume)
qed

theorem supremum_is_least_bound_witness:
  "is_upper_bound (sup_types (\<lambda>xs. xs) 9 [Type 1 TInt False, Type 2 TFloat False, Type 3 TStr False]) (Type 1 TInt False)"
  using supremum_is_least_bound [of "[Type 1 TInt False, Type 2 TFloat False, Type 3 TStr False]" "\<lambda>xs. xs" 9]
  by (simp add: address_consistent_def)

text \<open>
  Without the restriction to plain data a supremum need not be a bound: \<open>str\<close> is assignable to every string
  literal, so \<open>str\<close> is removed next to a literal after it, and the literal \<open>"x"\<close> before it because of \<open>str\<close>.
\<close>

lemma supremum_of_literals_no_bound:
  "sup_types (\<lambda>xs. xs) 9 [Type 1 (TStrLit ''x'') False, Type 2 TStr False, Type 3 (TStrLit ''y'') False] =
     Type 3 (TStrLit ''y'') False"
  "\<not> is_upper_bound (Type 3 (TStrLit ''y'') False) (Type 1 (TStrLit ''x'') False)"
  by (simp_all add: sup_types_def typeof_def add_types_def ty_test_defs imap_contains_def subsume.simps
      subsume_cases_simps is_upper_bound_def imap_remove_def)

end
