(* ===== verification/ValueType.thy ===== *)
theory ValueType
  imports ValuePlan RustStr
begin

text \<open>
  The runtime check of a value against a type string (\<open>runtime/src/value/val_type.rs\<close>): the scanners
  that split unions and dict types outside of brackets and quotes, and \<open>check_type\<close>, which walks the
  type string together with the value. A panic of a scanner is an error value.
\<close>

section \<open>Characters and the library\<close>

text \<open>
  What the code takes from elsewhere: \<open>find_quoted q\<close> is the text that the regular expression for a
  string literal with quote \<open>q\<close> finds first in a string (\<open>fancy_regex\<close>), \<open>is_multiplier\<close> the match
  with \<open>NUMBER_MULTIPLIER_REGEX\<close>, and \<open>debug_plain\<close> says of a character outside of ASCII whether
  \<open>{:?}\<close> prints it as it is (the Unicode tables of the standard library).
\<close>

record type_lib =
  find_quoted :: "char \<Rightarrow> string \<Rightarrow> string option"
  is_multiplier :: "string \<Rightarrow> bool"
  debug_plain :: "string \<Rightarrow> bool"

definition byte_of :: "char \<Rightarrow> nat" where
  "byte_of c = of_char c"

fun char_code :: "string \<Rightarrow> nat" where
  "char_code [a] = byte_of a"
| "char_code [a, b] = byte_of a mod 32 * 64 + byte_of b mod 64"
| "char_code [a, b, c] = (byte_of a mod 16 * 64 + byte_of b mod 64) * 64 + byte_of c mod 64"
| "char_code [a, b, c, d] =
     ((byte_of a mod 8 * 64 + byte_of b mod 64) * 64 + byte_of c mod 64) * 64 + byte_of d mod 64"
| "char_code _ = 0"

definition debug_char :: "type_lib \<Rightarrow> string \<Rightarrow> string" where
  "debug_char lib g =
     (let n = char_code g; hex = CHR 92 # ''u{'' @ nat_to_radix 16 n @ ''}'' in
      if n = 0 then [CHR 92, CHR ''0'']
      else if n = 9 then [CHR 92, CHR ''t'']
      else if n = 13 then [CHR 92, CHR ''r'']
      else if n = 10 then [CHR 92, CHR ''n'']
      else if n = 34 \<or> n = 92 then CHR 92 # g
      else if n < 128 then (if 32 \<le> n \<and> n < 127 then g else hex)
      else if debug_plain lib g then g else hex)"

text \<open>\<open>format!("{:?}", s)\<close>\<close>

definition str_debug :: "type_lib \<Rightarrow> string \<Rightarrow> string" where
  "str_debug lib s = [CHR 34] @ concat (map (debug_char lib) (str_chars s)) @ [CHR 34]"

definition is_digit_byte :: "char \<Rightarrow> bool" where
  "is_digit_byte c = (48 \<le> byte_of c \<and> byte_of c \<le> 57)"

definition str_isdigit :: "string \<Rightarrow> bool" where
  "str_isdigit s =
     (s \<noteq> [] \<and>
      list_all (\<lambda>g. char_code g mod 65536 \<in>
          {0x2070, 0x00B9, 0x00B2, 0x00B3, 0x2074, 0x2075, 0x2076, 0x2077, 0x2078, 0x2079})
        (filter (\<lambda>g. \<not> list_all is_digit_byte g) (str_chars s)))"

section \<open>Results of a loop that may panic\<close>

fun any_res :: "('a \<Rightarrow> bool res) \<Rightarrow> 'a list \<Rightarrow> bool res" where
  "any_res f [] = Ok False"
| "any_res f (x # xs) = bind_res (f x) (\<lambda>b. if b then Ok True else any_res f xs)"

fun all_res :: "('a \<Rightarrow> bool res) \<Rightarrow> 'a list \<Rightarrow> bool res" where
  "all_res f [] = Ok True"
| "all_res f (x # xs) = bind_res (f x) (\<lambda>b. if b then all_res f xs else Ok False)"

lemma any_res_cong [fundef_cong]:
  "xs = ys \<Longrightarrow> (\<And>x. x \<in> set ys \<Longrightarrow> f x = g x) \<Longrightarrow> any_res f xs = any_res g ys"
  by (induction ys arbitrary: xs) (auto intro!: bind_res_cong)

lemma all_res_cong [fundef_cong]:
  "xs = ys \<Longrightarrow> (\<And>x. x \<in> set ys \<Longrightarrow> f x = g x) \<Longrightarrow> all_res f xs = all_res g ys"
  by (induction ys arbitrary: xs) (auto intro!: bind_res_cong)

lemma any_res_Ok: "(\<And>x. x \<in> set xs \<Longrightarrow> f x = Ok (g x)) \<Longrightarrow> any_res f xs = Ok (list_ex g xs)"
  by (induction xs) auto

lemma all_res_Ok: "(\<And>x. x \<in> set xs \<Longrightarrow> f x = Ok (g x)) \<Longrightarrow> all_res f xs = Ok (list_all g xs)"
  by (induction xs) auto

section \<open>Scanning type strings\<close>

definition quote_char :: "string \<Rightarrow> bool" where
  "quote_char c = (c = [CHR 34] \<or> c = [CHR 39])"

definition opens_bracket :: "string \<Rightarrow> bool" where
  "opens_bracket c = (c = ''['' \<or> c = ''{'')"

definition closes_bracket :: "string \<Rightarrow> bool" where
  "closes_bracket c = (c = '']'' \<or> c = ''}'')"

text \<open>
  The two loops walk the characters with an index; the state is the rest of the characters. A string
  literal is skipped by the length of what the regular expression finds (a match has two characters at least).
\<close>

definition skip_quoted :: "type_lib \<Rightarrow> string \<Rightarrow> string list \<Rightarrow> nat" where
  "skip_quoted lib c rest =
     (case find_quoted lib (hd c) (concat (c # rest)) of
        Some v \<Rightarrow> length (str_chars v) - 1 | None \<Rightarrow> 0)"

function is_type_union_from :: "type_lib \<Rightarrow> string list \<Rightarrow> string list \<Rightarrow> bool" where
  "is_type_union_from lib [] stack = False"
| "is_type_union_from lib (c # rest) stack =
     (if c = ''|'' \<and> stack = [] then True
      else if opens_bracket c then is_type_union_from lib rest (c # stack)
      else if closes_bracket c then is_type_union_from lib rest (tl stack)
      else if quote_char c then is_type_union_from lib (drop (skip_quoted lib c rest) rest) stack
      else is_type_union_from lib rest stack)"
  by pat_completeness auto
termination by (relation "measure (\<lambda>(lib, cs, stack). length cs)") auto

definition is_type_union :: "type_lib \<Rightarrow> string \<Rightarrow> bool" where
  "is_type_union lib tpe = is_type_union_from lib (str_chars tpe) []"

text \<open>\<open>cur\<close> is the slice from the last separator to the index.\<close>

function split_from :: "type_lib \<Rightarrow> string list \<Rightarrow> string list \<Rightarrow> string \<Rightarrow> string list" where
  "split_from lib [] stack cur = [cur]"
| "split_from lib (c # rest) stack cur =
     (if c = ''|'' \<and> stack = [] then cur # split_from lib rest stack []
      else if opens_bracket c then split_from lib rest (c # stack) (cur @ c)
      else if closes_bracket c then split_from lib rest (tl stack) (cur @ c)
      else if quote_char c then
        (let n = skip_quoted lib c rest
         in split_from lib (drop n rest) stack (cur @ c @ concat (take n rest)))
      else split_from lib rest stack (cur @ c))"
  by pat_completeness auto
termination by (relation "measure (\<lambda>(lib, cs, stack, cur). length cs)") auto

abbreviation strip_char :: "char \<Rightarrow> bool" where
  "strip_char c \<equiv> c = CHR '' '' \<or> c = CHR 9"

definition ty_str_strip :: "string \<Rightarrow> string" where
  "ty_str_strip s = rev (dropWhile strip_char (rev (dropWhile strip_char s)))"

definition split_type_union :: "type_lib \<Rightarrow> string \<Rightarrow> string list" where
  "split_type_union lib tpe = map ty_str_strip (split_from lib (str_chars tpe) [] [])"

definition invalid_type_string :: "string \<Rightarrow> 'a res" where
  "invalid_type_string s = Err (BuiltinPanic (''invalid type string '' @ s))"

text \<open>
  \<open>n\<close> counts characters and the slices count bytes; the last character of an empty stack is out of bounds.
\<close>

fun separate_kv_from :: "string \<Rightarrow> nat \<Rightarrow> string list \<Rightarrow> string list \<Rightarrow> (string \<times> string) res" where
  "separate_kv_from t n [] stack = Ok ([], [])"
| "separate_kv_from t n (c # rest) stack =
     (if opens_bracket c then separate_kv_from t (Suc n) rest (c # stack)
      else if c = '']'' then
        (case stack of
           [] \<Rightarrow> Err (RustPanic Bounds)
         | b # bs \<Rightarrow> if b \<noteq> ''['' then invalid_type_string t else separate_kv_from t (Suc n) rest bs)
      else if c = ''}'' then
        (case stack of
           [] \<Rightarrow> Err (RustPanic Bounds)
         | b # bs \<Rightarrow> if b \<noteq> ''{'' then invalid_type_string t else separate_kv_from t (Suc n) rest bs)
      else if c = '':'' then
        (if stack \<noteq> [] then invalid_type_string t
         else bind_res (str_slice t 0 n) (\<lambda>k.
              bind_res (str_slice t (n + 1) (length t)) (\<lambda>v. Ok (k, v))))
      else separate_kv_from t (Suc n) rest stack)"

definition separate_kv :: "string \<Rightarrow> (string \<times> string) res" where
  "separate_kv t = separate_kv_from t 0 (str_chars t) []"

definition ends_at :: "string \<Rightarrow> string \<Rightarrow> bool res" where
  "ends_at t b = bind_res (str_slice t (length t - 1) (length t)) (\<lambda>s. Ok (s = b))"

definition dereference_type :: "string \<Rightarrow> string res" where
  "dereference_type t =
     (if length t > 1 then
        bind_res (str_slice t 0 1) (\<lambda>a.
        bind_res (if a = ''['' then ends_at t '']'' else Ok False) (\<lambda>l.
        bind_res (if l then Ok True else if a = ''{'' then ends_at t ''}'' else Ok False) (\<lambda>d.
        if d then str_slice t 1 (length t - 1) else Ok t)))
      else Ok t)"

section \<open>Kinds of type strings\<close>

definition BUILTIN_TYPES :: "string list" where
  "BUILTIN_TYPES = [''str'', ''bool'', ''int'', ''float'']"

definition KCL_NAME_CONSTANTS :: "string list" where
  "KCL_NAME_CONSTANTS = [''None'', ''Undefined'', ''True'', ''False'']"

definition is_dict_type :: "string \<Rightarrow> bool" where
  "is_dict_type t = (let cs = str_chars t in length cs \<ge> 2 \<and> hd cs = ''{'' \<and> last cs = ''}'')"

definition is_list_type :: "string \<Rightarrow> bool" where
  "is_list_type t = (let cs = str_chars t in length cs \<ge> 2 \<and> hd cs = ''['' \<and> last cs = '']'')"

definition is_builtin_type :: "string \<Rightarrow> bool" where
  "is_builtin_type t = (t \<in> set BUILTIN_TYPES)"

definition is_literal_type :: "string \<Rightarrow> bool" where
  "is_literal_type t =
     (if t \<in> set KCL_NAME_CONSTANTS then True
      else if str_starts_with t [CHR 34] then last t = CHR 34
      else if str_starts_with t [CHR 39] then last t = CHR 39
      else if str_isdigit t then True
      else str_isdigit (remove1 (CHR ''.'') t) \<and> count_list t (CHR ''.'') < 2)"

definition is_schema_type :: "string \<Rightarrow> bool" where
  "is_schema_type t =
     (if t = [] then True
      else \<not> is_list_type t \<and> \<not> is_dict_type t \<and> \<not> is_builtin_type t \<and> \<not> is_literal_type t)"

section \<open>The check\<close>

definition match_builtin_type :: "val \<Rightarrow> string \<Rightarrow> bool" where
  "match_builtin_type v t = ((is_builtin v \<and> type_str v = t) \<or> (type_str v = ''int'' \<and> t = ''float''))"

definition match_function_type :: "val \<Rightarrow> string \<Rightarrow> bool" where
  "match_function_type v t =
     (type_str v = ''function'' \<and>
      (t = ''function'' \<or> (str_contains t ''('' \<and> str_contains t '')'' \<and> str_contains t ''->'')))"

definition check_type_literal :: "type_lib \<Rightarrow> val \<Rightarrow> string \<Rightarrow> bool" where
  "check_type_literal lib v t =
     (if \<not> is_literal_type t then False
      else case v of
        none_value \<Rightarrow> t = ''None''
      | undefined_value \<Rightarrow> t = ''Undefined''
      | bool_value b \<Rightarrow> if b then t = ''True'' else t = ''False''
      | int_value i \<Rightarrow> int_to_string (sint i) = t
      | float_value f \<Rightarrow> (let s = f64_display f in (if CHR ''.'' \<in> set s then s else s @ ''.0'') = t)
      | str_value s \<Rightarrow> str_debug lib s = t
      | _ \<Rightarrow> False)"

definition check_number_multiplier_type :: "type_lib \<Rightarrow> val \<Rightarrow> string \<Rightarrow> bool" where
  "check_number_multiplier_type lib v t =
     (case v of
        unit_value _ raw suffix \<Rightarrow>
          if is_multiplier lib t then int_to_string (sint raw) @ suffix = t
          else t = ''units.NumberMultiplier''
      | _ \<Rightarrow> False)"

definition check_schema_strict :: "val \<Rightarrow> string \<Rightarrow> string \<Rightarrow> bool" where
  "check_schema_strict v pkgpath t =
     (let value_ty = value_type_path v True;
          tpe = (if pkgpath \<noteq> [] \<and> pkgpath \<noteq> MAIN_PKG_PATH \<and> CHR ''.'' \<notin> set t
                 then pkgpath @ ''.'' @ t else t);
          tpe = (case strip_prefix ''@'' tpe of Some s \<Rightarrow> s | None \<Rightarrow> tpe)
      in value_ty = tpe)"

subsection \<open>Shorter type strings\<close>

text \<open>Every branch of \<open>check_type\<close> goes on with a shorter type string: a member of a union, or what is between the brackets.\<close>

lemma split_from_nonempty: "split_from lib cs stack cur \<noteq> []"
  by (induction lib cs stack cur rule: split_from.induct) (simp_all add: Let_def)

lemma split_from_length:
  "sum_list (map length (split_from lib cs stack cur)) + (length (split_from lib cs stack cur) - 1) =
     length cur + length (concat cs)"
proof (induction lib cs stack cur rule: split_from.induct)
  case (2 lib c rest stack cur)
  show ?case
  proof (cases "c = ''|'' \<and> stack = []")
    case True
    with 2(1) split_from_nonempty [of lib rest stack "[]"] show ?thesis
      by (cases "split_from lib rest stack []") simp_all
  next
    case False
    have "length (concat (take n rest)) + length (concat (drop n rest)) = length (concat rest)" for n
      by (metis append_take_drop_id concat_append length_append)
    with False 2(2-) show ?thesis by (simp add: Let_def del: length_concat) blast
  qed
qed simp

lemma length_ty_str_strip: "length (ty_str_strip s) \<le> length s"
  using length_dropWhile_le [of strip_char s]
    length_dropWhile_le [of strip_char "rev (dropWhile strip_char s)"]
  by (simp add: ty_str_strip_def)

lemma split_type_union_shorter:
  assumes "u \<in> set (split_type_union lib t)" "1 < length (split_type_union lib t)"
  shows "length u < length t"
proof -
  obtain r where r: "r \<in> set (split_from lib (str_chars t) [] [])" "u = ty_str_strip r"
    using assms(1) by (auto simp: split_type_union_def)
  have "length r \<le> sum_list (map length (split_from lib (str_chars t) [] []))"
    using r(1) by (simp add: member_le_sum_list)
  then have "length r < length t"
    using split_from_length [of lib "str_chars t" "[]" "[]"] assms(2)
    by (simp add: concat_str_chars split_type_union_def)
  with r(2) length_ty_str_strip [of r] show ?thesis by simp
qed

lemma str_slice_length: "str_slice t i j = Ok s \<Longrightarrow> length s = j - i \<and> j \<le> length t"
  by (auto simp: str_slice_def split: if_splits)

lemma separate_kv_shorter: "separate_kv t = Ok kv \<Longrightarrow> length (snd kv) \<le> length t"
proof -
  have "separate_kv_from t n cs stack = Ok kv \<Longrightarrow> length (snd kv) \<le> length t" for n cs stack
    by (induction t n cs stack rule: separate_kv_from.induct)
      (auto simp: bind_res_eq_Inr invalid_type_string_def split: if_splits list.splits dest: str_slice_length)
  then show "separate_kv t = Ok kv \<Longrightarrow> length (snd kv) \<le> length t" by (simp add: separate_kv_def)
qed

lemma str_chars_hd:
  "str_chars t = [c] # gs \<Longrightarrow> \<exists>s. t = c # s"
  by (metis append_Cons append_Nil concat.simps(2) concat_str_chars)

lemma str_chars_last: "t \<noteq> [] \<Longrightarrow> last (str_chars t) = [c] \<Longrightarrow> last t = c"
proof -
  assume t: "t \<noteq> []" "last (str_chars t) = [c]"
  then have "str_chars t = butlast (str_chars t) @ [[c]]" by (metis append_butlast_last_id str_chars_eq_Nil)
  then have "t = concat (butlast (str_chars t)) @ [c]" using concat_str_chars [of t] by (metis concat_append concat.simps(2) concat.simps(1) append_Nil2)
  then show "last t = c" by (metis last_snoc)
qed

lemma bracketed_ends:
  assumes "length (str_chars t) \<ge> 2" "hd (str_chars t) = [a]" "last (str_chars t) = [b]"
  shows "\<exists>s. t = a # s @ [b]"
proof -
  obtain gs where gs: "str_chars t = [a] # gs" "gs \<noteq> []" using assms(1,2) by (cases "str_chars t") (auto simp: Suc_le_eq)
  then have "gs = butlast gs @ [[b]]" using assms(3) by (metis append_butlast_last_id last_ConsR)
  then have "t = [a] @ concat (butlast gs) @ [b]"
    using gs(1) concat_str_chars [of t] by (metis append.right_neutral concat.simps(1) concat.simps(2) concat_append)
  then show ?thesis by simp
qed

lemma dereference_bracketed:
  assumes "a = CHR ''['' \<and> b = CHR '']'' \<or> a = CHR ''{'' \<and> b = CHR ''}''"
  shows "dereference_type (a # s @ [b]) =
    (if is_char_boundary (a # s @ [b]) 1 then Ok s else Err (RustPanic Bounds))"
proof -
  have c: "\<not> is_continuation b" using assms by (auto simp: is_continuation_def)
  let ?t = "a # s @ [b]"
  have bound: "is_char_boundary ?t 0" "is_char_boundary ?t (length ?t)" "is_char_boundary ?t (length ?t - 1)"
    using c by (auto simp: is_char_boundary_def nth_append)
  have slices: "str_slice ?t 0 1 = (if is_char_boundary ?t 1 then Ok [a] else Err (RustPanic Bounds))"
    "str_slice ?t (length ?t - 1) (length ?t) = Ok [b]"
    "is_char_boundary ?t 1 \<Longrightarrow> str_slice ?t 1 (length ?t - 1) = Ok s"
    using bound by (auto simp: str_slice_def)
  show ?thesis using assms slices by (auto simp: dereference_type_def ends_at_def)
qed

lemma dereference_shorter:
  assumes "is_list_type t \<or> is_dict_type t" "dereference_type t = Ok u"
  shows "length u < length t"
proof -
  obtain a b s where t: "t = a # s @ [b]" "a = CHR ''['' \<and> b = CHR '']'' \<or> a = CHR ''{'' \<and> b = CHR ''}''"
    using assms(1) bracketed_ends [of t "CHR ''[''" "CHR '']''"] bracketed_ends [of t "CHR ''{''" "CHR ''}''"]
    unfolding is_list_type_def is_dict_type_def Let_def by blast
  with assms(2) dereference_bracketed [OF t(2), of s] show ?thesis by (auto split: if_splits)
qed

lemma value_type_shorter:
  "is_dict_type t \<Longrightarrow> dereference_type t = Ok u \<Longrightarrow> separate_kv u = Ok kv \<Longrightarrow> length (snd kv) < length t"
  using dereference_shorter [of t u] separate_kv_shorter [of u kv] by simp

subsection \<open>The check\<close>

function check_type :: "type_lib \<Rightarrow> val \<Rightarrow> string \<Rightarrow> string \<Rightarrow> bool \<Rightarrow> bool res"
  and check_type_union :: "type_lib \<Rightarrow> val \<Rightarrow> string \<Rightarrow> string \<Rightarrow> bool res"
  and check_type_dict :: "type_lib \<Rightarrow> val \<Rightarrow> string \<Rightarrow> string \<Rightarrow> bool res"
  and check_type_list :: "type_lib \<Rightarrow> val \<Rightarrow> string \<Rightarrow> string \<Rightarrow> bool res" where
  "check_type lib v pkgpath t strict =
     (if t = [] \<or> t = ''any'' then Ok True
      else if is_none_or_undefined v then Ok True
      else if is_type_union lib t then check_type_union lib v pkgpath t
      else if check_type_literal lib v t then Ok True
      else if check_number_multiplier_type lib v t then Ok True
      else if is_dict v then check_type_dict lib v pkgpath t
      else if is_list v then check_type_list lib v pkgpath t
      else if match_builtin_type v t then Ok True
      else if match_function_type v t then Ok True
      else if is_schema v then
        (if strict then Ok (check_schema_strict v pkgpath t) else Ok (is_schema_type t))
      else Ok False)"
| "check_type_union lib v pkgpath t =
     (let expected_types = split_type_union lib t in
      if length expected_types \<le> 1 then Ok False
      else any_res (\<lambda>u. check_type lib v pkgpath u False) expected_types)"
| "check_type_dict lib v pkgpath t =
     (if t = [] then Ok True
      else if \<not> is_dict_type t then Ok False
      else case v of
        dict_value d \<Rightarrow>
          bind_res (dereference_type t) (\<lambda>expected_type.
          bind_res (separate_kv expected_type) (\<lambda>kv.
          all_res (\<lambda>e. check_type lib (snd e) pkgpath (snd kv) False) (dv_values d)))
      | _ \<Rightarrow> Ok False)"
| "check_type_list lib v pkgpath t =
     (if t = [] then Ok True
      else if \<not> is_list_type t then Ok False
      else case v of
        list_value vs \<Rightarrow>
          bind_res (dereference_type t) (\<lambda>expected_type.
          all_res (\<lambda>x. check_type lib x pkgpath expected_type False) vs)
      | _ \<Rightarrow> Ok False)"
  by pat_completeness auto
termination
  by (relation "measures [\<lambda>x. case x of
      Inl (Inl (lib, v, p, t, s)) \<Rightarrow> length t | Inl (Inr (lib, v, p, t)) \<Rightarrow> length t
    | Inr (Inl (lib, v, p, t)) \<Rightarrow> length t | Inr (Inr (lib, v, p, t)) \<Rightarrow> length t,
    \<lambda>x. case x of Inl (Inl _) \<Rightarrow> 1 | _ \<Rightarrow> 0]")
    (simp_all add: split_type_union_shorter dereference_shorter value_type_shorter)

declare check_type.simps [simp del] check_type_union.simps [simp del] check_type_dict.simps [simp del]
  check_type_list.simps [simp del]

end
