(* ===== verification/SemaSound.thy ===== *)
theory SemaSound
  imports SemaOrder ValueType
begin

text \<open>
  The types of the checker and the values of the runtime. \<open>has_type\<close> says which values a type of plain
  data describes. The type strings that the compiler emits for a type
  (\<open>into_type_annotation_str\<close>) make the runtime check of \<open>val_type.rs\<close> accept exactly these values, and
  assignability (\<open>subsume\<close>) preserves them.
\<close>

section \<open>The values of a type\<close>

fun has_type :: "val \<Rightarrow> type \<Rightarrow> bool" where
  "has_type v (Type _ (TList t) _) =
     (is_none_or_undefined v \<or> (case v of list_value vs \<Rightarrow> list_all (\<lambda>x. has_type x t) vs | _ \<Rightarrow> False))"
| "has_type v (Type _ (TDict (DictType k w _)) _) =
     (is_none_or_undefined v \<or>
      (case v of dict_value d \<Rightarrow> list_all (\<lambda>e. has_type (snd e) w) (dv_values d) | _ \<Rightarrow> False))"
| "has_type v (Type _ (TUnion ts) _) = (is_none_or_undefined v \<or> list_ex (has_type v) ts)"
| "has_type v (Type _ k _) =
     (is_none_or_undefined v \<or>
      (case k of TAny \<Rightarrow> True | TBool \<Rightarrow> is_bool v | TInt \<Rightarrow> is_int v | TFloat \<Rightarrow> is_number v
       | TStr \<Rightarrow> is_str v | TBoolLit b \<Rightarrow> v = bool_value b | TIntLit i \<Rightarrow> v = int_value i
       | TFloatLit f \<Rightarrow> v = float_value f | TStrLit c \<Rightarrow> v = str_value c | _ \<Rightarrow> False))"

lemma has_type_none [simp]: "is_none_or_undefined v \<Longrightarrow> has_type v t"
  by (cases t rule: plain.cases) auto

lemma has_type_kind:
  "ty_kind t = TNone \<Longrightarrow> has_type v t = is_none_or_undefined v"
  "ty_kind t = TAny \<Longrightarrow> has_type v t"
  "ty_kind t = TBool \<Longrightarrow> has_type v t = (is_none_or_undefined v \<or> is_bool v)"
  "ty_kind t = TInt \<Longrightarrow> has_type v t = (is_none_or_undefined v \<or> is_int v)"
  "ty_kind t = TFloat \<Longrightarrow> has_type v t = (is_none_or_undefined v \<or> is_number v)"
  "ty_kind t = TStr \<Longrightarrow> has_type v t = (is_none_or_undefined v \<or> is_str v)"
  "ty_kind t = TList u \<Longrightarrow> has_type v t =
     (is_none_or_undefined v \<or> (case v of list_value vs \<Rightarrow> list_all (\<lambda>x. has_type x u) vs | _ \<Rightarrow> False))"
  "ty_kind t = TDict (DictType k w at) \<Longrightarrow> has_type v t =
     (is_none_or_undefined v \<or>
      (case v of dict_value d \<Rightarrow> list_all (\<lambda>e. has_type (snd e) w) (dv_values d) | _ \<Rightarrow> False))"
  "ty_kind t = TUnion ts \<Longrightarrow> has_type v t = (is_none_or_undefined v \<or> list_ex (has_type v) ts)"
  by (cases t; auto)+

lemma has_type_leaves:
  "leaves t \<noteq> [] \<or> \<not> is_none_or_undefined v \<Longrightarrow> has_type v t = list_ex (has_type v) (leaves t)"
proof (induction t rule: leaves.induct)
  case (1 a ts al)
  show ?case
  proof (cases "is_none_or_undefined v")
    case True
    then have "leaves (Type a (TUnion ts) al) \<noteq> []" using 1(2) by simp
    then obtain u where "u \<in> set (leaves (Type a (TUnion ts) al))" by (meson last_in_set)
    with True show ?thesis by (auto simp: list_ex_iff)
  next
    case False
    with 1(1) show ?thesis by (auto simp: list_ex_iff)
  qed
qed auto

section \<open>Types the compiler annotates\<close>

text \<open>The types of plain data whose unions have members and whose dicts have string keys.\<close>

fun annotatable :: "type \<Rightarrow> bool" where
  "annotatable (Type _ (TList t) _) = annotatable t"
| "annotatable (Type _ (TDict (DictType k v _)) _) = (ty_is_key k \<and> annotatable k \<and> annotatable v)"
| "annotatable (Type _ (TUnion ts) _) = (ts \<noteq> [] \<and> list_all annotatable ts)"
| "annotatable (Type _ k _) = (case k of TNone \<Rightarrow> True | TAny \<Rightarrow> True | TBool \<Rightarrow> True | TInt \<Rightarrow> True
     | TFloat \<Rightarrow> True | TStr \<Rightarrow> True | _ \<Rightarrow> False)"

abbreviation ann :: "type \<Rightarrow> string" where
  "ann \<equiv> into_type_annotation_str"

lemma annotatable_leaves:
  "annotatable t \<Longrightarrow> leaves t \<noteq> []"
  "annotatable t \<Longrightarrow> u \<in> set (leaves t) \<Longrightarrow> annotatable u"
  by (induction t rule: leaves.induct) (auto simp: list_all_iff)

lemma annotatable_cases:
  assumes "annotatable t" "union_types t = None"
  obtains "ty_kind t = TNone" "ann t = ''None''" | "ty_kind t = TAny" "ann t = ''any''"
  | "ty_kind t = TBool" "ann t = ''bool''" | "ty_kind t = TInt" "ann t = ''int''"
  | "ty_kind t = TFloat" "ann t = ''float''" | "ty_kind t = TStr" "ann t = ''str''"
  | u where "ty_kind t = TList u" "annotatable u" "ann t = ''['' @ ann u @ '']''"
  | k v al where "ty_kind t = TDict (DictType k v al)" "ty_is_key k" "annotatable k" "annotatable v"
      "ann t = ''{'' @ ann k @ '':'' @ ann v @ ''}''"
  using assms
  by (cases t rule: annotatable.cases) (auto simp: union_types_def split: type_kind.splits)

subsection \<open>Joined strings\<close>

lemma join_append:
  "xs \<noteq> [] \<Longrightarrow> ys \<noteq> [] \<Longrightarrow> join sp (xs @ ys) = join sp xs @ sp @ join sp ys"
  by (induction sp xs rule: join.induct) (auto simp: neq_Nil_conv)

lemma join_concat:
  "(\<And>ss. ss \<in> set sss \<Longrightarrow> ss \<noteq> []) \<Longrightarrow> join sp (map (join sp) sss) = join sp (concat sss)"
proof (induction sss)
  case (Cons a sss)
  show ?case
  proof (cases sss)
    case (Cons b bs)
    then have "concat sss \<noteq> []" using Cons.prems [of b] by simp
    moreover have "join sp (map (join sp) sss) = join sp (concat sss)" using Cons.IH Cons.prems by simp
    ultimately show ?thesis using Cons Cons.prems [of a] by (simp add: join_append)
  qed simp
qed simp

lemma ann_leaves: "annotatable t \<Longrightarrow> ann t = join '' | '' (map ann (leaves t))"
proof (induction t rule: leaves.induct)
  case (1 a ts al)
  then have "ann t = join '' | '' (map ann (leaves t))" if "t \<in> set ts" for t
    using that by (auto simp: list_all_iff)
  then have "map ann ts = map (join '' | '') (map (\<lambda>t. map ann (leaves t)) ts)" by simp
  moreover have "ss \<noteq> []" if "ss \<in> set (map (\<lambda>t. map ann (leaves t)) ts)" for ss
    using that 1(2) annotatable_leaves(1) by (auto simp: list_all_iff)
  ultimately have "join '' | '' (map ann ts) = join '' | '' (concat (map (\<lambda>t. map ann (leaves t)) ts))"
    using join_concat by metis
  then show ?case by (simp add: map_concat comp_def)
qed auto

lemma set_join: "set (join sp ss) \<subseteq> set sp \<union> (\<Union>s\<in>set ss. set s)"
  by (induction sp ss rule: join.induct) auto

lemma ann_chars: "annotatable t \<Longrightarrow> set (ann t) \<subseteq> set ''NoneayblitfsrAn[]{}:| ''"
proof (induction t rule: annotatable.induct)
  case (3 a ts al)
  then show ?case using set_join [of "'' | ''" "map ann ts"] by (fastforce simp: list_all_iff)
qed (auto split: type_kind.splits)

subsection \<open>How the scanners pass over a type\<close>

abbreviation chars :: "string \<Rightarrow> string list" where
  "chars \<equiv> map (\<lambda>c. [c])"

lemma str_chars_ascii: "(\<And>c. c \<in> set s \<Longrightarrow> \<not> is_continuation c) \<Longrightarrow> str_chars s = chars s"
  by (induction s) (auto split: list.splits)

lemma str_chars_ann: "annotatable t \<Longrightarrow> str_chars (ann t) = chars (ann t)"
  using ann_chars [of t] by (intro str_chars_ascii) (auto simp: is_continuation_def dest!: subsetD)

text \<open>\<open>skips s stack\<close>: under this stack of brackets both scanners walk over \<open>s\<close> and come back to the stack.\<close>

definition skips :: "string \<Rightarrow> string list \<Rightarrow> bool" where
  "skips s stack =
     ((\<forall>lib rest. is_type_union_from lib (chars s @ rest) stack = is_type_union_from lib rest stack) \<and>
      (\<forall>lib rest cur. split_from lib (chars s @ rest) stack cur = split_from lib rest stack (cur @ s)))"

lemma skips_append: "skips s stack \<Longrightarrow> skips t stack \<Longrightarrow> skips (s @ t) stack"
  by (simp add: skips_def)

lemma skips_char:
  assumes "c \<notin> {CHR ''['', CHR ''{'', CHR '']'', CHR ''}'', CHR 34, CHR 39}" "c = CHR ''|'' \<longrightarrow> stack \<noteq> []"
  shows "skips [c] stack"
  using assms by (auto simp: skips_def opens_bracket_def closes_bracket_def quote_char_def)

lemma skips_word:
  "set s \<inter> {CHR ''['', CHR ''{'', CHR '']'', CHR ''}'', CHR 34, CHR 39} = {} \<Longrightarrow>
    CHR ''|'' \<in> set s \<longrightarrow> stack \<noteq> [] \<Longrightarrow> skips s stack"
proof (induction s)
  case (Cons c s)
  then show ?case using skips_append [OF skips_char [of c stack], of s] by auto
qed (simp add: skips_def)

lemma skips_bracket:
  assumes "skips s ([a] # stack)" "a = CHR ''['' \<and> b = CHR '']'' \<or> a = CHR ''{'' \<and> b = CHR ''}''"
  shows "skips (a # s @ [b]) stack"
  using assms by (auto simp: skips_def opens_bracket_def closes_bracket_def)

lemma skips_join:
  "stack \<noteq> [] \<Longrightarrow> (\<And>s. s \<in> set ss \<Longrightarrow> skips s stack) \<Longrightarrow> skips (join '' | '' ss) stack"
proof (induction "'' | ''" ss rule: join.induct)
  case (3 s s' ss)
  have "skips '' | '' stack" using 3(2) by (intro skips_word) auto
  with 3 show ?case by (simp only: join.simps) (intro skips_append; simp)
qed (auto simp: skips_def)

lemma skips_ann: "annotatable t \<Longrightarrow> stack \<noteq> [] \<or> union_types t = None \<Longrightarrow> skips (ann t) stack"
proof (induction t arbitrary: stack rule: annotatable.induct)
  case (1 a t al)
  then show ?case using skips_bracket [of "ann t" "CHR ''[''" stack "CHR '']''"] by simp
next
  case (2 a k v attrs al)
  let ?st = "''{'' # stack"
  have "skips (ann k) ?st" "skips '':'' ?st" "skips (ann v) ?st"
    using 2 by (auto intro: skips_word)
  then have "skips (ann k @ '':'' @ ann v) ?st" by (intro skips_append)
  then show ?case using skips_bracket [of "ann k @ '':'' @ ann v" "CHR ''{''" stack "CHR ''}''"] by simp
next
  case (3 a ts al)
  then have "skips s stack" if "s \<in> set (map ann ts)" for s
    using that by (auto simp: list_all_iff union_types_def)
  with 3 show ?case using skips_join [of stack "map ann ts"] by (simp add: union_types_def)
qed (auto intro!: skips_word split: type_kind.splits)

lemma skips_split:
  "skips s stack \<Longrightarrow> split_from lib (chars s @ rest) stack cur = split_from lib rest stack (cur @ s)"
  by (simp add: skips_def)

lemma skips_union:
  "skips s stack \<Longrightarrow> is_type_union_from lib (chars s @ rest) stack = is_type_union_from lib rest stack"
  by (simp add: skips_def)

lemma split_join:
  assumes "ss \<noteq> []" "\<And>s. s \<in> set ss \<Longrightarrow> skips s []"
    and "\<And>s x y. s \<in> set ss \<Longrightarrow> set x \<union> set y \<subseteq> {CHR '' ''} \<Longrightarrow> ty_str_strip (x @ s @ y) = s"
    and "set cur \<subseteq> {CHR '' ''}"
  shows "map ty_str_strip (split_from lib (chars (join '' | '' ss)) [] cur) = ss"
  using assms
proof (induction "'' | ''" ss arbitrary: cur rule: join.induct)
  case (2 s)
  then have "split_from lib (chars s @ []) [] cur = [cur @ s]" by (subst skips_split) simp_all
  then show ?case using 2(3) [of s cur "[]"] 2(4) by simp
next
  case (3 s s' ss)
  have "skips s []" using 3(3) by simp
  then have "split_from lib (chars (join '' | '' (s # s' # ss))) [] cur =
      (cur @ s @ '' '') # split_from lib (chars (join '' | '' (s' # ss))) [] '' ''"
    by (simp add: skips_def opens_bracket_def closes_bracket_def quote_char_def)
  moreover have "map ty_str_strip (split_from lib (chars (join '' | '' (s' # ss))) [] '' '') = s' # ss"
    using 3(3,4) by (intro 3(1)) auto
  ultimately show ?case using 3(4) [of s cur "'' ''"] 3(5) by simp
qed simp

lemma strip_spaces:
  assumes "s \<noteq> []" "\<not> strip_char (hd s)" "\<not> strip_char (last s)" "set x \<union> set y \<subseteq> {CHR '' ''}"
  shows "ty_str_strip (x @ s @ y) = s"
proof -
  have drop: "dropWhile strip_char (x @ u) = u"
    if "set x \<subseteq> {CHR '' ''}" "u \<noteq> []" "\<not> strip_char (hd u)" for x u
    using that by (cases u) (auto simp: dropWhile_append2 subset_iff)
  have "dropWhile strip_char (x @ s @ y) = s @ y" using assms by (intro drop) auto
  moreover have "dropWhile strip_char (rev y @ rev s) = rev s" using assms by (intro drop) (auto simp: hd_rev)
  ultimately show ?thesis by (simp add: ty_str_strip_def)
qed

lemma strip_ann:
  "annotatable t \<Longrightarrow> union_types t = None \<Longrightarrow> set x \<union> set y \<subseteq> {CHR '' ''} \<Longrightarrow> ty_str_strip (x @ ann t @ y) = ann t"
  by (rule strip_spaces) (auto elim: annotatable_cases)

lemma join_has_bar: "1 < length ss \<Longrightarrow> CHR ''|'' \<in> set (join '' | '' ss)"
  by (cases ss; cases "tl ss") auto

lemma union_from_join:
  assumes "1 < length ss" "skips (hd ss) []"
  shows "is_type_union_from lib (chars (join '' | '' ss)) []"
proof -
  obtain s s' ss' where ss: "ss = s # s' # ss'" using assms(1) by (cases ss; cases "tl ss") auto
  with assms(2) show ?thesis by (simp add: skips_def opens_bracket_def closes_bracket_def quote_char_def)
qed

lemma separate_kv_word:
  "set w \<inter> {CHR ''['', CHR ''{'', CHR '']'', CHR ''}'', CHR '':''} = {} \<Longrightarrow>
    separate_kv_from t n (chars w @ rest) stack = separate_kv_from t (n + length w) rest stack"
  by (induction w arbitrary: n) (auto simp: opens_bracket_def)

lemma key_chars: "ty_is_key k \<Longrightarrow> annotatable k \<Longrightarrow> set (ann k) \<subseteq> set ''str| ''"
proof (induction k rule: ty_is_key.induct)
  case (3 a ts al)
  then show ?case using set_join [of "'' | ''" "map ann ts"] by (fastforce simp: list_all_iff)
qed auto

lemma not_continuation_ann: "annotatable t \<Longrightarrow> c \<in> set (ann t) \<Longrightarrow> \<not> is_continuation c"
  using ann_chars [of t] by (auto simp: is_continuation_def dest!: subsetD)

lemma separate_kv_ann:
  assumes "ty_is_key k" "annotatable k" "annotatable v"
  shows "separate_kv (ann k @ '':'' @ ann v) = Ok (ann k, ann v)"
proof -
  let ?t = "ann k @ '':'' @ ann v" and ?n = "length (ann k)"
  have ascii: "\<not> is_continuation c" if "c \<in> set ?t" for c
    using that assms not_continuation_ann by (auto simp: is_continuation_def)
  have bound: "is_char_boundary ?t i" if "i \<le> length ?t" for i
    using that ascii [OF nth_mem, of i] by (auto simp: is_char_boundary_def)
  have slices: "str_slice ?t 0 ?n = Ok (ann k)" "str_slice ?t (?n + 1) (length ?t) = Ok (ann v)"
    using bound [of 0] bound [of ?n] bound [of "?n + 1"] bound [of "length ?t"] by (simp_all add: str_slice_def)
  have "set (ann k) \<inter> {CHR ''['', CHR ''{'', CHR '']'', CHR ''}'', CHR '':''} = {}"
    using key_chars [OF assms(1,2)] by auto
  then have "separate_kv ?t = separate_kv_from ?t ?n (chars ('':'' @ ann v)) []"
    using separate_kv_word [of "ann k" ?t 0 "chars ('':'' @ ann v)" "[]"]
    by (simp only: separate_kv_def str_chars_ascii [OF ascii] map_append add_0)
  then show ?thesis using slices by (simp add: opens_bracket_def)
qed

subsection \<open>The runtime check decides the values of a type\<close>

text \<open>The check takes every value that prints its type as \<open>int\<close> for an \<open>int\<close>: a schema must not have this name.\<close>

fun names_ok :: "val \<Rightarrow> bool" where
  "names_ok (list_value vs) = list_all names_ok vs"
| "names_ok (dict_value (DictValue vs _ _ _ _)) = list_all (\<lambda>(k, v). names_ok v) vs"
| "names_ok (schema_value s) = (sv_name s \<noteq> ''int'')"
| "names_ok _ = True"

lemma nat_to_string_hd: "nat_to_string n \<noteq> [] \<and> is_digit_byte (hd (nat_to_string n))"
proof (induction n rule: nat_to_string.induct)
  case (1 n)
  then show ?case
    by (subst (1 2) nat_to_string.simps) (auto simp: is_digit_byte_def byte_of_def digit_char_def)
qed

lemma int_to_string_hd:
  "int_to_string i @ s = c # t \<Longrightarrow> c = CHR ''-'' \<or> is_digit_byte c"
  using nat_to_string_hd [of "nat (- i)"] nat_to_string_hd [of "nat i"]
  by (cases "nat_to_string (nat i)") (auto simp: int_to_string_def split: if_splits)

lemma is_literal_type_bracket:
  assumes "c = CHR ''['' \<or> c = CHR ''{''" "\<And>d. d \<in> set s \<Longrightarrow> \<not> is_continuation d"
  shows "\<not> is_literal_type (c # s)"
proof -
  have no_digits: "\<not> str_isdigit (c # t)" if "\<And>d. d \<in> set t \<Longrightarrow> \<not> is_continuation d" for t
  proof -
    have "str_chars (c # t) = [c] # chars t"
      using that assms(1) by (subst str_chars_ascii) (auto simp: is_continuation_def)
    then show ?thesis using assms(1) by (auto simp: str_isdigit_def is_digit_byte_def byte_of_def)
  qed
  have "\<not> str_isdigit (c # s)" "\<not> str_isdigit (c # remove1 (CHR ''.'') s)"
    using assms(2) by (auto intro!: no_digits dest: set_remove1_subset [THEN subsetD])
  then show ?thesis using assms(1) by (auto simp: is_literal_type_def KCL_NAME_CONSTANTS_def)
qed

lemma is_literal_type_names:
  "is_literal_type ''None''" "\<not> is_literal_type ''bool''" "\<not> is_literal_type ''int''"
  "\<not> is_literal_type ''float''" "\<not> is_literal_type ''str''"
  by (simp_all add: is_literal_type_def KCL_NAME_CONSTANTS_def str_isdigit_def is_continuation_def
      is_digit_byte_def byte_of_def)

lemma dereference_ascii:
  assumes "a = CHR ''['' \<and> b = CHR '']'' \<or> a = CHR ''{'' \<and> b = CHR ''}''"
    and "\<And>c. c \<in> set s \<Longrightarrow> \<not> is_continuation c"
  shows "dereference_type (a # s @ [b]) = Ok s"
  using dereference_bracketed [OF assms(1), of s] assms
  by (cases s) (auto simp: is_char_boundary_def is_continuation_def)

lemma bracket_kinds:
  assumes "\<And>c. c \<in> set s \<Longrightarrow> \<not> is_continuation c"
  shows "is_list_type (''['' @ s @ '']'')" "\<not> is_dict_type (''['' @ s @ '']'')"
    "is_dict_type (''{'' @ s @ ''}'')" "\<not> is_list_type (''{'' @ s @ ''}'')"
proof -
  have "str_chars (a # s @ [b]) = [a] # chars s @ [[b]]" if "\<not> is_continuation a" "\<not> is_continuation b" for a b
    using that assms by (subst str_chars_ascii) auto
  then show "is_list_type (''['' @ s @ '']'')" "\<not> is_dict_type (''['' @ s @ '']'')"
    "is_dict_type (''{'' @ s @ ''}'')" "\<not> is_list_type (''{'' @ s @ ''}'')"
    by (simp_all add: is_list_type_def is_dict_type_def Let_def is_continuation_def)
qed

lemma names_ok_members:
  "names_ok (list_value vs) \<Longrightarrow> v \<in> set vs \<Longrightarrow> names_ok v"
  "names_ok (dict_value d) \<Longrightarrow> e \<in> set (dv_values d) \<Longrightarrow> names_ok (snd e)"
  by (auto simp: list_all_iff) (cases d, auto simp: list_all_iff)

text \<open>A bracketed type string: only the branch of its own kind can accept.\<close>

lemma str_contains_paren: "str_contains t ''('' \<Longrightarrow> CHR ''('' \<notin> set t \<Longrightarrow> False"
  by (auto simp: str_contains_iff)

lemma check_type_bracket:
  assumes "t = ''['' @ s @ '']'' \<or> t = ''{'' @ s @ ''}''" "\<And>c. c \<in> set s \<Longrightarrow> \<not> is_continuation c"
    and "\<not> is_type_union lib t" "CHR ''('' \<notin> set t" "\<not> is_none_or_undefined v"
  shows "check_type lib v pkg t False =
    (if is_dict v then check_type_dict lib v pkg t
     else if is_list v then check_type_list lib v pkg t else Ok False)"
proof -
  obtain c b where cb: "t = c # s @ [b]" "c = CHR ''['' \<and> b = CHR '']'' \<or> c = CHR ''{'' \<and> b = CHR ''}''"
    using assms(1) by fastforce
  define u where "u = s @ [b]"
  have t: "t = c # u" "c = CHR ''['' \<or> c = CHR ''{''" using cb by (auto simp: u_def)
  have u: "\<not> is_continuation d" if "d \<in> set u" for d
    using that cb(2) assms(2) by (auto simp: u_def is_continuation_def)
  have lit: "\<not> is_literal_type t" using is_literal_type_bracket [OF t(2) u] t(1) by simp
  have "int_to_string i @ x \<noteq> t" for i x
    using int_to_string_hd [of i x c u] t by (auto simp: is_digit_byte_def byte_of_def)
  then have mult: "\<not> check_number_multiplier_type lib v t"
    using t by (auto simp: check_number_multiplier_type_def split: val.splits)
  have "\<not> match_builtin_type v t" using t(1,2) by (cases v) (auto simp: match_builtin_type_def)
  moreover have "\<not> match_function_type v t"
    using t(1,2) str_contains_paren [OF _ assms(4)] by (auto simp: match_function_type_def)
  moreover have "\<not> is_schema_type t"
    using assms(1) bracket_kinds [OF assms(2)] by (auto simp: is_schema_type_def)
  moreover have "t \<noteq> []" "t \<noteq> ''any''" using t(1,2) by auto
  ultimately show ?thesis using lit mult assms(3,5)
    by (subst check_type.simps) (simp add: check_type_literal_def)
qed

lemma names_not_union:
  "t \<in> {''None'', ''bool'', ''int'', ''float'', ''str''} \<Longrightarrow> \<not> is_type_union lib t"
  by (auto simp: is_type_union_def is_continuation_def opens_bracket_def closes_bracket_def quote_char_def)

lemma names_no_literal:
  assumes "t \<in> {''None'', ''bool'', ''int'', ''float'', ''str''}" "\<not> is_none_or_undefined v"
  shows "\<not> check_type_literal lib v t" "\<not> check_number_multiplier_type lib v t"
proof -
  have int: "int_to_string i @ s \<noteq> t" for i s
  proof
    assume eq: "int_to_string i @ s = t"
    then obtain c u where "int_to_string i @ s = c # u" "c \<in> {CHR ''N'', CHR ''b'', CHR ''i'', CHR ''f'', CHR ''s''}"
      using assms(1) by auto
    with int_to_string_hd [of i s c u] show False by (auto simp: is_digit_byte_def byte_of_def)
  qed
  have float: "(if CHR ''.'' \<in> set s then s else s @ ''.0'') \<noteq> t" for s
    using assms(1) by auto
  have str: "str_debug lib s \<noteq> t" for s using assms(1) by (auto simp: str_debug_def)
  show "\<not> check_type_literal lib v t"
    using assms is_literal_type_names int [of _ "[]"] float str
    by (cases v) (auto simp: check_type_literal_def Let_def)
  show "\<not> check_number_multiplier_type lib v t"
    using assms(1) int by (auto simp: check_number_multiplier_type_def split: val.splits)
qed

lemma check_type_name:
  assumes "t \<in> {''None'', ''bool'', ''int'', ''float'', ''str''}" "names_ok v" "\<not> is_none_or_undefined v"
  shows "check_type lib v pkg t False =
    Ok (case v of bool_value _ \<Rightarrow> t = ''bool'' | int_value _ \<Rightarrow> t = ''int'' \<or> t = ''float''
        | float_value _ \<Rightarrow> t = ''float'' | str_value _ \<Rightarrow> t = ''str'' | _ \<Rightarrow> False)"
proof -
  have fn: "\<not> match_function_type v t"
    using assms(1) by (auto simp: match_function_type_def)
  have br: "\<not> is_list_type t" "\<not> is_dict_type t"
    using assms(1) by (auto simp: is_list_type_def is_dict_type_def is_continuation_def)
  have sch: "\<not> is_schema_type t"
    using assms(1) is_literal_type_names(1) by (auto simp: is_schema_type_def is_builtin_type_def BUILTIN_TYPES_def)
  have "t \<noteq> []" "t \<noteq> ''any''" using assms(1) by auto
  then have "check_type lib v pkg t False =
      (if is_dict v then check_type_dict lib v pkg t
       else if is_list v then check_type_list lib v pkg t
       else Ok (match_builtin_type v t))"
    using fn sch names_not_union [OF assms(1)] names_no_literal [OF assms(1,3)] assms(3)
    by (subst check_type.simps) simp
  then show ?thesis using br assms
    by (cases v) (auto simp: check_type_dict.simps check_type_list.simps match_builtin_type_def
        is_dict_def is_list_def split: if_splits)
qed

lemma check_type_leaf:
  assumes ann: "annotatable t" and leaf: "union_types t = None" and ok: "names_ok v"
    and IH: "\<And>u w. size u < size t \<Longrightarrow> annotatable u \<Longrightarrow> names_ok w \<Longrightarrow>
      check_type lib w pkg (ann u) False = Ok (has_type w u)"
  shows "check_type lib v pkg (ann t) False = Ok (has_type v t)"
proof (cases "is_none_or_undefined v")
  case True
  then show ?thesis by (subst check_type.simps) simp
next
  case some: False
  have nu: "\<not> is_type_union lib (ann t)"
    using skips_union [OF skips_ann [OF ann, of "[]"], of lib "[]"] leaf
    by (simp add: is_type_union_def str_chars_ann [OF ann])
  have paren: "CHR ''('' \<notin> set (ann t)" using ann_chars [OF ann] by auto
  have name: "check_type lib v pkg (ann t) False =
    Ok (case v of bool_value _ \<Rightarrow> ann t = ''bool'' | int_value _ \<Rightarrow> ann t = ''int'' \<or> ann t = ''float''
        | float_value _ \<Rightarrow> ann t = ''float'' | str_value _ \<Rightarrow> ann t = ''str'' | _ \<Rightarrow> False)"
    if "ann t \<in> {''None'', ''bool'', ''int'', ''float'', ''str''}" using check_type_name [OF that ok some] .
  from ann leaf show ?thesis
  proof (cases rule: annotatable_cases)
    case (7 u)
    have asc: "\<not> is_continuation c" if "c \<in> set (ann u)" for c using that not_continuation_ann [OF 7(2)] by blast
    have "size u < size t" using 7(1) by (cases t) simp
    then have "check_type lib w pkg (ann u) False = Ok (has_type w u)" if "names_ok w" for w
      using 7(2) that by (intro IH)
    then have "all_res (\<lambda>x. check_type lib x pkg (ann u) False) vs = Ok (list_all (\<lambda>w. has_type w u) vs)"
      if "v = list_value vs" for vs
      using that ok by (intro all_res_Ok) (auto simp: list_all_iff)
    moreover have "is_list_type (ann t)" "\<not> is_dict_type (ann t)" "dereference_type (ann t) = Ok (ann u)" "ann t \<noteq> []"
      using bracket_kinds(1,2) [of "ann u"] dereference_ascii [of "CHR ''[''" "CHR '']''" "ann u"] asc 7(3) by simp_all
    ultimately show ?thesis
      using check_type_bracket [of "ann t" "ann u" lib v pkg] asc nu paren some 7(1,3) has_type_kind(7) [OF 7(1)]
      by (cases v) (simp_all add: is_dict_def is_list_def check_type_dict.simps check_type_list.simps)
  next
    case (8 k' w at)
    let ?s = "ann k' @ '':'' @ ann w"
    have asc: "\<not> is_continuation c" if "c \<in> set ?s" for c
      using that not_continuation_ann [OF 8(3)] not_continuation_ann [OF 8(4)] by (auto simp: is_continuation_def)
    have s: "ann t = ''{'' @ ?s @ ''}''" using 8(5) by simp
    have "size w < size t" using 8(1) by (cases t) simp
    then have "check_type lib x pkg (ann w) False = Ok (has_type x w)" if "names_ok x" for x
      using 8(4) that by (intro IH)
    then have "all_res (\<lambda>e. check_type lib (snd e) pkg (ann w) False) (dv_values d) =
        Ok (list_all (\<lambda>e. has_type (snd e) w) (dv_values d))" if "v = dict_value d" for d
      using that ok by (intro all_res_Ok) (auto dest: names_ok_members(2))
    moreover have "is_dict_type (ann t)" "\<not> is_list_type (ann t)" "dereference_type (ann t) = Ok ?s" "ann t \<noteq> []"
      unfolding s using bracket_kinds(3,4) [of ?s, OF asc] dereference_ascii [of "CHR ''{''" "CHR ''}''" ?s, OF _ asc]
      by simp_all
    ultimately show ?thesis
      using check_type_bracket [of "ann t" ?s lib v pkg, OF _ asc nu paren some] s has_type_kind(8) [OF 8(1)]
        separate_kv_ann [OF 8(2-4)] some
      by (cases v) (simp_all add: is_dict_def is_list_def check_type_dict.simps check_type_list.simps)
  next
    case 2
    then show ?thesis by (subst check_type.simps) (simp add: has_type_kind(2))
  qed (use name some has_type_kind in \<open>cases v; simp add: is_bool_def is_int_def is_str_def is_float_def\<close>)+
qed

lemma any_res_map: "any_res f (map g xs) = any_res (\<lambda>x. f (g x)) xs"
  by (induction xs) (auto intro!: bind_res_cong)

lemma check_type_ann:
  "annotatable t \<Longrightarrow> names_ok v \<Longrightarrow>
    check_type lib v pkg (ann t) False = Ok (has_type v t)"
proof (induction t arbitrary: v rule: measure_induct_rule [of size])
  case (less t)
  show ?case
  proof (cases "union_types t")
    case None
    show ?thesis by (rule check_type_leaf [OF less(2) None less(3)]) (rule less(1))
  next
    case (Some ts)
    let ?ls = "leaves t"
    have leaf: "check_type lib v pkg (ann u) False = Ok (has_type v u)" "skips (ann u) []"
        "\<And>x y. set x \<union> set y \<subseteq> {CHR '' ''} \<Longrightarrow> ty_str_strip (x @ ann u @ y) = ann u" if u: "u \<in> set ?ls" for u
    proof -
      obtain w where w: "w \<in> set ts" "u \<in> set (leaves w)" using u unfolding leaves_union [OF Some] by auto
      then have "size u < size t" using size_leaves [OF w(2)] size_downcast(1) [OF Some w(1)] by simp
      with less u show "check_type lib v pkg (ann u) False = Ok (has_type v u)"
        using annotatable_leaves(2) by blast
      show "skips (ann u) []" "\<And>x y. set x \<union> set y \<subseteq> {CHR '' ''} \<Longrightarrow> ty_str_strip (x @ ann u @ y) = ann u"
        using leaves_not_union [OF u] annotatable_leaves(2) [OF less(2) u] by (auto intro: skips_ann strip_ann)
    qed
    have ann_t: "ann t = join '' | '' (map ann ?ls)" by (rule ann_leaves [OF less(2)])
    have ht: "has_type v t = list_ex (has_type v) ?ls"
      using has_type_leaves annotatable_leaves(1) [OF less(2)] by blast
    show ?thesis
    proof (cases "1 < length ?ls")
      case False
      then obtain l where "?ls = [l]" using annotatable_leaves(1) [OF less(2)]
        by (cases ?ls; cases "tl ?ls") auto
      with leaf(1) [of l] ann_t ht show ?thesis by simp
    next
      case True
      show ?thesis
      proof (cases "is_none_or_undefined v")
        case True
        then show ?thesis by (subst check_type.simps) simp
      next
        case some: False
        have "split_type_union lib (ann t) = map ann ?ls"
        proof -
          have "map ty_str_strip (split_from lib (chars (join '' | '' (map ann ?ls))) [] []) = map ann ?ls"
          proof (rule split_join)
            show "map ann ?ls \<noteq> []" using True by auto
          qed (use leaf(2,3) in auto)
          then show ?thesis
            by (simp add: split_type_union_def str_chars_ann [OF less(2)] ann_t [symmetric])
        qed
        then have "check_type_union lib v pkg (ann t) = any_res (\<lambda>u. check_type lib v pkg (ann u) False) ?ls"
          using True by (simp add: check_type_union.simps any_res_map)
        also have "\<dots> = Ok (has_type v t)" using any_res_Ok [OF leaf(1)] ht by simp
        finally have "check_type_union lib v pkg (ann t) = Ok (has_type v t)" .
        moreover have "is_type_union lib (ann t)"
        proof -
          have "hd (map ann ?ls) = ann (hd ?ls)" "hd ?ls \<in> set ?ls" using True by (cases ?ls; simp)+
          then have "is_type_union_from lib (chars (join '' | '' (map ann ?ls))) []"
            using True leaf(2) by (intro union_from_join) simp_all
          then show ?thesis by (simp add: is_type_union_def str_chars_ann [OF less(2)] ann_t [symmetric])
        qed
        moreover have "CHR ''|'' \<in> set (ann t)" using join_has_bar [of "map ann ?ls"] True ann_t by simp
        then have "ann t \<noteq> []" "ann t \<noteq> ''any''" by auto
        ultimately show ?thesis using some by (subst check_type.simps) simp
      qed
    qed
  qed
qed

section \<open>Assignability preserves values\<close>

lemma dict_entry_kind: "dict_entry_ty t = Some c \<Longrightarrow> \<exists>k at. ty_kind t = TDict (DictType k (snd c) at)"
  by (cases t rule: plain.cases) (auto simp: downcast_defs)

lemma subsume_preserves_leaf:
  assumes plain: "plain a" "plain b" and no: "union_types a = None" "union_types b = None"
    and le: "subsume a b False" and v: "has_type v a"
    and IH: "\<And>x y w. size x + size y < size a + size b \<Longrightarrow> plain x \<Longrightarrow> plain y \<Longrightarrow> subsume x y False \<Longrightarrow>
      has_type w x \<Longrightarrow> has_type w y"
  shows "has_type v b"
proof -
  note le' = le [unfolded subsume_plain [OF plain no]]
  from le' consider "ty_kind b = TAny" | "ty_kind a = TNone" | "ty_kind a = TInt" "ty_kind b = TFloat"
    | "ty_is_primitive a" "ty_kind a = ty_kind b"
    | x y where "list_item_ty a = Some x" "list_item_ty b = Some y" "subsume x y False"
    | x y where "dict_entry_ty a = Some x" "dict_entry_ty b = Some y" "subsume (snd x) (snd y) False" by blast
  then show ?thesis
  proof cases
    case 3
    then show ?thesis using v by (cases v) (auto simp: has_type_kind is_int_def)
  next
    case 4
    then consider "ty_kind a = TBool" "ty_kind b = TBool" | "ty_kind a = TInt" "ty_kind b = TInt"
      | "ty_kind a = TFloat" "ty_kind b = TFloat" | "ty_kind a = TStr" "ty_kind b = TStr"
      by (auto simp: ty_is_primitive_def split: type_kind.splits)
    then show ?thesis using v by cases (simp_all add: has_type_kind)
  next
    case 5
    then have "has_type w x \<Longrightarrow> has_type w y" for w
      using plain_downcast(2) [OF plain(1) 5(1)] plain_downcast(2) [OF plain(2) 5(2)]
        size_downcast(2) [OF 5(1)] size_downcast(2) [OF 5(2)] by (intro IH [of x y w]) simp_all
    then show ?thesis using 5 v
      by (cases v) (auto simp: has_type_kind list_all_iff dest!: downcast_kinds(1))
  next
    case 6
    then have "has_type w (snd x) \<Longrightarrow> has_type w (snd y)" for w
      using plain_downcast(3) [OF plain(1) 6(1)] plain_downcast(3) [OF plain(2) 6(2)]
        size_downcast(3) [OF 6(1)] size_downcast(3) [OF 6(2)] by (intro IH [of "snd x" "snd y" w]) simp_all
    moreover obtain ka kb at bt where "ty_kind a = TDict (DictType ka (snd x) at)"
      "ty_kind b = TDict (DictType kb (snd y) bt)"
      using dict_entry_kind [OF 6(1)] dict_entry_kind [OF 6(2)] by blast
    ultimately show ?thesis using v by (cases v) (auto simp: has_type_kind list_all_iff)
  qed (use v in \<open>auto simp: has_type_kind\<close>)
qed

lemma subsume_preserves_values:
  "plain a \<Longrightarrow> plain b \<Longrightarrow> subsume a b False \<Longrightarrow> has_type v a \<Longrightarrow> has_type v b"
proof (induction "(a, b)" arbitrary: a b v rule: measure_induct_rule [of "\<lambda>(a, b). size a + size b"])
  case (less a b)
  have IH: "has_type w y" if "size x + size y < size a + size b" "plain x" "plain y" "subsume x y False" "has_type w x"
    for x y w using less(1) [of x y w] that by simp
  show ?case
  proof (cases "ty_kind b = TAny \<or> ty_kind a = TNone \<or> is_none_or_undefined v")
    case True
    then show ?thesis using less(5) by (auto simp: has_type_kind)
  next
    case False
    then have k: "ty_kind b \<noteq> TAny" "ty_kind a \<noteq> TNone" "\<not> is_none_or_undefined v" by auto
    show ?thesis
    proof (cases "union_types a")
      case a: (Some ts)
      then obtain t where t: "t \<in> set ts" "has_type v t"
        using less(5) k(3) has_type_kind(9) [OF downcast_kinds(2) [OF a]] by (auto simp: list_ex_iff)
      then have "subsume t b False" using less(4) subsume_union_left [OF a k(1)] by (simp add: list_all_iff)
      with t show ?thesis using size_downcast(1) [OF a t(1)] plain_downcast(1) [OF less(2) a t(1)] less(3)
        by (intro IH [of t b v]) auto
    next
      case a: None
      show ?thesis
      proof (cases "union_types b")
        case b: (Some ts)
        then obtain t where t: "t \<in> set ts" "subsume a t False"
          using less(4) subsume_union_right [OF a b k(2)] by (auto simp: list_ex_iff)
        then have "has_type v t" using size_downcast(1) [OF b t(1)] plain_downcast(1) [OF less(3) b t(1)] less(2,5)
          by (intro IH [of a t v]) auto
        with t show ?thesis using has_type_kind(9) [OF downcast_kinds(2) [OF b]] by (auto simp: list_ex_iff)
      next
        case b: None
        show ?thesis by (rule subsume_preserves_leaf [OF less(2,3) a b less(4,5)]) (rule IH)
      qed
    qed
  qed
qed

section \<open>The two checks together\<close>

lemma annotatable_plain: "annotatable t \<Longrightarrow> plain t"
  by (induction t rule: annotatable.induct) (auto simp: list_all_iff split: type_kind.splits)

definition no_lib :: type_lib where
  "no_lib = \<lparr> find_quoted = (\<lambda>_ _. None), is_multiplier = (\<lambda>_. False), debug_plain = (\<lambda>_. True) \<rparr>"





text \<open>
  The strings of negative literal types are not recognised as literals (\<open>str_isdigit\<close> knows no sign):
  the check refuses the very value the type describes.
\<close>

lemma negative_literal_refused:
  "check_type lib (int_value (- 1)) [] (into_type_annotation_str (Type 0 (TIntLit (- 1)) False)) False = Ok False"
proof -
  have s: "int_to_string (- 1) = ''-1''"
    by (simp add: int_to_string_def nat_to_string.simps digit_char_def char_of_def bit_0)
  show ?thesis
    by (subst check_type.simps) (simp add: s is_type_union_def is_continuation_def opens_bracket_def
        closes_bracket_def quote_char_def check_type_literal_def is_literal_type_def KCL_NAME_CONSTANTS_def
        str_isdigit_def is_digit_byte_def byte_of_def check_number_multiplier_type_def is_dict_def is_list_def
        match_builtin_type_def match_function_type_def is_schema_def)
qed

end
