(* ===== verification/SemaCalc.thy ===== *)
theory SemaCalc
  imports Ast SemaSound ValueBin
begin

text \<open>
  The types of operators: the type context (\<open>sema/src/ty/context.rs\<close>) and the calculation tables of the
  resolver (\<open>sema/src/resolver/calculation.rs\<close>). The second half runs the operators on values
  (\<open>evaluator/src/calculation.rs\<close>) and shows that the type a table computes describes the value.

  The resolver state is the part these functions touch: the next free address and the type errors
  collected so far.
\<close>

section \<open>The type context\<close>

record builtin_types =
  bt_any :: type
  bt_bool :: type
  bt_int :: type
  bt_float :: type
  bt_str :: type
  bt_void :: type
  bt_none :: type

record resolver =
  rs_builtin :: builtin_types
  rs_next :: nat
  rs_errors :: "(string \<times> source_range) list"

text \<open>\<open>TypeContext::new\<close> allocates the builtin types.\<close>

definition type_context_new :: resolver where
  "type_context_new =
     \<lparr> rs_builtin = \<lparr> bt_any = arc_new 0 TAny, bt_bool = arc_new 1 TBool, bt_int = arc_new 2 TInt,
         bt_float = arc_new 3 TFloat, bt_str = arc_new 4 TStr, bt_void = arc_new 5 TVoid,
         bt_none = arc_new 6 TNone \<rparr>, rs_next = 7, rs_errors = [] \<rparr>"

text \<open>\<open>Arc::new\<close>: a new allocation at the next free address.\<close>

definition alloc :: "(nat \<Rightarrow> type) \<Rightarrow> resolver \<Rightarrow> type \<times> resolver" where
  "alloc mk s = (mk (rs_next s), s\<lparr>rs_next := Suc (rs_next s)\<rparr>)"

text \<open>The handler keeps its diagnostics in an \<open>IndexSet\<close>.\<close>

definition add_type_error :: "string \<Rightarrow> source_range \<Rightarrow> resolver \<Rightarrow> resolver" where
  "add_type_error msg rng s =
     (if (msg, rng) \<in> set (rs_errors s) then s else s\<lparr>rs_errors := rs_errors s @ [(msg, rng)]\<rparr>)"

fun infer_list :: "(type \<Rightarrow> resolver \<Rightarrow> type \<times> resolver) \<Rightarrow> type list \<Rightarrow> resolver \<Rightarrow> type list \<times> resolver" where
  "infer_list f [] s = ([], s)"
| "infer_list f (t # ts) s =
     (let (u, s) = f t s; (us, s) = infer_list f ts s in (u # us, s))"

lemma infer_list_cong [fundef_cong]:
  "ts = us \<Longrightarrow> s = s' \<Longrightarrow> (\<And>t s. t \<in> set us \<Longrightarrow> f t s = g t s) \<Longrightarrow> infer_list f ts s = infer_list g us s'"
  by (induction us arbitrary: ts s s') (auto simp: Let_def split: prod.splits)

fun infer_to_variable_type :: "(nat list \<Rightarrow> nat list) \<Rightarrow> type \<Rightarrow> resolver \<Rightarrow> type \<times> resolver" where
  "infer_to_variable_type ho (Type a (TList item) al) s =
     (let (u, s) = infer_to_variable_type ho item s in alloc (\<lambda>n. ty_list n u) s)"
| "infer_to_variable_type ho (Type a (TDict (DictType k v attrs)) al) s =
     (let (k', s) = infer_to_variable_type ho k s; (v', s) = infer_to_variable_type ho v s
      in alloc (\<lambda>n. ty_dict_with_attrs n k' v' attrs) s)"
| "infer_to_variable_type ho (Type a (TUnion ts) al) s =
     (let (us, s) = infer_list (\<lambda>t s. infer_to_variable_type ho t s) ts s
      in alloc (\<lambda>n. sup_types ho n us) s)"
| "infer_to_variable_type ho (Type a k al) s =
     ((case k of
         TNone \<Rightarrow> bt_any (rs_builtin s)
       | TBoolLit _ \<Rightarrow> bt_bool (rs_builtin s)
       | TIntLit _ \<Rightarrow> bt_int (rs_builtin s)
       | TFloatLit _ \<Rightarrow> bt_float (rs_builtin s)
       | TStrLit _ \<Rightarrow> bt_str (rs_builtin s)
       | _ \<Rightarrow> Type a k al), s)"

definition literal_union_type_to_variable_type ::
    "(nat list \<Rightarrow> nat list) \<Rightarrow> type \<Rightarrow> resolver \<Rightarrow> type \<times> resolver" where
  "literal_union_type_to_variable_type ho t s =
     (if ty_is_union t then infer_to_variable_type ho t s else (t, s))"

definition is_kind_type_or_kind_union_type :: "type \<Rightarrow> type_flags list \<Rightarrow> bool" where
  "is_kind_type_or_kind_union_type t flags =
     (case ty_kind t of
        TUnion ts \<Rightarrow> list_all (\<lambda>t. list_ex (contains_flags t) flags) ts
      | _ \<Rightarrow> list_ex (contains_flags t) flags)"

definition is_number_type_or_number_union_type :: "type \<Rightarrow> bool" where
  "is_number_type_or_number_union_type t = is_kind_type_or_kind_union_type t [FLAG_INT, FLAG_FLOAT]"

definition is_number_bool_type_or_number_bool_union_type :: "type \<Rightarrow> bool" where
  "is_number_bool_type_or_number_bool_union_type t =
     is_kind_type_or_kind_union_type t [FLAG_INT, FLAG_FLOAT, FLAG_BOOL]"

definition is_config_type_or_config_union_type :: "type \<Rightarrow> bool" where
  "is_config_type_or_config_union_type t = is_kind_type_or_kind_union_type t [FLAG_DICT, FLAG_SCHEMA]"

definition is_str_type_or_str_union_type :: "type \<Rightarrow> bool" where
  "is_str_type_or_str_union_type t = is_kind_type_or_kind_union_type t [FLAG_STR]"

definition is_primitive_type_or_primitive_union_type :: "type \<Rightarrow> bool" where
  "is_primitive_type_or_primitive_union_type t =
     is_kind_type_or_kind_union_type t [FLAG_INT, FLAG_FLOAT, FLAG_BOOL, FLAG_STR]"

definition is_mul_val_type_or_mul_val_union_type :: "type \<Rightarrow> bool" where
  "is_mul_val_type_or_mul_val_union_type t =
     is_kind_type_or_kind_union_type t [FLAG_INT, FLAG_FLOAT, FLAG_STR, FLAG_LIST]"

section \<open>The calculation tables\<close>

definition ZERO_LIT_TYPES :: "type list" where
  "ZERO_LIT_TYPES = [Type 0 (TIntLit 0) False, Type 0 (TFloatLit f64_zero) False, Type 0 (TBoolLit False) False]"

definition DIV_OR_MOD_ZERO_MSG :: string where
  "DIV_OR_MOD_ZERO_MSG = ''integer division or modulo by zero''"

definition check_zero :: "type \<Rightarrow> source_range \<Rightarrow> resolver \<Rightarrow> resolver" where
  "check_zero t2 rng s =
     (if list_ex (\<lambda>z. type_eq z t2) ZERO_LIT_TYPES then add_type_error DIV_OR_MOD_ZERO_MSG rng s else s)"

definition number_binary :: "type \<Rightarrow> type \<Rightarrow> resolver \<Rightarrow> type \<times> resolver" where
  "number_binary l r = alloc (\<lambda>n. arc_new n (if ty_is_float l \<or> ty_is_float r then TFloat else TInt))"

text \<open>\<open>Type::list_ref(sup(&[..]))\<close>: the supremum is built first.\<close>

definition list_of_sup :: "(nat list \<Rightarrow> nat list) \<Rightarrow> type \<Rightarrow> type \<Rightarrow> resolver \<Rightarrow> type \<times> resolver" where
  "list_of_sup ho a b s =
     (let (u, s) = alloc (\<lambda>n. sup_types ho n [a, b]) s in alloc (\<lambda>n. ty_list n u) s)"

text \<open>
  One row of the table: the result type, or nothing when the operands do not fit. The operands are
  the inferred ones; the downcasts of the list rows follow a test of the flag.
\<close>

definition binary_row ::
    "(nat list \<Rightarrow> nat list) \<Rightarrow> bin_op \<Rightarrow> type \<Rightarrow> type \<Rightarrow> source_range \<Rightarrow> resolver \<Rightarrow> (type \<times> resolver) option" where
  "binary_row ho op t1 t2 rng s =
     (let int_ty = bt_int (rs_builtin s) in
      case op of
        BinOp_Add \<Rightarrow>
          if ty_is_number t1 \<and> ty_is_number t2 then Some (number_binary t1 t2 s)
          else if ty_is_str t1 \<and> ty_is_str t2 then Some (bt_str (rs_builtin s), s)
          else (case both list_item_ty t1 t2 of Some (a, b) \<Rightarrow> Some (list_of_sup ho a b s) | None \<Rightarrow> None)
      | BinOp_Sub \<Rightarrow> if ty_is_number t1 \<and> ty_is_number t2 then Some (number_binary t1 t2 s) else None
      | BinOp_Pow \<Rightarrow> if ty_is_number t1 \<and> ty_is_number t2 then Some (number_binary t1 t2 s) else None
      | BinOp_Mul \<Rightarrow>
          if ty_is_number t1 \<and> ty_is_number t2 then Some (number_binary t1 t2 s)
          else if ty_is_int t1 \<and> is_mul_val_type_or_mul_val_union_type t2 then Some (t2, s)
          else if is_mul_val_type_or_mul_val_union_type t1 \<and> ty_is_int t2 then Some (t1, s)
          else None
      | BinOp_Div \<Rightarrow>
          if ty_is_number t1 \<and> ty_is_number t2 then Some (number_binary t1 t2 (check_zero t2 rng s)) else None
      | BinOp_FloorDiv \<Rightarrow>
          if ty_is_number t1 \<and> ty_is_number t2 then Some (number_binary t1 t2 (check_zero t2 rng s)) else None
      | BinOp_Mod \<Rightarrow>
          if ty_is_number t1 \<and> ty_is_number t2 then Some (int_ty, check_zero t2 rng s) else None
      | BinOp_LShift \<Rightarrow> if ty_is_int t1 \<and> ty_is_int t2 then Some (int_ty, s) else None
      | BinOp_RShift \<Rightarrow> if ty_is_int t1 \<and> ty_is_int t2 then Some (int_ty, s) else None
      | BinOp_BitXor \<Rightarrow> if ty_is_int t1 \<and> ty_is_int t2 then Some (int_ty, s) else None
      | BinOp_BitAnd \<Rightarrow> if ty_is_int t1 \<and> ty_is_int t2 then Some (int_ty, s) else None
      | BinOp_BitOr \<Rightarrow>
          if ty_is_int t1 \<and> ty_is_int t2 then Some (int_ty, s)
          else if ty_is_none t1 then Some (t2, s)
          else if ty_is_none t2 then Some (t1, s)
          else (case both list_item_ty t1 t2 of
             Some (a, b) \<Rightarrow> Some (list_of_sup ho a b s)
           | None \<Rightarrow>
             (case (ty_kind t1, ty_kind t2) of
                (TDict c, TDict d) \<Rightarrow>
                  (let attrs = imap_extend (imap_extend [] (dt_attrs c)) (dt_attrs d);
                       (k, s) = alloc (\<lambda>n. sup_types ho n [dt_key_ty c, dt_key_ty d]) s;
                       (v, s) = alloc (\<lambda>n. sup_types ho n [dt_val_ty c, dt_val_ty d]) s
                   in Some (alloc (\<lambda>n. ty_dict_with_attrs n k v attrs) s))
              | _ \<Rightarrow>
                if ty_is_schema t1 \<and> (ty_is_schema t2 \<or> ty_is_dict t2) then Some (t1, s) else None))
      | BinOp_And \<Rightarrow> Some (bt_bool (rs_builtin s), s)
      | BinOp_Or \<Rightarrow> Some (alloc (\<lambda>n. sup_types ho n [t1, t2]) s)
      | BinOp_As \<Rightarrow>
          (let (u, s) = infer_to_variable_type ho t1 s in
           Some (t2,
             if is_upper_bound u t2 then s
             else add_type_error (''Conversion of type '' @ [CHR 39] @ full_ty_str t1 @ [CHR 39] @ '' to type '' @
               [CHR 39] @ full_ty_str t2 @ [CHR 39] @
               '' may be a mistake because neither type sufficiently overlaps with the other'') rng s)))"

definition unsupported_operands :: "string \<Rightarrow> type \<Rightarrow> type \<Rightarrow> string" where
  "unsupported_operands symbol l r =
     ''unsupported operand type(s) for '' @ symbol @ '': '' @ [CHR 39] @ ty_str l @ [CHR 39] @ '' and '' @
     [CHR 39] @ ty_str r @ [CHR 39]"

definition binary ::
    "(nat list \<Rightarrow> nat list) \<Rightarrow> type \<Rightarrow> type \<Rightarrow> bin_op \<Rightarrow> source_range \<Rightarrow> resolver \<Rightarrow> type \<times> resolver" where
  "binary ho l r op rng s =
     (let (t1, s) = literal_union_type_to_variable_type ho l s;
          (t2, s) = literal_union_type_to_variable_type ho r s
      in if has_any_type [t1, t2] then (bt_any (rs_builtin s), s)
         else case binary_row ho op t1 t2 rng s of
             Some res \<Rightarrow> res
           | None \<Rightarrow> (bt_any (rs_builtin s),
               add_type_error (unsupported_operands (bin_op_symbol op) l r) rng s))"

definition unary ::
    "(nat list \<Rightarrow> nat list) \<Rightarrow> type \<Rightarrow> unary_op \<Rightarrow> source_range \<Rightarrow> resolver \<Rightarrow> type \<times> resolver" where
  "unary ho t op rng s =
     (if has_any_type [t] then (bt_any (rs_builtin s), s)
      else
        let (var_ty, s) = literal_union_type_to_variable_type ho t s;
            result = (case op of
                UnaryOp_UAdd \<Rightarrow> ty_is_number var_ty
              | UnaryOp_USub \<Rightarrow> ty_is_number var_ty
              | UnaryOp_Invert \<Rightarrow> ty_is_int var_ty \<or> ty_is_bool var_ty
              | UnaryOp_Not \<Rightarrow> True)
        in if result then (var_ty, s)
           else (bt_any (rs_builtin s),
             add_type_error (''bad operand type for unary '' @ unary_op_symbol op @ '': '' @ [CHR 39] @
               ty_str t @ [CHR 39]) rng s))"

definition compare_ok :: "cmp_op \<Rightarrow> type \<Rightarrow> type \<Rightarrow> bool" where
  "compare_ok op t1 t2 =
     ((is_number_bool_type_or_number_bool_union_type t1 \<and> is_number_bool_type_or_number_bool_union_type t2 \<and>
       op \<notin> {CmpOp_In, CmpOp_NotIn}) \<or>
      (is_primitive_type_or_primitive_union_type t1 \<and> is_primitive_type_or_primitive_union_type t2 \<and>
       op \<in> {CmpOp_Eq, CmpOp_NotEq}) \<or>
      (op = CmpOp_Eq \<and> ty_is_list t1 \<and> ty_is_list t2) \<or>
      (op = CmpOp_Eq \<and> ty_is_dict_or_schema t1 \<and> ty_is_dict_or_schema t2) \<or>
      (op \<in> {CmpOp_In, CmpOp_NotIn} \<and> ty_is_iterable t2) \<or>
      ((ty_is_none t1 \<or> ty_is_none t2) \<and>
       op \<in> {CmpOp_Eq, CmpOp_NotEq, CmpOp_Is, CmpOp_IsNot, CmpOp_Not}))"

definition compare ::
    "(nat list \<Rightarrow> nat list) \<Rightarrow> type \<Rightarrow> type \<Rightarrow> cmp_op \<Rightarrow> source_range \<Rightarrow> resolver \<Rightarrow> type \<times> resolver" where
  "compare ho l r op rng s =
     (let (t1, s) = literal_union_type_to_variable_type ho l s;
          (t2, s) = literal_union_type_to_variable_type ho r s
      in if has_any_type [t1, t2] then (bt_any (rs_builtin s), s)
         else if compare_ok op t1 t2 then (bt_bool (rs_builtin s), s)
         else (bt_any (rs_builtin s),
           add_type_error (unsupported_operands (cmp_op_symbol op) t1 t2) rng s))"

section \<open>Running the operators\<close>

text \<open>
  The operators of the evaluator that call one operation of the runtime, and the logical operators, which
  return one of their operands. \<open>|\<close> is the union of configurations and \<open>as\<close> a runtime conversion.
\<close>

fun eval_binary :: "(f64 \<Rightarrow> f64 \<Rightarrow> f64) \<Rightarrow> context_config \<Rightarrow> bin_op \<Rightarrow> val \<Rightarrow> val \<Rightarrow> val res option" where
  "eval_binary powf cfg BinOp_Add v x = Some (bin_add cfg v x)"
| "eval_binary powf cfg BinOp_Sub v x = Some (bin_sub cfg v x)"
| "eval_binary powf cfg BinOp_Mul v x = Some (bin_mul cfg v x)"
| "eval_binary powf cfg BinOp_Div v x = Some (bin_div v x)"
| "eval_binary powf cfg BinOp_FloorDiv v x = Some (bin_floor_div v x)"
| "eval_binary powf cfg BinOp_Mod v x = Some (bin_mod v x)"
| "eval_binary powf cfg BinOp_Pow v x = Some (bin_pow powf cfg v x)"
| "eval_binary powf cfg BinOp_LShift v x = Some (bin_bit_lshift cfg v x)"
| "eval_binary powf cfg BinOp_RShift v x = Some (bin_bit_rshift cfg v x)"
| "eval_binary powf cfg BinOp_BitAnd v x = Some (bin_bit_and v x)"
| "eval_binary powf cfg BinOp_BitXor v x = Some (bin_bit_xor v x)"
| "eval_binary powf cfg BinOp_And v x = Some (Ok (if is_truthy v then x else v))"
| "eval_binary powf cfg BinOp_Or v x = Some (Ok (if is_truthy v then v else x))"
| "eval_binary powf cfg _ v x = None"

fun eval_unary :: "unary_op \<Rightarrow> val \<Rightarrow> val res" where
  "eval_unary UnaryOp_UAdd v = unary_plus v"
| "eval_unary UnaryOp_USub v = unary_minus v"
| "eval_unary UnaryOp_Invert v = Ok (unary_not v)"
| "eval_unary UnaryOp_Not v = Ok (unary_l_not v)"

section \<open>The tables describe the values\<close>

definition builtin_ok :: "resolver \<Rightarrow> bool" where
  "builtin_ok s =
     (let b = rs_builtin s in
      ty_kind (bt_any b) = TAny \<and> ty_kind (bt_bool b) = TBool \<and> ty_kind (bt_int b) = TInt \<and>
      ty_kind (bt_float b) = TFloat \<and> ty_kind (bt_str b) = TStr \<and> ty_kind (bt_none b) = TNone)"

lemma builtin_ok_new: "builtin_ok type_context_new"
  by (simp add: builtin_ok_def type_context_new_def)

lemma builtin_ok_simps [simp]:
  "builtin_ok (s\<lparr>rs_next := n\<rparr>) = builtin_ok s" "builtin_ok (s\<lparr>rs_errors := e\<rparr>) = builtin_ok s"
  "builtin_ok (add_type_error msg rng s) = builtin_ok s" "builtin_ok (check_zero t rng s) = builtin_ok s"
  by (simp_all add: builtin_ok_def add_type_error_def check_zero_def)

lemma has_type_test:
  assumes "has_type v t" "\<not> is_none_or_undefined v"
  shows "ty_is_int t \<Longrightarrow> is_int v" "ty_is_float t \<Longrightarrow> is_number v" "ty_is_str t \<Longrightarrow> is_str v"
proof -
  obtain a k al where t: "t = Type a k al" by (cases t)
  show "ty_is_int t \<Longrightarrow> is_int v"
    using assms unfolding t by (cases k) (simp_all add: ty_test_defs is_int_def)
  show "ty_is_float t \<Longrightarrow> is_number v"
    using assms unfolding t by (cases k) (simp_all add: ty_test_defs)
  show "ty_is_str t \<Longrightarrow> is_str v"
    using assms unfolding t by (cases k) (simp_all add: ty_test_defs is_str_def)
qed

lemma has_type_number:
  assumes "has_type v t" "\<not> is_none_or_undefined v" "ty_is_number t"
  shows "is_number v" "\<not> ty_is_float t \<Longrightarrow> is_int v"
proof -
  have "ty_is_int t \<or> ty_is_float t" using assms(3) by (simp only: ty_is_number_def ty_is_int_def ty_is_float_def)
  moreover have "is_int v \<Longrightarrow> is_number v" by (cases v) (simp_all add: is_int_def)
  ultimately show "is_number v" "\<not> ty_is_float t \<Longrightarrow> is_int v" using has_type_test [OF assms(1,2)] by auto
qed

text \<open>What the arithmetic of the runtime returns, by the kinds of its operands.\<close>

lemma check_f32_float: "check_f32 a b r = Ok u \<Longrightarrow> is_number u \<and> u = float_value r"
  by (auto simp: check_f32_def split: if_splits)

lemmas arith_defs =
  bin_add_def bin_sub_def bin_mul_def bin_pow_def bin_floor_div_def unsupported_bin_op_def

definition arith_op :: "bin_op \<Rightarrow> bool" where
  "arith_op op = (op \<in> {BinOp_Add, BinOp_Sub, BinOp_Mul, BinOp_Pow, BinOp_FloorDiv})"

lemma eval_arith_number:
  assumes "arith_op op" "is_number v" "is_number x" "eval_binary powf cfg op v x = Some (Ok u)"
  shows "is_number u" "is_int v \<and> is_int x \<longrightarrow> is_int u"
  using assms
  by (cases v; cases x; auto simp: arith_op_def arith_defs is_int_def bind_res_eq_Inr dest!: check_f32_float
      split: if_splits)+

lemma eval_none:
  assumes "eval_binary powf cfg op v x = Some (Ok u)" "op \<notin> {BinOp_And, BinOp_Or}"
  shows "\<not> is_none_or_undefined v \<and> \<not> is_none_or_undefined x"
  using assms
  by (cases op; cases v; cases x) (auto simp: arith_defs bin_div_def bin_mod_def bin_bit_lshift_def
      bin_bit_rshift_def bin_bit_and_def bin_bit_xor_def)

lemma eval_bits_int:
  assumes "op \<in> {BinOp_LShift, BinOp_RShift, BinOp_BitAnd, BinOp_BitXor}"
    and "eval_binary powf cfg op v x = Some (Ok u)"
  shows "is_int u"
  using assms
  by (cases op; cases v; cases x) (auto simp: bin_bit_lshift_def bin_bit_rshift_def bin_bit_and_def
      bin_bit_xor_def is_int_def unsupported_bin_op_def split: if_splits)

lemma list_all_imap_insert:
  "list_all (\<lambda>e. P (snd e)) m \<Longrightarrow> P v \<Longrightarrow> list_all (\<lambda>e. P (snd e)) (imap_insert k v m)"
  by (induction k v m rule: imap_insert.induct) auto

lemma copy_entries_all:
  "list_all (\<lambda>e. P (deep_copy (snd e))) es \<Longrightarrow> list_all (\<lambda>e. P (snd e)) (dv_values d) \<Longrightarrow>
    list_all (\<lambda>e. P (snd e)) (dv_values (copy_entries ops idx am es d))"
proof (induction es arbitrary: d)
  case (Cons e es)
  obtain k v where e: "e = (k, v)" by (cases e)
  have "list_all (\<lambda>e. P (snd e)) (imap_insert k (deep_copy v) (dv_values d))"
    using Cons.prems e by (intro list_all_imap_insert) auto
  then show ?case using Cons.prems e
    by (auto simp: Let_def dv_update_entry_def dv_update_attr_map_def intro!: Cons.IH split: option.splits)
qed simp

lemma is_number_deep_copy: "is_number (deep_copy v) = is_number v"
  by (cases v rule: deep_copy.cases) auto

lemma has_type_deep_copy: "has_type v t \<Longrightarrow> has_type (deep_copy v) t"
proof (induction v t rule: has_type.induct)
  case (1 v a t al)
  then show ?case by (cases v rule: deep_copy.cases) (auto simp: list_all_iff)
next
  case (2 v a k w at al)
  show ?case
  proof (cases "\<exists>vs ops idx am ps. v = dict_value (DictValue vs ops idx am ps)")
    case True
    then obtain vs ops idx am ps where v: "v = dict_value (DictValue vs ops idx am ps)" by blast
    with 2 have "list_all (\<lambda>e. has_type (deep_copy (snd e)) w) vs" by (auto simp: list_all_iff)
    with v show ?thesis using copy_entries_all [of "\<lambda>v. has_type v w" vs DictValue_default ops idx "[]"]
      by (simp add: DictValue_default_def dv_set_potential_schema_def)
  next
    case False
    then have "is_none_or_undefined v" using 2(2) by (cases v) (auto, metis dict_struct.exhaust)
    then show ?thesis by (cases v) auto
  qed
next
  case (3 v a ts al)
  then show ?case by (cases v rule: deep_copy.cases) (auto simp: list_ex_iff)
qed (auto simp: is_bool_def is_int_def is_str_def is_number_deep_copy split: type_kind.splits)

section \<open>Soundness\<close>

text \<open>The operands: a type of plain data or a literal type, but no union.\<close>

definition operand :: "type \<Rightarrow> bool" where
  "operand t = (union_types t = None \<and> (plain t \<or> ty_is_literal t))"

definition typed_op :: "bin_op \<Rightarrow> bool" where
  "typed_op op = (arith_op op \<or> op \<in> {BinOp_LShift, BinOp_RShift, BinOp_BitAnd, BinOp_BitXor})"

definition widen :: "(nat list \<Rightarrow> nat list) \<Rightarrow> type \<Rightarrow> resolver \<Rightarrow> type" where
  "widen ho t s = (if ty_is_literal t then fst (infer_to_variable_type ho t s) else t)"

lemma number_binary_sound:
  assumes "ty_is_number l" "ty_is_number r" "has_type v l" "has_type x r" "arith_op op"
    and "eval_binary powf cfg op v x = Some (Ok u)"
  shows "has_type u (fst (number_binary l r s))" "\<not> ty_is_literal (fst (number_binary l r s))"
proof -
  have ne: "\<not> is_none_or_undefined v" "\<not> is_none_or_undefined x"
    using eval_none [OF assms(6)] assms(5) by (auto simp: arith_op_def)
  note nl = has_type_number [OF assms(3) ne(1) assms(1)]
  note nr = has_type_number [OF assms(4) ne(2) assms(2)]
  show "has_type u (fst (number_binary l r s))"
    using eval_arith_number [OF assms(5) nl(1) nr(1) assms(6)] nl(2) nr(2)
    by (auto simp: number_binary_def alloc_def arc_new_def)
  show "\<not> ty_is_literal (fst (number_binary l r s))"
    by (simp add: number_binary_def alloc_def ty_test_defs)
qed

lemma list_add_sound:
  assumes "plain a" "plain b" "address_consistent (leaves a @ leaves b)" "\<And>xs. set (ho xs) = set xs"
    and "list_item_ty l = Some a" "list_item_ty r = Some b" "has_type v l" "has_type x r" "bin_add cfg v x = Ok u"
  shows "has_type u (fst (list_of_sup ho a b s))" "\<not> ty_is_literal (fst (list_of_sup ho a b s))"
proof -
  let ?n = "rs_next s"
  obtain vs xs where vx: "v = list_value vs" "x = list_value xs" "u = list_value (vs @ xs)"
    "list_all (\<lambda>w. has_type w a) vs" "list_all (\<lambda>w. has_type w b) xs"
    using assms(5-9) has_type_kind(7) [OF downcast_kinds(1) [OF assms(5)], of v]
      has_type_kind(7) [OF downcast_kinds(1) [OF assms(6)], of x]
    by (cases v; cases x) (auto simp: bin_add_def unsupported_bin_op_def)
  have bound: "subsume c (sup_types ho ?n [a, b]) False" if "c \<in> {a, b}" for c
    using sup_types_bound [of "[a, b]" ho c ?n] that assms(1-4) by simp
  have plain: "plain (sup_types ho ?n [a, b])" using assms(1,2) by (simp add: plain_sup_types)
  have "has_type w (sup_types ho ?n [a, b])" if "w \<in> set (vs @ xs)" for w
    using that vx(4,5) assms(1,2) plain bound subsume_preserves_values by (auto simp: list_all_iff)
  then show "has_type u (fst (list_of_sup ho a b s))"
    using vx(3) by (simp add: list_of_sup_def alloc_def ty_list_def arc_new_def list_all_iff)
  show "\<not> ty_is_literal (fst (list_of_sup ho a b s))"
    by (simp add: list_of_sup_def alloc_def ty_list_def ty_test_defs)
qed

text \<open>Repetition of a string or a list keeps the type up to literals.\<close>

lemma mul_operand_cases:
  assumes "operand t" "\<not> ty_is_number t" "is_mul_val_type_or_mul_val_union_type t"
  obtains "ty_kind t = TStr" | c where "ty_kind t = TStrLit c" | i where "ty_kind t = TList i"
  using assms
  by (cases "ty_kind t") (auto simp: operand_def ty_test_defs is_mul_val_type_or_mul_val_union_type_def
      is_kind_type_or_kind_union_type_def union_types_def)

lemma repeat_has_type:
  assumes "operand t" "\<not> ty_is_number t" "is_mul_val_type_or_mul_val_union_type t" "has_type w t" "builtin_ok s"
    and "w = str_value a \<and> u = str_value b \<or> w = list_value ws \<and> u = list_value (concat (replicate n (map deep_copy ws)))"
  shows "has_type u (widen ho t s)"
  using assms(1-3)
proof (cases rule: mul_operand_cases)
  case 1
  then show ?thesis using assms(4,6) by (auto simp: widen_def ty_test_defs is_str_def has_type_kind)
next
  case 2
  then show ?thesis using assms(4-6)
    by (cases t) (auto simp: widen_def ty_test_defs builtin_ok_def Let_def has_type_kind is_str_def)
next
  case (3 i)
  have "has_type (deep_copy y) i" if "y \<in> set ws" "w = list_value ws" for y
    using that assms(4) has_type_kind(7) [OF 3, of w] by (auto simp: list_all_iff intro: has_type_deep_copy)
  then show ?thesis using 3 assms(4,6) by (auto simp: widen_def ty_test_defs has_type_kind list_all_iff split: if_splits)
qed

lemma repeat_not_number:
  assumes "operand t" "\<not> ty_is_number t" "is_mul_val_type_or_mul_val_union_type t" "has_type w t"
    and "\<not> is_none_or_undefined w"
  shows "\<not> is_number w"
  using assms(1-3)
proof (cases rule: mul_operand_cases)
  case 2
  then show ?thesis using assms(4,5) by (cases t; cases w) auto
qed (use assms(4,5) in \<open>cases w; auto simp: has_type_kind is_str_def\<close>)+

lemma mul_cases:
  assumes "bin_mul cfg v x = Ok u" "\<not> (is_number v \<and> is_number x)"
  obtains a b ws n where "\<not> is_number x" "x = str_value a \<and> u = str_value b \<or>
      x = list_value ws \<and> u = list_value (concat (replicate n (map deep_copy ws)))"
  | a b ws n where "\<not> is_number v" "v = str_value a \<and> u = str_value b \<or>
      v = list_value ws \<and> u = list_value (concat (replicate n (map deep_copy ws)))"
  using assms
  by (cases v; cases x) (auto simp: bin_mul_def unsupported_bin_op_def bind_res_eq_Inr str_repeat_def
      list_repeat_def split: if_splits)

lemma mul_sound:
  assumes "operand l" "operand r" "has_type v l" "has_type x r" "bin_mul cfg v x = Ok u" "builtin_ok s"
    and "\<not> (ty_is_number l \<and> ty_is_number r)"
  shows "ty_is_int l \<Longrightarrow> is_mul_val_type_or_mul_val_union_type r \<Longrightarrow> has_type u (widen ho r s)"
    and "ty_is_int r \<Longrightarrow> is_mul_val_type_or_mul_val_union_type l \<Longrightarrow> has_type u (widen ho l s)"
proof -
  have ne: "\<not> is_none_or_undefined v" "\<not> is_none_or_undefined x"
    using eval_none [of _ cfg BinOp_Mul v x u] assms(5) by auto
  have int: "is_int w \<Longrightarrow> is_number w" for w by (cases w) (auto simp: is_int_def)
  show "has_type u (widen ho r s)" if t: "ty_is_int l" "is_mul_val_type_or_mul_val_union_type r"
  proof -
    have nr: "\<not> ty_is_number r" using assms(7) t(1) by (simp add: ty_is_number_def ty_is_int_def)
    have "is_number v" using int has_type_test(1) [OF assms(3) ne(1) t(1)] .
    moreover have "\<not> is_number x" using repeat_not_number [OF assms(2) nr t(2) assms(4) ne(2)] .
    ultimately show ?thesis
      using mul_cases [OF assms(5)] repeat_has_type [OF assms(2) nr t(2) assms(4,6)] by metis
  qed
  show "has_type u (widen ho l s)" if t: "ty_is_int r" "is_mul_val_type_or_mul_val_union_type l"
  proof -
    have nl: "\<not> ty_is_number l" using assms(7) t(1) by (simp add: ty_is_number_def ty_is_int_def)
    have "is_number x" using int has_type_test(1) [OF assms(4) ne(2) t(1)] .
    moreover have "\<not> is_number v" using repeat_not_number [OF assms(1) nl t(2) assms(3) ne(1)] .
    ultimately show ?thesis
      using mul_cases [OF assms(5)] repeat_has_type [OF assms(1) nl t(2) assms(3,6)] by metis
  qed
qed

lemma binary_row_number:
  "binary_row ho BinOp_Sub l r rng s = (if ty_is_number l \<and> ty_is_number r then Some (number_binary l r s) else None)"
  "binary_row ho BinOp_Pow l r rng s = (if ty_is_number l \<and> ty_is_number r then Some (number_binary l r s) else None)"
  "binary_row ho BinOp_FloorDiv l r rng s =
     (if ty_is_number l \<and> ty_is_number r then Some (number_binary l r (check_zero r rng s)) else None)"
  by (simp_all only: binary_row_def Let_def bin_op.case)

lemma binary_row_bits:
  "op \<in> {BinOp_LShift, BinOp_RShift, BinOp_BitAnd, BinOp_BitXor} \<Longrightarrow>
    binary_row ho op l r rng s = (if ty_is_int l \<and> ty_is_int r then Some (bt_int (rs_builtin s), s) else None)"
  by (elim insertE emptyE; simp only: binary_row_def Let_def bin_op.case)

lemma row_sound:
  assumes op: "typed_op op" and l: "operand l" "has_type v l" and r: "operand r" "has_type x r"
    and s: "builtin_ok s" and ho: "\<And>xs. set (ho xs) = set xs"
    and items: "\<And>a b. list_item_ty l = Some a \<Longrightarrow> list_item_ty r = Some b \<Longrightarrow> address_consistent (leaves a @ leaves b)"
    and row: "binary_row ho op l r rng s = Some (t, s')" and run: "eval_binary powf cfg op v x = Some (Ok u)"
  shows "has_type u (widen ho t s')"
proof -
  have lit: "has_type u t \<Longrightarrow> \<not> ty_is_literal t \<Longrightarrow> has_type u (widen ho t s')" for t by (simp add: widen_def)
  have num: "has_type u (widen ho (fst (number_binary l r s0)) s')"
    if "ty_is_number l" "ty_is_number r" "arith_op op" for s0
    using number_binary_sound [OF that(1,2) l(2) r(2) that(3) run] by (rule lit)
  consider "op = BinOp_Add" | "op = BinOp_Mul" | "op \<in> {BinOp_Sub, BinOp_Pow, BinOp_FloorDiv}"
    | "op \<in> {BinOp_LShift, BinOp_RShift, BinOp_BitAnd, BinOp_BitXor}"
    using op by (auto simp: typed_op_def arith_op_def)
  then show ?thesis
  proof cases
    case 1
    then have add: "bin_add cfg v x = Ok u" "arith_op op" using run by (simp_all add: arith_op_def)
    from row 1 consider "ty_is_number l" "ty_is_number r" "t = fst (number_binary l r s)"
      | "t = bt_str (rs_builtin s)" "ty_is_str l" "ty_is_str r"
      | a b where "list_item_ty l = Some a" "list_item_ty r = Some b" "t = fst (list_of_sup ho a b s)"
      by (auto simp: binary_row_def Let_def both_eq_Some split: if_splits option.splits dest!: fstI)
    then show ?thesis
    proof cases
      case 2
      have "is_str u" using has_type_test(3) [OF l(2) _ 2(2)] has_type_test(3) [OF r(2) _ 2(3)] add(1)
        by (cases v; cases x) (auto simp: bin_add_def is_str_def unsupported_bin_op_def)
      then show ?thesis using s 2(1) by (intro lit) (auto simp: builtin_ok_def Let_def has_type_kind ty_test_defs)
    next
      case (3 a b)
      then have "plain a" "plain b" using l(1) r(1) plain_downcast(2)
        by (auto simp: operand_def ty_test_defs dest: downcast_kinds(1))
      then show ?thesis using list_add_sound [OF _ _ items [OF 3(1,2)] ho 3(1,2) l(2) r(2) add(1), of s]
        by (intro lit) (simp_all add: 3(3))
    qed (use num add(2) in simp)
  next
    case 2
    then have mul: "bin_mul cfg v x = Ok u" "arith_op op" using run by (simp_all add: arith_op_def)
    from row 2 consider "ty_is_number l" "ty_is_number r" "t = fst (number_binary l r s)"
      | "\<not> (ty_is_number l \<and> ty_is_number r)" "ty_is_int l" "is_mul_val_type_or_mul_val_union_type r" "t = r" "s' = s"
      | "\<not> (ty_is_number l \<and> ty_is_number r)" "ty_is_int r" "is_mul_val_type_or_mul_val_union_type l" "t = l" "s' = s"
      by (auto simp: binary_row_def Let_def split: if_splits dest!: fstI)
    then show ?thesis
    proof cases
      case 2
      then show ?thesis using mul_sound(1) [OF l(1) r(1) l(2) r(2) mul(1) s] by simp
    next
      case 3
      then show ?thesis using mul_sound(2) [OF l(1) r(1) l(2) r(2) mul(1) s] by simp
    qed (use num mul(2) in simp)
  next
    case 3
    have "arith_op op" using 3 by (auto simp: arith_op_def)
    moreover obtain s0 where "number_binary l r s0 = (t, s')" "ty_is_number l" "ty_is_number r"
      using 3 row by (auto simp: binary_row_number split: if_splits)
    ultimately show ?thesis using num [of s0] by simp
  next
    case 4
    then have "is_int u" using eval_bits_int run by blast
    moreover have "t = bt_int (rs_builtin s)" using 4 row by (auto simp: binary_row_bits split: if_splits)
    ultimately show ?thesis using s
      by (intro lit) (auto simp: builtin_ok_def Let_def has_type_kind ty_test_defs)
  qed
qed



subsection \<open>Where the tables and the runtime differ\<close>

text \<open>
  \<open>%\<close> is always typed \<open>int\<close>, and \<open>/\<close> of two integers too, but the runtime returns a float; \<open>and\<close> is typed
  \<open>bool\<close>, but returns an operand; \<open>not\<close> has the type of its operand, but returns a bool; \<open>~\<close> of a bool is
  typed \<open>bool\<close>, but returns an integer.
\<close>

lemma division_table_unsound:
  assumes "ty_kind l = TInt" "ty_kind r = TInt"
  shows "ty_kind (fst (binary ho l r BinOp_Div rng s)) = TInt"
    and "eval_binary powf cfg BinOp_Div (int_value a) (int_value b) =
      Some (Ok (float_value (f64_div (f64_of_i64 a) (f64_of_i64 b))))"
  using assms
  by (simp_all add: binary_def literal_union_type_to_variable_type_def ty_test_defs has_any_type_def binary_row_def
      number_binary_def alloc_def bin_div_def)

lemma modulo_table_unsound:
  assumes "ty_kind l = TFloat" "ty_kind r = TFloat" "builtin_ok s"
  shows "ty_kind (fst (binary ho l r BinOp_Mod rng s)) = TInt"
    and "eval_binary powf cfg BinOp_Mod (float_value a) (float_value b) = Some (Ok (float_value (f64_rem a b)))"
  using assms
  by (simp_all add: binary_def literal_union_type_to_variable_type_def ty_test_defs has_any_type_def binary_row_def
      builtin_ok_def Let_def bin_mod_def)

lemma logic_table_unsound:
  assumes "ty_kind l = TInt" "builtin_ok s"
  shows "ty_kind (fst (binary ho l l BinOp_And rng s)) = TBool"
    and "eval_binary powf cfg BinOp_And (int_value 1) (int_value 2) = Some (Ok (int_value 2))"
    and "fst (unary ho l UnaryOp_Not rng s) = l"
    and "eval_unary UnaryOp_Not (int_value 1) = Ok (bool_value False)"
  using assms
  by (simp_all add: binary_def unary_def literal_union_type_to_variable_type_def ty_test_defs has_any_type_def
      binary_row_def builtin_ok_def Let_def unary_l_not_def)

end
