(* ===== verification/ParserInt.thy ===== *)
theory ParserInt
  imports RustStr
begin

text \<open>
  The value of an integer literal (\<open>parser/src/parser/int.rs\<close>): sign, radix prefix, leading zeroes,
  underscores, and the conversion to 64 bits. The trimming of bytes (\<open>bstr\<close>) and the conversion of
  digits to a big integer (\<open>num_bigint\<close>) are arguments.
\<close>

record bytes_lib =
  bl_trim :: "string \<Rightarrow> string"
  bl_parse_bytes :: "string \<Rightarrow> nat \<Rightarrow> nat option"

definition detect_base :: "char \<Rightarrow> nat \<times> nat" where
  "detect_base c =
     (if c = CHR ''x'' \<or> c = CHR ''X'' then (16, 2)
      else if c = CHR ''b'' \<or> c = CHR ''B'' then (2, 2)
      else if c = CHR ''o'' \<or> c = CHR ''O'' then (8, 2)
      else (8, 1))"

text \<open>
  The radix of a literal without its sign: the base, whether there is a prefix, and the length of it;
  \<open>Inl\<close> is the early return. A lone \<open>0\<close> has no second byte, so the test of the other digits is vacuous.
\<close>

definition split_radix :: "string \<Rightarrow> nat \<Rightarrow> i64 option + (nat \<times> bool \<times> nat)" where
  "split_radix lit base =
     (if hd lit = CHR ''0'' then
        (if base = 0 then
           (case lit of
              _ # c # _ \<Rightarrow> (case detect_base c of (b, n) \<Rightarrow> Inr (b, True, n))
            | _ \<Rightarrow> Inl (Some 0))
         else if base = 16 then
           Inr (base, case lit of _ # c # _ \<Rightarrow> (c = CHR ''x'' \<or> c = CHR ''X'', 2) | _ \<Rightarrow> (False, 0))
         else if base = 2 then
           Inr (base, case lit of _ # c # _ \<Rightarrow> (c = CHR ''b'' \<or> c = CHR ''B'', 2) | _ \<Rightarrow> (False, 0))
         else if base = 8 then
           Inr (base, case lit of _ # c # _ \<Rightarrow> (c = CHR ''o'' \<or> c = CHR ''O'', 2) | _ \<Rightarrow> (False, 0))
         else Inr (base, False, 0))
      else Inr (if base = 0 then 10 else base, False, 0))"

text \<open>The loop over leading zeroes: how many bytes after the first it passes, and the last of them.\<close>

fun zero_run :: "char \<Rightarrow> string \<Rightarrow> nat \<Rightarrow> (nat \<times> char) option" where
  "zero_run lst [] count = Some (count, lst)"
| "zero_run lst (c # s) count =
     (if c = CHR ''_'' then (if lst = CHR ''_'' then None else zero_run c s (Suc count))
      else if c \<noteq> CHR ''0'' then Some (count, lst)
      else zero_run c s (Suc count))"

definition remove_zeroes :: "string \<Rightarrow> (string \<times> char) option" where
  "remove_zeroes lit =
     (case lit of
        [] \<Rightarrow> None
      | first # s \<Rightarrow>
          if first = CHR ''0'' then
            (case zero_run first s 0 of
               None \<Rightarrow> None
             | Some (count, lst) \<Rightarrow>
                 (let rest = drop (count + 1) lit
                  in if rest = [] \<and> lit ! count = CHR ''_'' then None else Some (rest, lst)))
          else Some (lit, first))"

definition is_ascii_alphanumeric :: "char \<Rightarrow> bool" where
  "is_ascii_alphanumeric c =
     (let n = (of_char c :: nat) in (48 \<le> n \<and> n \<le> 57) \<or> (65 \<le> n \<and> n \<le> 90) \<or> (97 \<le> n \<and> n \<le> 122))"

fun validate_digits :: "char \<Rightarrow> string \<Rightarrow> bool" where
  "validate_digits lst [] = (lst \<noteq> CHR ''_'')"
| "validate_digits lst (c # s) =
     (if \<not> (is_ascii_alphanumeric c \<or> c = CHR ''_'') then False
      else if c = CHR ''_'' \<and> lst = CHR ''_'' then False
      else validate_digits c s)"

text \<open>
  \<open>to_u64_digits\<close> has one digit for a number from 1 to \<open>2 ^ 64 - 1\<close>, and the cast to \<open>i64\<close> wraps.
\<close>

definition to_i64 :: "bool \<Rightarrow> nat \<Rightarrow> i64 option" where
  "to_i64 neg n =
     (if 0 < n \<and> n < 2 ^ 64 then Some (if neg then - word_of_nat n else word_of_nat n) else None)"

definition bytes_to_int :: "bytes_lib \<Rightarrow> string \<Rightarrow> nat \<Rightarrow> i64 option" where
  "bytes_to_int lib bytes base =
     (let lit = bl_trim lib bytes in
      case lit of
        [] \<Rightarrow> None
      | c # s \<Rightarrow>
          (let neg = (c = CHR ''-''); lit = (if c = CHR ''+'' \<or> c = CHR ''-'' then s else lit) in
           if lit = [] then None
           else case split_radix lit base of
               Inl v \<Rightarrow> v
             | Inr (base, has_radix, radix_len) \<Rightarrow>
                 (let lit = (if has_radix then drop radix_len lit else lit) in
                  if has_radix \<and> lit = [] then None
                  else
                    let lit = (if has_radix \<and> hd lit = CHR ''_'' then tl lit else lit) in
                    case remove_zeroes lit of
                        None \<Rightarrow> None
                      | Some (lit, lst) \<Rightarrow>
                          if \<not> validate_digits lst lit then None
                          else if lit = [] then Some 0
                          else case bl_parse_bytes lib lit base of
                              None \<Rightarrow> None
                            | Some n \<Rightarrow> to_i64 neg n)))"

section \<open>Decimal and prefixed literals\<close>

text \<open>What is relied on: digits without spaces are not trimmed, and are read in their radix.\<close>

definition bytes_lib_ok :: "bytes_lib \<Rightarrow> bool" where
  "bytes_lib_ok lib =
     (\<forall>s. list_all is_ascii_alphanumeric s \<longrightarrow>
       bl_trim lib s = s \<and> (\<forall>r. s \<noteq> [] \<longrightarrow> bl_parse_bytes lib s r = digits_value r 0 s))"

lemma radix_char_alphanumeric: "d < 36 \<Longrightarrow> is_ascii_alphanumeric (radix_char d)"
  by (auto simp: is_ascii_alphanumeric_def radix_char_def Let_def)

lemma radix_char_nonzero: "0 < d \<Longrightarrow> d < 36 \<Longrightarrow> radix_char d \<noteq> CHR ''0''"
  using to_digit_radix_char [of d] by (auto simp: to_digit_def)

lemma radix_digits: "2 \<le> r \<Longrightarrow> r \<le> 36 \<Longrightarrow> list_all is_ascii_alphanumeric (nat_to_radix r n)"
proof (induction r n rule: nat_to_radix.induct)
  case (1 r n)
  have "n mod r < 36" using 1(2,3) mod_less_divisor [of r n] by linarith
  with 1 show ?case by (subst nat_to_radix.simps) (auto simp: radix_char_alphanumeric)
qed

lemma radix_first_digit:
  "2 \<le> r \<Longrightarrow> r \<le> 36 \<Longrightarrow> 0 < n \<Longrightarrow> \<exists>c s. nat_to_radix r n = c # s \<and> c \<noteq> CHR ''0''"
proof (induction r n rule: nat_to_radix.induct)
  case (1 r n)
  show ?case
  proof (cases "n < r")
    case True
    with 1 show ?thesis by (subst nat_to_radix.simps) (simp add: radix_char_nonzero)
  next
    case False
    then have "0 < n div r" using 1 by (simp add: div_greater_zero_iff)
    with False 1 obtain c s where "nat_to_radix r (n div r) = c # s" "c \<noteq> CHR ''0''" by auto
    with False 1 show ?thesis by (subst nat_to_radix.simps) auto
  qed
qed

lemma validate_alphanumeric:
  "list_all is_ascii_alphanumeric (c # s) \<Longrightarrow> validate_digits c s"
proof (induction s arbitrary: c)
  case Nil
  then show ?case by (auto simp: is_ascii_alphanumeric_def Let_def)
next
  case (Cons d s)
  then show ?case by (auto simp: is_ascii_alphanumeric_def Let_def)
qed

lemma digits_to_int:
  assumes "bytes_lib_ok lib" "2 \<le> r" "r \<le> 36" "0 < n" "nat_to_radix r n = c # s"
  shows "remove_zeroes (c # s) = Some (c # s, c)" "validate_digits c (c # s)"
    "bl_parse_bytes lib (c # s) r = Some n" "bl_trim lib (c # s) = c # s"
    "c \<noteq> CHR ''0''" "c \<noteq> CHR ''_''" "c \<noteq> CHR ''-''" "c \<noteq> CHR ''+''"
proof -
  have alnum: "list_all is_ascii_alphanumeric (c # s)" using radix_digits [OF assms(2,3), of n] assms(5) by simp
  show c: "c \<noteq> CHR ''0''" using radix_first_digit [OF assms(2-4)] assms(5) by auto
  show under: "c \<noteq> CHR ''_''" "c \<noteq> CHR ''-''" "c \<noteq> CHR ''+''" using alnum by (auto simp: is_ascii_alphanumeric_def Let_def)
  show "remove_zeroes (c # s) = Some (c # s, c)" using c by (simp add: remove_zeroes_def)
  show "validate_digits c (c # s)" using validate_alphanumeric [OF alnum] alnum under by simp
  show "bl_parse_bytes lib (c # s) r = Some n"
    using assms(1) alnum digits_value_nat_to_radix [OF assms(2,3), of n] assms(5) by (simp add: bytes_lib_ok_def)
  show "bl_trim lib (c # s) = c # s" using assms(1) alnum by (simp add: bytes_lib_ok_def)
qed

definition radix_prefix :: "nat \<Rightarrow> string" where
  "radix_prefix r = (if r = 16 then ''0x'' else if r = 8 then ''0o'' else if r = 2 then ''0b'' else [])"

lemma zero_literal:
  assumes "bytes_lib_ok lib" "r \<in> {2, 8, 10, 16}"
  shows "bytes_to_int lib (radix_prefix r @ nat_to_radix r 0) 0 = Some 0"
proof -
  have zero: "nat_to_radix r 0 = ''0''"
    by (subst nat_to_radix.simps) (use assms(2) in \<open>auto simp: radix_char_def char_of_def bit_0\<close>)
  have "list_all is_ascii_alphanumeric (radix_prefix r @ ''0'')"
    using assms(2) by (auto simp: radix_prefix_def is_ascii_alphanumeric_def)
  then have "bl_trim lib (radix_prefix r @ ''0'') = radix_prefix r @ ''0''"
    using assms(1) by (simp add: bytes_lib_ok_def)
  with assms(2) show ?thesis unfolding zero
    by (auto simp: bytes_to_int_def radix_prefix_def split_radix_def detect_base_def remove_zeroes_def Let_def)
qed

lemma nonzero_literal:
  assumes "bytes_lib_ok lib" "r \<in> {2, 8, 10, 16}" "0 < n"
  shows "bytes_to_int lib (radix_prefix r @ nat_to_radix r n) 0 = to_i64 False n"
proof -
  have r: "2 \<le> r" "r \<le> 36" using assms(2) by auto
  obtain c s where cs: "nat_to_radix r n = c # s" using radix_first_digit [OF r assms(3)] by blast
  note d = digits_to_int [OF assms(1) r assms(3) cs]
  have "list_all is_ascii_alphanumeric (radix_prefix r @ c # s)"
    using assms(2) radix_digits [OF r, of n] cs by (auto simp: radix_prefix_def is_ascii_alphanumeric_def)
  then have "bl_trim lib (radix_prefix r @ c # s) = radix_prefix r @ c # s"
    using assms(1) by (simp add: bytes_lib_ok_def)
  with assms(2) d show ?thesis unfolding cs
    by (auto simp: bytes_to_int_def radix_prefix_def split_radix_def detect_base_def Let_def)
qed

text \<open>
  C38: an integer literal in decimal, hexadecimal, octal or binary notation denotes the number of its
  digits up to \<open>i64::MAX\<close>; one from \<open>2 ^ 63\<close> to \<open>2 ^ 64 - 1\<close> is accepted too and denotes a negative
  number, since the cast to \<open>i64\<close> wraps; a larger one is rejected.
\<close>

theorem integer_literal_value:
  assumes "bytes_lib_ok lib" "r \<in> {2, 8, 10, 16}"
  shows "(n < 2 ^ 63 \<longrightarrow> (\<exists>v. bytes_to_int lib (radix_prefix r @ nat_to_radix r n) 0 = Some v \<and> sint v = int n)) \<and>
    (2 ^ 63 \<le> n \<and> n < 2 ^ 64 \<longrightarrow> (\<exists>v. bytes_to_int lib (radix_prefix r @ nat_to_radix r n) 0 = Some v \<and> sint v = int n - 2 ^ 64)) \<and>
    (2 ^ 64 \<le> n \<longrightarrow> bytes_to_int lib (radix_prefix r @ nat_to_radix r n) 0 = None)"
proof (cases "n = 0")
  case True
  then show ?thesis using zero_literal [OF assms(1,2)] by simp
next
  case False
  have small: "sint (word_of_nat n :: i64) = int n" if "n < 2 ^ 63"
    using that sint_of_in_i64 [of "int n"] by (simp add: in_i64_def)
  have wrap: "(word_of_nat n :: i64) = word_of_int (int n - 2 ^ 64)" by simp
  have big: "sint (word_of_nat n :: i64) = int n - 2 ^ 64" if "2 ^ 63 \<le> n" "n < 2 ^ 64"
    unfolding wrap by (rule sint_of_in_i64) (use that in \<open>simp add: in_i64_def\<close>)
  show ?thesis using nonzero_literal [OF assms(1,2)] False small big by (auto simp: to_i64_def)
qed

definition plain_bytes_lib :: bytes_lib where
  "plain_bytes_lib = \<lparr> bl_trim = (\<lambda>s. s), bl_parse_bytes = (\<lambda>s r. digits_value r 0 s) \<rparr>"

theorem integer_literal_value_witness:
  "\<exists>v. bytes_to_int plain_bytes_lib (radix_prefix 16 @ nat_to_radix 16 255) 0 = Some v \<and> sint v = 255"
  using integer_literal_value [of plain_bytes_lib 16 255]
  by (simp add: bytes_lib_ok_def plain_bytes_lib_def)

text \<open>The literal \<open>18446744073709551615\<close> is \<open>-1\<close>.\<close>

lemma literal_wraps:
  assumes "bytes_lib_ok lib"
  shows "bytes_to_int lib (nat_to_string (2 ^ 64 - 1)) 0 = Some (- 1)"
  using nonzero_literal [OF assms, of 10 "2 ^ 64 - 1"]
  by (simp add: nat_to_string_radix radix_prefix_def to_i64_def)

end
