(* ===== verification/ParserExpr.thy ===== *)
theory ParserExpr
  imports Ast ParserInt
begin

text \<open>
  The expression parser: tokens (\<open>ast/src/token.rs\<close>), precedences
  (\<open>parser/src/parser/precedence.rs\<close>), the token cursor (\<open>parser/src/parser/mod.rs\<close>) and the operator
  part of \<open>parser/src/parser/expr.rs\<close>: conditional, binary, comparison, unary and parenthesised
  expressions, names, numbers, constants, selectors, calls, subscripts and slices. The other operands
  (strings, lists, configs, lambdas, quantifiers, schemas) are parsers given as arguments.

  Source positions are left out: they only reach node locations and error messages. An error is
  recorded, and the parser goes on.
\<close>

section \<open>Tokens\<close>

datatype unary_op_token = UTilde | UNot

datatype bin_op_token =
    Plus | Minus | Star | Slash | Percent | StarStar | SlashSlash | Caret | AndTok | OrTok | Shl | Shr

datatype bin_cmp_token = EqTok | NotEqTok | LtTok | LtEqTok | GtTok | GtEqTok

datatype delim_token = ParenDelim | BracketDelim | BraceDelim | NoDelim

datatype lit_kind = LitBool | LitInteger | LitFloat | LitStr bool bool | LitNone | LitUndefined | LitErr

datatype lit = Lit
  (lit_kind: lit_kind)
  (lit_symbol: string)
  (lit_suffix: "string option")
  (lit_raw: "string option")

datatype token =
    UnaryOpTok unary_op_token
  | BinOpTok bin_op_token
  | BinOpEqTok bin_op_token
  | BinCmpTok bin_cmp_token
  | At | Dot | DotDotDot | Comma | Colon | RArrow | Dollar | Question | Assign
  | OpenDelim delim_token
  | CloseDelim delim_token
  | Literal lit
  | Ident string
  | DocComment string
  | Indent nat
  | Dedent nat
  | Newline
  | Dummy
  | Eof

definition is_keyword :: "token \<Rightarrow> string \<Rightarrow> bool" where
  "is_keyword t kw = (t = Ident kw)"

definition is_in_recovery_set :: "token \<Rightarrow> bool" where
  "is_in_recovery_set t = (t = Indent 0 \<or> t = Dummy)"

section \<open>Precedences\<close>

datatype precedence =
    PrecLowest | PrecAs | PrecLogicOr | PrecLogicAnd | PrecEquals | PrecInOrNotIn | PrecIsOrIsNot
  | PrecLessGreater | PrecBitOr | PrecBitXor | PrecBitAnd | PrecShift | PrecSum | PrecProduct
  | PrecPower | PrecPrefix

text \<open>The order of the enum: its discriminant.\<close>

fun prec_rank :: "precedence \<Rightarrow> nat" where
  "prec_rank PrecLowest = 0"
| "prec_rank PrecAs = 1"
| "prec_rank PrecLogicOr = 2"
| "prec_rank PrecLogicAnd = 3"
| "prec_rank PrecEquals = 4"
| "prec_rank PrecInOrNotIn = 5"
| "prec_rank PrecIsOrIsNot = 6"
| "prec_rank PrecLessGreater = 7"
| "prec_rank PrecBitOr = 8"
| "prec_rank PrecBitXor = 9"
| "prec_rank PrecBitAnd = 10"
| "prec_rank PrecShift = 11"
| "prec_rank PrecSum = 12"
| "prec_rank PrecProduct = 13"
| "prec_rank PrecPower = 14"
| "prec_rank PrecPrefix = 15"

lemma prec_rank_inj: "prec_rank p = prec_rank q \<Longrightarrow> p = q"
  by (cases p; cases q) simp_all

instantiation precedence :: linorder
begin

definition less_eq_precedence :: "precedence \<Rightarrow> precedence \<Rightarrow> bool" where
  "less_eq_precedence p q = (prec_rank p \<le> prec_rank q)"

definition less_precedence :: "precedence \<Rightarrow> precedence \<Rightarrow> bool" where
  "less_precedence p q = (prec_rank p < prec_rank q)"

instance
  by standard (auto simp: less_eq_precedence_def less_precedence_def intro: prec_rank_inj)

end

fun bin_op_prec :: "bin_op_token \<Rightarrow> precedence" where
  "bin_op_prec Plus = PrecSum"
| "bin_op_prec Minus = PrecSum"
| "bin_op_prec Star = PrecProduct"
| "bin_op_prec Slash = PrecProduct"
| "bin_op_prec Percent = PrecProduct"
| "bin_op_prec SlashSlash = PrecProduct"
| "bin_op_prec StarStar = PrecPower"
| "bin_op_prec Caret = PrecBitXor"
| "bin_op_prec AndTok = PrecBitAnd"
| "bin_op_prec OrTok = PrecBitOr"
| "bin_op_prec Shl = PrecShift"
| "bin_op_prec Shr = PrecShift"

definition precedence_from :: "token \<Rightarrow> precedence" where
  "precedence_from t =
     (if is_keyword t ''as'' then PrecAs
      else case t of
          UnaryOpTok _ \<Rightarrow> PrecPrefix
        | BinOpTok ot \<Rightarrow> bin_op_prec ot
        | BinCmpTok ct \<Rightarrow> (if ct = EqTok \<or> ct = NotEqTok then PrecEquals else PrecLessGreater)
        | _ \<Rightarrow>
            if is_keyword t ''or'' then PrecLogicOr
            else if is_keyword t ''and'' then PrecLogicAnd
            else if is_keyword t ''in'' then PrecInOrNotIn
            else if is_keyword t ''is'' then PrecIsOrIsNot
            else PrecLowest)"

fun bin_op_of_token :: "bin_op_token \<Rightarrow> bin_op" where
  "bin_op_of_token Plus = BinOp_Add"
| "bin_op_of_token Minus = BinOp_Sub"
| "bin_op_of_token Star = BinOp_Mul"
| "bin_op_of_token Slash = BinOp_Div"
| "bin_op_of_token Percent = BinOp_Mod"
| "bin_op_of_token StarStar = BinOp_Pow"
| "bin_op_of_token SlashSlash = BinOp_FloorDiv"
| "bin_op_of_token Caret = BinOp_BitXor"
| "bin_op_of_token AndTok = BinOp_BitAnd"
| "bin_op_of_token OrTok = BinOp_BitOr"
| "bin_op_of_token Shl = BinOp_LShift"
| "bin_op_of_token Shr = BinOp_RShift"

fun cmp_op_of_token :: "bin_cmp_token \<Rightarrow> cmp_op" where
  "cmp_op_of_token EqTok = CmpOp_Eq"
| "cmp_op_of_token NotEqTok = CmpOp_NotEq"
| "cmp_op_of_token LtTok = CmpOp_Lt"
| "cmp_op_of_token LtEqTok = CmpOp_LtE"
| "cmp_op_of_token GtTok = CmpOp_Gt"
| "cmp_op_of_token GtEqTok = CmpOp_GtE"

definition bin_or_cmp_op_try_from :: "token \<Rightarrow> bin_or_cmp_op option" where
  "bin_or_cmp_op_try_from t =
     (case t of
        BinOpTok ot \<Rightarrow> Some (Bin (bin_op_of_token ot))
      | BinCmpTok ct \<Rightarrow> Some (Cmp (cmp_op_of_token ct))
      | _ \<Rightarrow>
          if is_keyword t ''as'' then Some (Bin BinOp_As)
          else if is_keyword t ''or'' then Some (Bin BinOp_Or)
          else if is_keyword t ''and'' then Some (Bin BinOp_And)
          else if is_keyword t ''in'' then Some (Cmp CmpOp_In)
          else if is_keyword t ''is'' then Some (Cmp CmpOp_Is)
          else None)"

definition unary_op_try_from :: "token \<Rightarrow> unary_op option" where
  "unary_op_try_from t =
     (case t of
        UnaryOpTok UTilde \<Rightarrow> Some UnaryOp_Invert
      | UnaryOpTok UNot \<Rightarrow> Some UnaryOp_Not
      | BinOpTok Plus \<Rightarrow> Some UnaryOp_UAdd
      | BinOpTok Minus \<Rightarrow> Some UnaryOp_USub
      | _ \<Rightarrow> if is_keyword t ''not'' then Some UnaryOp_Not else None)"

section \<open>The parser state\<close>

datatype parse_error = UnexpectedToken "string list" token | MessageError string

record parser =
  token :: token
  stream :: "token list"
  errors :: "parse_error list"

definition bump :: "parser \<Rightarrow> parser" where
  "bump p = (case stream p of [] \<Rightarrow> p | t # ts \<Rightarrow> p\<lparr>token := t, stream := ts\<rparr>)"

definition peek :: "parser \<Rightarrow> token option" where
  "peek p = (case stream p of [] \<Rightarrow> None | t # _ \<Rightarrow> Some t)"

definition token_error :: "string list \<Rightarrow> parser \<Rightarrow> parser" where
  "token_error expected p = p\<lparr>errors := errors p @ [UnexpectedToken expected (token p)]\<rparr>"

text \<open>The loops that skip tokens do not return when the last token of the stream is to be skipped.\<close>

datatype 'a outcome = NoReturn | Panic | Return 'a

fun bind_outcome :: "'a outcome \<Rightarrow> ('a \<Rightarrow> 'b outcome) \<Rightarrow> 'b outcome" where
  "bind_outcome NoReturn f = NoReturn"
| "bind_outcome Panic f = Panic"
| "bind_outcome (Return x) f = f x"

fun skip_tokens :: "(token \<Rightarrow> bool) \<Rightarrow> token \<Rightarrow> token list \<Rightarrow> (token \<times> token list) outcome" where
  "skip_tokens f t [] = (if f t then NoReturn else Return (t, []))"
| "skip_tokens f t (u # us) = (if f t then skip_tokens f u us else Return (t, u # us))"

definition skip_while :: "(token \<Rightarrow> bool) \<Rightarrow> parser \<Rightarrow> parser outcome" where
  "skip_while f p =
     bind_outcome (skip_tokens f (token p) (stream p)) (\<lambda>(t, ts). Return (p\<lparr>token := t, stream := ts\<rparr>))"

definition skip_newlines :: "parser \<Rightarrow> parser outcome" where
  "skip_newlines = skip_while (\<lambda>t. t = Newline)"

definition clean_all_indent :: "parser \<Rightarrow> parser outcome" where
  "clean_all_indent = skip_while (\<lambda>t. case t of Indent _ \<Rightarrow> True | _ \<Rightarrow> False)"

definition clean_all_dedent :: "parser \<Rightarrow> parser outcome" where
  "clean_all_dedent = skip_while (\<lambda>t. case t of Dedent _ \<Rightarrow> True | _ \<Rightarrow> False)"

definition clean_all_indentations :: "parser \<Rightarrow> parser outcome" where
  "clean_all_indentations p = bind_outcome (clean_all_indent p) clean_all_dedent"

definition span_error :: "string \<Rightarrow> parser \<Rightarrow> parser" where
  "span_error msg p = p\<lparr>errors := errors p @ [MessageError msg]\<rparr>"


text \<open>
  The marker is the index of the cursor, and the index grows as the rest of the stream shrinks. The text of
  a token in an error message is not modelled: such a message keeps its fixed part.
\<close>

definition drop_marker :: "nat \<Rightarrow> parser \<Rightarrow> parser" where
  "drop_marker marker p = (if marker = length (stream p) then bump (span_error ''expected expression'' p) else p)"

section \<open>Expressions\<close>

datatype number_lit = IntLit i64 | FloatLit f64

datatype name_constant = ConstTrue | ConstFalse | ConstNone | ConstUndefined

text \<open>
  \<open>Operand\<close> stands for the expressions of the parsers that are arguments. An identifier is its names; a
  keyword argument is its identifier and its value.
\<close>

datatype 'o expr =
    Identifier "string list"
  | NumberLit number_lit "string option"
  | NameConstantLit name_constant
  | Paren "'o expr"
  | Selector (selector_value: "'o expr") (selector_attr: "string list") (selector_question: bool)
  | Call (call_func: "'o expr") (call_args: "'o expr list") (call_keywords: "(string list \<times> 'o expr) list")
  | Subscript (subscript_value: "'o expr") (subscript_index: "'o expr option") (subscript_lower: "'o expr option")
      (subscript_upper: "'o expr option") (subscript_step: "'o expr option") (subscript_question: bool)
  | Unary unary_op "'o expr"
  | Binary "'o expr" bin_op "'o expr"
  | Compare "'o expr" "cmp_op list" "'o expr list"
  | If "'o expr" "'o expr" "'o expr"
  | Missing
  | Operand 'o

lemma size_keyword [termination_simp]:
  "kv \<in> set kvs \<Longrightarrow> size (snd kv) < Suc (size_list (size_prod (\<lambda>x. 0) size) kvs + k)"
  by (induction kvs) (auto split: prod.splits)

type_synonym 'o parse_res = "('o expr \<times> parser) outcome"

subsection \<open>Operators\<close>

text \<open>
  The functions take the parser of primary expressions and fuel, which bounds the depth of the
  recursion; \<open>NoReturn\<close> also means that the fuel is used up.
\<close>

definition parse_unary_expr :: "(parser \<Rightarrow> 'o parse_res) \<Rightarrow> parser \<Rightarrow> 'o parse_res" where
  "parse_unary_expr primary p =
     (case unary_op_try_from (token p) of
        None \<Rightarrow> primary p
      | Some op \<Rightarrow> bind_outcome (primary (bump p)) (\<lambda>(operand, p). Return (Unary op operand, p)))"

text \<open>The precedence of the next operator, and whether it is made of two tokens.\<close>

definition next_prec :: "parser \<Rightarrow> precedence \<times> bool" where
  "next_prec p =
     (let oprec = precedence_from (token p) in
      case peek p of
        None \<Rightarrow> (oprec, False)
      | Some pk \<Rightarrow>
          if is_keyword (token p) ''is'' \<and> is_keyword pk ''not'' then (PrecIsOrIsNot, True)
          else if is_keyword (token p) ''not'' \<and> is_keyword pk ''in'' then (PrecInOrNotIn, True)
          else (oprec, False))"

text \<open>\<open>use_peek\<close> is only set for \<open>not in\<close> and \<open>is not\<close>; the other branches of the code are unreachable.\<close>

definition next_op :: "bool \<Rightarrow> parser \<Rightarrow> bin_or_cmp_op option" where
  "next_op use_peek p =
     (if use_peek then Some (Cmp (if is_keyword (token p) ''not'' then CmpOp_NotIn else CmpOp_IsNot))
      else bin_or_cmp_op_try_from (token p))"

definition all_symbols :: "string list" where
  "all_symbols =
     map bin_op_symbol [BinOp_Add, BinOp_Sub, BinOp_Mul, BinOp_Div, BinOp_Mod, BinOp_Pow, BinOp_FloorDiv,
       BinOp_LShift, BinOp_RShift, BinOp_BitXor, BinOp_BitAnd, BinOp_BitOr, BinOp_And, BinOp_Or, BinOp_As] @
     map cmp_op_symbol [CmpOp_Eq, CmpOp_NotEq, CmpOp_Lt, CmpOp_LtE, CmpOp_Gt, CmpOp_GtE, CmpOp_Is, CmpOp_In,
       CmpOp_NotIn, CmpOp_Not, CmpOp_IsNot]"

text \<open>The comparison collected so far, if there is one, else the operand.\<close>

definition close_compare :: "'o expr \<Rightarrow> 'o expr \<Rightarrow> cmp_op list \<Rightarrow> 'o expr list \<Rightarrow> 'o expr" where
  "close_compare x left ops comparators = (if ops \<noteq> [] then Compare left ops comparators else x)"

fun do_parse_simple_expr :: "(parser \<Rightarrow> 'o parse_res) \<Rightarrow> nat \<Rightarrow> precedence \<Rightarrow> parser \<Rightarrow> 'o parse_res"
  and parse_ops :: "(parser \<Rightarrow> 'o parse_res) \<Rightarrow> nat \<Rightarrow> precedence \<Rightarrow> 'o expr \<Rightarrow> 'o expr \<Rightarrow> cmp_op list \<Rightarrow>
    'o expr list \<Rightarrow> parser \<Rightarrow> 'o parse_res" where
  "do_parse_simple_expr primary 0 prec1 p = NoReturn"
| "do_parse_simple_expr primary (Suc n) prec1 p =
     bind_outcome (parse_unary_expr primary p) (\<lambda>(x, p). parse_ops primary n prec1 x x [] [] p)"
| "parse_ops primary 0 prec1 x left ops comparators p = NoReturn"
| "parse_ops primary (Suc n) prec1 x left ops comparators p =
     (case next_prec p of (oprec, use_peek) \<Rightarrow>
      if oprec \<le> prec1 then Return (close_compare x left ops comparators, p)
      else case next_op use_peek p of
          None \<Rightarrow> Return (x, token_error all_symbols p)
        | Some op \<Rightarrow>
            bind_outcome (do_parse_simple_expr primary n oprec (if use_peek then bump (bump p) else bump p)) (\<lambda>(y, p).
            case op of
              Cmp c \<Rightarrow>
                parse_ops primary n prec1 x (if ops = [] then x else left) (ops @ [c]) (comparators @ [y]) p
            | Bin b \<Rightarrow>
                parse_ops primary n prec1 (Binary (close_compare x left ops comparators) b y) left [] [] p))"

definition parse_simple_expr :: "(parser \<Rightarrow> 'o parse_res) \<Rightarrow> nat \<Rightarrow> parser \<Rightarrow> 'o parse_res" where
  "parse_simple_expr primary n p = do_parse_simple_expr primary n PrecLowest p"

text \<open>\<open>expr\<close> is the parser of the last branch.\<close>

definition parse_if_expr ::
    "(parser \<Rightarrow> 'o parse_res) \<Rightarrow> nat \<Rightarrow> (parser \<Rightarrow> 'o parse_res) \<Rightarrow> 'o expr \<Rightarrow> parser \<Rightarrow> 'o parse_res" where
  "parse_if_expr primary n expr body p =
     (if is_keyword (token p) ''if'' then
        bind_outcome (parse_simple_expr primary n (bump p)) (\<lambda>(cond, p).
        if is_keyword (token p) ''else'' then
          bind_outcome (expr (bump p)) (\<lambda>(orelse, p). Return (If body cond orelse, p))
        else Return (If body cond Missing, token_error [''else''] p))
      else Return (Missing, token_error [''if''] p))"

fun parse_expr :: "(parser \<Rightarrow> 'o parse_res) \<Rightarrow> nat \<Rightarrow> parser \<Rightarrow> 'o parse_res" where
  "parse_expr primary 0 p = NoReturn"
| "parse_expr primary (Suc n) p =
     (let p = (if is_in_recovery_set (token p) then bump (span_error ''unexpected token'' p) else p) in
      bind_outcome (parse_simple_expr primary n p) (\<lambda>(operand, p).
      if is_keyword (token p) ''if'' then parse_if_expr primary n (\<lambda>p. parse_expr primary n p) operand p
      else Return (operand, p)))"

subsection \<open>Names, constants and numbers\<close>

text \<open>The loop of \<open>parse_identifier\<close> over dots.\<close>

fun parse_names :: "nat \<Rightarrow> string list \<Rightarrow> parser \<Rightarrow> (string list \<times> parser) outcome" where
  "parse_names 0 names p = NoReturn"
| "parse_names (Suc n) names p =
     (if token p = Dot then
        (let p = bump p in
         case token p of
           Ident name \<Rightarrow> parse_names n (names @ [name]) (bump p)
         | _ \<Rightarrow> parse_names n (names @ [[]]) (token_error [''identifier''] p))
      else Return (names, p))"

definition parse_identifier :: "nat \<Rightarrow> parser \<Rightarrow> (string list \<times> parser) outcome" where
  "parse_identifier n p =
     (case token p of
        Ident name \<Rightarrow> parse_names n [name] (bump p)
      | _ \<Rightarrow> Return ([[]], token_error [''identifier''] p))"

definition parse_constant_expr :: "lit_kind \<Rightarrow> parser \<Rightarrow> 'o expr \<times> parser" where
  "parse_constant_expr k p =
     (let (v, p) =
        (case k of
           LitBool \<Rightarrow>
             if is_keyword (token p) ''True'' then (ConstTrue, p)
             else if is_keyword (token p) ''False'' then (ConstFalse, p)
             else (ConstFalse, token_error [''bool''] p)
         | LitNone \<Rightarrow> (ConstNone, p)
         | LitUndefined \<Rightarrow> (ConstUndefined, p)
         | _ \<Rightarrow> (ConstUndefined, token_error [''bool'', ''None'', ''Undefined''] p))
      in (NameConstantLit v, bump p))"

definition binary_suffixes :: "string list" where
  "binary_suffixes = [''n'', ''u'', ''m'', ''k'', ''K'', ''M'', ''G'', ''T'', ''P'', ''Ki'', ''Mi'', ''Gi'', ''Ti'', ''Pi'']"

definition number_binary_suffix :: "string \<Rightarrow> string option" where
  "number_binary_suffix s = (if s \<in> set binary_suffixes then Some s else None)"

definition parse_num_expr :: "bytes_lib \<Rightarrow> lit \<Rightarrow> parser \<Rightarrow> 'o expr \<times> parser" where
  "parse_num_expr lib lk p =
     (case lit_kind lk of
        LitInteger \<Rightarrow>
          (let (v, q) = (case bytes_to_int lib (lit_symbol lk) 0 of
              Some v \<Rightarrow> (v, p) | None \<Rightarrow> (0, token_error [''int''] p))
           in (NumberLit (IntLit v) (case lit_suffix lk of Some sx \<Rightarrow> number_binary_suffix sx | None \<Rightarrow> None), bump q))
      | LitFloat \<Rightarrow>
          (let (v, q) = (case f64_parse (lit_symbol lk) of
              Some v \<Rightarrow> (v, p) | None \<Rightarrow> (f64_zero, token_error [''float''] p))
           in (NumberLit (FloatLit v) None, bump q))
      | _ \<Rightarrow> (NumberLit (IntLit 0) None, bump (token_error [''int'', ''float''] p)))"

subsection \<open>Suffixes\<close>

text \<open>\<open>expr\<close> is the parser of the expressions inside a suffix or between parentheses.\<close>

definition parse_selector_expr :: "nat \<Rightarrow> 'o expr \<Rightarrow> parser \<Rightarrow> 'o parse_res" where
  "parse_selector_expr n value p =
     (let has_question = (token p = Question);
          p = (if has_question then bump p else p);
          p = bump p
      in case token p of
           Ident _ \<Rightarrow> bind_outcome (parse_identifier n p) (\<lambda>(attr, p). Return (Selector value attr has_question, p))
         | _ \<Rightarrow> Return (Selector value [[]] has_question, token_error [''identifier''] p))"

definition expect_close :: "delim_token \<Rightarrow> string \<Rightarrow> parser \<Rightarrow> parser" where
  "expect_close d s p = (if token p = CloseDelim d then bump p else token_error [s] p)"

definition parse_argument_expr ::
    "(parser \<Rightarrow> 'o parse_res) \<Rightarrow> parser \<Rightarrow> (('o expr + string list \<times> 'o expr) \<times> parser) outcome" where
  "parse_argument_expr expr p =
     bind_outcome (expr p) (\<lambda>(e, p).
     if token p = Assign then
       (let p = bump p;
            (arg, p) = (case e of Identifier x \<Rightarrow> (x, p) | _ \<Rightarrow> ([], token_error [''identifier''] p))
        in bind_outcome (expr p) (\<lambda>(value, p). Return (Inr (arg, value), p)))
     else Return (Inl e, p))"

definition is_terminator :: "bool \<Rightarrow> token \<Rightarrow> bool" where
  "is_terminator has_newline t =
     (t = CloseDelim ParenDelim \<or> t = Eof \<or> (t = Newline \<and> \<not> has_newline) \<or> is_keyword t ''for'')"

text \<open>The loop of \<open>parse_arguments_expr\<close>.\<close>

fun parse_arguments_expr :: "(parser \<Rightarrow> 'o parse_res) \<Rightarrow> nat \<Rightarrow> bool \<Rightarrow> 'o expr list \<Rightarrow> (string list \<times> 'o expr) list \<Rightarrow>
    parser \<Rightarrow> (('o expr list \<times> (string list \<times> 'o expr) list) \<times> parser) outcome" where
  "parse_arguments_expr expr 0 has_newline args keywords p = NoReturn"
| "parse_arguments_expr expr (Suc n) has_newline args keywords p =
     (let marker = length (stream p) in
      bind_outcome (clean_all_indentations p) (\<lambda>p.
      if is_terminator has_newline (token p) then Return ((args, keywords), p)
      else
        bind_outcome (parse_argument_expr expr p) (\<lambda>(a, p).
        let (args', keywords', p) =
          (case a of
             Inl e \<Rightarrow>
               (let (args', p) =
                    (if e = Missing then (args, bump (token_error ['',''] p)) else (args @ [e], p));
                    p = (if keywords \<noteq> [] then span_error ''positional argument follows keyword argument'' p else p)
                in (args', keywords, p))
           | Inr k \<Rightarrow> (args, keywords @ [k], p));
          p = (if token p = Comma then bump p else p)
        in bind_outcome (if has_newline then skip_newlines p else Return p) (\<lambda>p.
           parse_arguments_expr expr n has_newline args' keywords' (drop_marker marker p)))))"

definition parse_call :: "(parser \<Rightarrow> 'o parse_res) \<Rightarrow> nat \<Rightarrow> 'o expr \<Rightarrow> parser \<Rightarrow> 'o parse_res" where
  "parse_call expr n func p =
     (let p = (if token p = OpenDelim ParenDelim then bump p else token_error [''(''] p);
          has_newline = (token p = Newline)
      in bind_outcome
           (if has_newline then bind_outcome (skip_newlines p) clean_all_indentations else Return p) (\<lambda>p.
         if has_newline \<and> token p = CloseDelim ParenDelim then Return (Call func [] [], bump p)
         else
           bind_outcome
             (if token p = CloseDelim ParenDelim then Return (([], []), p)
              else parse_arguments_expr expr n has_newline [] [] p) (\<lambda>((args, keywords), p).
           let p = (if token p = Comma then bump p else p)
           in Return (Call func args keywords, expect_close ParenDelim '')'' p))))"

text \<open>
  The loop of \<open>parse_subscript_expr\<close> has at most five rounds; \<open>k\<close> counts down the rounds after the current one. The
  store to \<open>exprs\<close> checks the index.
\<close>

record 'o slice_state =
  is_slice :: bool
  colon_counter :: nat
  exprs :: "'o expr option list"
  expr_index :: nat
  exprs_consecutive :: int

definition slice_colon :: "'o slice_state \<Rightarrow> parser \<Rightarrow> 'o slice_state \<times> parser" where
  "slice_colon s p =
     (let p = bump p;
          s = s\<lparr>is_slice := True, colon_counter := Suc (colon_counter s), expr_index := Suc (expr_index s),
                exprs_consecutive := exprs_consecutive s - 1\<rparr>
      in (s, if 2 < colon_counter s then token_error [''expression'', '']''] p else p))"

fun subscript_rounds ::
    "(parser \<Rightarrow> 'o parse_res) \<Rightarrow> nat \<Rightarrow> 'o slice_state \<Rightarrow> parser \<Rightarrow> ('o slice_state \<times> parser) outcome" where
  "subscript_rounds expr 0 s p = Return (s, p)"
| "subscript_rounds expr (Suc k) s p =
     (if token p = Colon then (case slice_colon s p of (s, p) \<Rightarrow> subscript_rounds expr k s p)
      else if token p = CloseDelim BracketDelim then Return (s, p)
      else
        (let p = (if \<not> is_slice s \<and> k = 3 then span_error ''a list should have only one expr'' p else p)
         in bind_outcome (expr p) (\<lambda>(e, p).
            if length (exprs s) \<le> expr_index s then Panic
            else
              (let s = s\<lparr>exprs := (exprs s)[expr_index s := Some e], exprs_consecutive := exprs_consecutive s + 1\<rparr>;
                   p = (if 1 < exprs_consecutive s then span_error ''consecutive exprs found'' p else p)
               in subscript_rounds expr k s p))))"

definition parse_subscript_expr :: "(parser \<Rightarrow> 'o parse_res) \<Rightarrow> 'o expr \<Rightarrow> parser \<Rightarrow> 'o parse_res" where
  "parse_subscript_expr expr value p =
     (let has_question = (token p = Question);
          p = (if has_question then bump p else p);
          p = (if token p = OpenDelim BracketDelim then bump p else token_error [''[''] p);
          s = \<lparr>is_slice = False, colon_counter = 0, exprs = [None, None, None], expr_index = 0, exprs_consecutive = 0\<rparr>
      in bind_outcome (subscript_rounds expr 5 s p) (\<lambda>(s, p).
         let p = expect_close BracketDelim '']'' p; e0 = exprs s ! 0; e1 = exprs s ! 1; e2 = exprs s ! 2
         in if is_slice s then Return (Subscript value None e0 e1 e2 has_question, p)
            else
              (let p = (if e0 = None then span_error ''expected expression got'' p else p);
                   p = (if e1 \<noteq> None \<or> e2 \<noteq> None then span_error ''a list should have only one expr'' p else p)
               in Return (Subscript value e0 None None None has_question, p))))"

text \<open>The loop of \<open>parse_primary_expr\<close>.\<close>

fun parse_suffixes :: "(parser \<Rightarrow> 'o parse_res) \<Rightarrow> nat \<Rightarrow> 'o expr \<Rightarrow> parser \<Rightarrow> 'o parse_res" where
  "parse_suffixes expr 0 operand p = NoReturn"
| "parse_suffixes expr (Suc n) operand p =
     (case token p of
        Dot \<Rightarrow> bind_outcome (parse_selector_expr n operand p) (\<lambda>(e, p). parse_suffixes expr n e p)
      | Question \<Rightarrow>
          (case peek p of
             Some Dot \<Rightarrow> bind_outcome (parse_selector_expr n operand p) (\<lambda>(e, p). parse_suffixes expr n e p)
           | Some (OpenDelim BracketDelim) \<Rightarrow>
               bind_outcome (parse_subscript_expr expr operand p) (\<lambda>(e, p). parse_suffixes expr n e p)
           | _ \<Rightarrow> Return (operand, p))
      | OpenDelim ParenDelim \<Rightarrow> bind_outcome (parse_call expr n operand p) (\<lambda>(e, p). parse_suffixes expr n e p)
      | OpenDelim BracketDelim \<Rightarrow>
          bind_outcome (parse_subscript_expr expr operand p) (\<lambda>(e, p). parse_suffixes expr n e p)
      | _ \<Rightarrow> Return (operand, p))"

subsection \<open>Operands\<close>

record 'o subparsers =
  sp_lambda :: "parser \<Rightarrow> 'o \<times> parser"
  sp_quant :: "parser \<Rightarrow> 'o \<times> parser"
  sp_string :: "lit \<Rightarrow> parser \<Rightarrow> 'o \<times> parser"
  sp_list :: "parser \<Rightarrow> 'o \<times> parser"
  sp_config :: "parser \<Rightarrow> 'o \<times> parser"
  sp_schema :: "'o expr \<Rightarrow> parser \<Rightarrow> 'o \<times> parser"
  sp_bytes :: bytes_lib

definition operand_of :: "'o \<times> parser \<Rightarrow> 'o parse_res" where
  "operand_of r = Return (Operand (fst r), snd r)"

definition parse_paren_expr :: "(parser \<Rightarrow> 'o parse_res) \<Rightarrow> parser \<Rightarrow> 'o parse_res" where
  "parse_paren_expr expr p =
     bind_outcome (expr (bump p)) (\<lambda>(e, p). Return (Paren e, expect_close ParenDelim '')'' p))"

text \<open>An identifier may be followed by a schema config, or by a call, which again may be followed by a schema config.\<close>

definition parse_identifier_operand ::
    "'o subparsers \<Rightarrow> (parser \<Rightarrow> 'o parse_res) \<Rightarrow> nat \<Rightarrow> parser \<Rightarrow> 'o parse_res" where
  "parse_identifier_operand sp expr n p =
     bind_outcome (parse_identifier n p) (\<lambda>(names, p).
     if token p = OpenDelim BraceDelim then operand_of (sp_schema sp (Identifier names) p)
     else if token p = OpenDelim ParenDelim then
       bind_outcome (parse_call expr n (Identifier names) p) (\<lambda>(call, p).
       if token p = OpenDelim BraceDelim then operand_of (sp_schema sp call p) else Return (call, p))
     else Return (Identifier names, p))"

definition parse_operand_expr :: "'o subparsers \<Rightarrow> (parser \<Rightarrow> 'o parse_res) \<Rightarrow> nat \<Rightarrow> parser \<Rightarrow> 'o parse_res" where
  "parse_operand_expr sp expr n p =
     (case token p of
        Ident name \<Rightarrow>
          if name = ''None'' then Return (parse_constant_expr LitNone p)
          else if name = ''Undefined'' then Return (parse_constant_expr LitUndefined p)
          else if name = ''True'' \<or> name = ''False'' then Return (parse_constant_expr LitBool p)
          else if name = ''lambda'' then operand_of (sp_lambda sp p)
          else if name = ''any'' \<or> name = ''all'' \<or> name = ''map'' \<or> name = ''filter'' then operand_of (sp_quant sp p)
          else parse_identifier_operand sp expr n p
      | Literal lk \<Rightarrow>
          (case lit_kind lk of
             LitBool \<Rightarrow> Return (parse_constant_expr LitBool p)
           | LitNone \<Rightarrow> Return (parse_constant_expr LitNone p)
           | LitUndefined \<Rightarrow> Return (parse_constant_expr LitUndefined p)
           | LitInteger \<Rightarrow> Return (parse_num_expr (sp_bytes sp) lk p)
           | LitFloat \<Rightarrow> Return (parse_num_expr (sp_bytes sp) lk p)
           | LitStr _ _ \<Rightarrow> operand_of (sp_string sp lk p)
           | LitErr \<Rightarrow> Return (Missing, token_error [''None'', ''Undefined'', ''bool'', ''int'', ''str''] p))
      | OpenDelim dt \<Rightarrow>
          (case dt of
             ParenDelim \<Rightarrow> parse_paren_expr expr p
           | BracketDelim \<Rightarrow> operand_of (sp_list sp p)
           | BraceDelim \<Rightarrow> operand_of (sp_config sp p)
           | NoDelim \<Rightarrow> Return (Missing, token_error [''('', ''['', ''{''] p))
      | _ \<Rightarrow> Return (Missing, token_error [''identifier'', ''literal'', ''('', ''['', ''{''] p))"

fun parse_primary_expr :: "'o subparsers \<Rightarrow> nat \<Rightarrow> parser \<Rightarrow> 'o parse_res" where
  "parse_primary_expr sp 0 p = NoReturn"
| "parse_primary_expr sp (Suc n) p =
     bind_outcome (parse_operand_expr sp (\<lambda>p. parse_expr (parse_primary_expr sp n) n p) n p) (\<lambda>(operand, p).
     parse_suffixes (\<lambda>p. parse_expr (parse_primary_expr sp n) n p) n operand p)"

text \<open>The entrance: an expression with the parser of primary expressions put in.\<close>

definition expression :: "'o subparsers \<Rightarrow> nat \<Rightarrow> parser \<Rightarrow> 'o parse_res" where
  "expression sp n p = parse_expr (parse_primary_expr sp n) n p"

end
