(* ===== verification/ParserPrint.thy ===== *)
theory ParserPrint
  imports ParserExpr
begin

text \<open>
  The round trip of the expression parser: the tokens of an expression, the expressions that need no
  further parentheses, and the proof that the parser reads the tokens back. The proof follows the loop
  of \<open>do_parse_simple_expr\<close>: the state it reaches when it has read an expression (\<open>parse_operators\<close>), the
  operands (\<open>primary_printed\<close>), conditional expressions (\<open>parse_expr_printed\<close>).
\<close>

section \<open>Printing\<close>

text \<open>The tokens of an expression, and the expressions that are printed without further parentheses.\<close>

fun bin_op_tokens :: "bin_op \<Rightarrow> token list" where
  "bin_op_tokens BinOp_Add = [BinOpTok Plus]"
| "bin_op_tokens BinOp_Sub = [BinOpTok Minus]"
| "bin_op_tokens BinOp_Mul = [BinOpTok Star]"
| "bin_op_tokens BinOp_Div = [BinOpTok Slash]"
| "bin_op_tokens BinOp_Mod = [BinOpTok Percent]"
| "bin_op_tokens BinOp_Pow = [BinOpTok StarStar]"
| "bin_op_tokens BinOp_FloorDiv = [BinOpTok SlashSlash]"
| "bin_op_tokens BinOp_LShift = [BinOpTok Shl]"
| "bin_op_tokens BinOp_RShift = [BinOpTok Shr]"
| "bin_op_tokens BinOp_BitXor = [BinOpTok Caret]"
| "bin_op_tokens BinOp_BitAnd = [BinOpTok AndTok]"
| "bin_op_tokens BinOp_BitOr = [BinOpTok OrTok]"
| "bin_op_tokens BinOp_And = [Ident ''and'']"
| "bin_op_tokens BinOp_Or = [Ident ''or'']"
| "bin_op_tokens BinOp_As = [Ident ''as'']"

fun cmp_op_tokens :: "cmp_op \<Rightarrow> token list" where
  "cmp_op_tokens CmpOp_Eq = [BinCmpTok EqTok]"
| "cmp_op_tokens CmpOp_NotEq = [BinCmpTok NotEqTok]"
| "cmp_op_tokens CmpOp_Lt = [BinCmpTok LtTok]"
| "cmp_op_tokens CmpOp_LtE = [BinCmpTok LtEqTok]"
| "cmp_op_tokens CmpOp_Gt = [BinCmpTok GtTok]"
| "cmp_op_tokens CmpOp_GtE = [BinCmpTok GtEqTok]"
| "cmp_op_tokens CmpOp_Is = [Ident ''is'']"
| "cmp_op_tokens CmpOp_In = [Ident ''in'']"
| "cmp_op_tokens CmpOp_NotIn = [Ident ''not'', Ident ''in'']"
| "cmp_op_tokens CmpOp_Not = [Ident ''not'']"
| "cmp_op_tokens CmpOp_IsNot = [Ident ''is'', Ident ''not'']"

fun op_tokens :: "bin_or_cmp_op \<Rightarrow> token list" where
  "op_tokens (Bin b) = bin_op_tokens b"
| "op_tokens (Cmp c) = cmp_op_tokens c"

fun op_prec :: "bin_or_cmp_op \<Rightarrow> precedence" where
  "op_prec (Bin BinOp_As) = PrecAs"
| "op_prec (Bin BinOp_Or) = PrecLogicOr"
| "op_prec (Bin BinOp_And) = PrecLogicAnd"
| "op_prec (Bin BinOp_BitOr) = PrecBitOr"
| "op_prec (Bin BinOp_BitXor) = PrecBitXor"
| "op_prec (Bin BinOp_BitAnd) = PrecBitAnd"
| "op_prec (Bin BinOp_LShift) = PrecShift"
| "op_prec (Bin BinOp_RShift) = PrecShift"
| "op_prec (Bin BinOp_Add) = PrecSum"
| "op_prec (Bin BinOp_Sub) = PrecSum"
| "op_prec (Bin BinOp_Pow) = PrecPower"
| "op_prec (Bin _) = PrecProduct"
| "op_prec (Cmp CmpOp_Eq) = PrecEquals"
| "op_prec (Cmp CmpOp_NotEq) = PrecEquals"
| "op_prec (Cmp CmpOp_In) = PrecInOrNotIn"
| "op_prec (Cmp CmpOp_NotIn) = PrecInOrNotIn"
| "op_prec (Cmp CmpOp_Is) = PrecIsOrIsNot"
| "op_prec (Cmp CmpOp_IsNot) = PrecIsOrIsNot"
| "op_prec (Cmp CmpOp_Not) = PrecLowest"
| "op_prec (Cmp _) = PrecLessGreater"

definition op_rank :: "bin_or_cmp_op \<Rightarrow> nat" where
  "op_rank op = prec_rank (op_prec op)"

fun unary_op_tokens :: "unary_op \<Rightarrow> token" where
  "unary_op_tokens UnaryOp_UAdd = BinOpTok Plus"
| "unary_op_tokens UnaryOp_USub = BinOpTok Minus"
| "unary_op_tokens UnaryOp_Invert = UnaryOpTok UTilde"
| "unary_op_tokens UnaryOp_Not = Ident ''not''"

fun constant_token :: "name_constant \<Rightarrow> token" where
  "constant_token ConstTrue = Ident ''True''"
| "constant_token ConstFalse = Ident ''False''"
| "constant_token ConstNone = Ident ''None''"
| "constant_token ConstUndefined = Ident ''Undefined''"

fun name_tokens :: "string list \<Rightarrow> token list" where
  "name_tokens [] = []"
| "name_tokens [n] = [Ident n]"
| "name_tokens (n # ns) = Ident n # Dot # name_tokens ns"

text \<open>Tokens separated by commas.\<close>

fun comma_separated :: "token list list \<Rightarrow> token list" where
  "comma_separated [] = []"
| "comma_separated [ts] = ts"
| "comma_separated (ts # tss) = ts @ Comma # comma_separated tss"

definition question_tokens :: "bool \<Rightarrow> token list" where
  "question_tokens q = (if q then [Question] else [])"

fun unparse :: "'o expr \<Rightarrow> token list" where
  "unparse (Identifier names) = name_tokens names"
| "unparse (NumberLit (IntLit v) sx) = [Literal (Lit LitInteger (nat_to_string (unat v)) sx None)]"
| "unparse (NameConstantLit c) = [constant_token c]"
| "unparse (Paren e) = OpenDelim ParenDelim # unparse e @ [CloseDelim ParenDelim]"
| "unparse (Selector v attr q) = unparse v @ question_tokens q @ Dot # name_tokens attr"
| "unparse (Call f args kws) =
     unparse f @ OpenDelim ParenDelim #
       comma_separated (map unparse args @ map (\<lambda>kw. name_tokens (fst kw) @ Assign # unparse (snd kw)) kws) @
       [CloseDelim ParenDelim]"
| "unparse (Subscript v index lower upper step q) =
     unparse v @ question_tokens q @ OpenDelim BracketDelim #
       (case index of
          Some e \<Rightarrow> unparse e
        | None \<Rightarrow>
            (case lower of Some e \<Rightarrow> unparse e | None \<Rightarrow> []) @ Colon #
            (case upper of Some e \<Rightarrow> unparse e | None \<Rightarrow> []) @ Colon #
            (case step of Some e \<Rightarrow> unparse e | None \<Rightarrow> [])) @
       [CloseDelim BracketDelim]"
| "unparse (Unary op e) = unary_op_tokens op # unparse e"
| "unparse (Binary l op r) = unparse l @ bin_op_tokens op @ unparse r"
| "unparse (Compare l ops ys) = unparse l @ concat (map2 (\<lambda>c ts. cmp_op_tokens c @ ts) ops (map unparse ys))"
| "unparse (If b c e) = unparse b @ Ident ''if'' # unparse c @ Ident ''else'' # unparse e"
| "unparse _ = []"

definition reserved :: "string list" where
  "reserved =
     [''None'', ''Undefined'', ''True'', ''False'', ''lambda'', ''any'', ''all'', ''map'', ''filter'', ''not'', ''for'']"

definition is_name :: "string list \<Rightarrow> bool" where
  "is_name names = (names \<noteq> [] \<and> hd names \<notin> set reserved)"

fun is_compare :: "'o expr \<Rightarrow> bool" where
  "is_compare (Compare _ _ _) = True"
| "is_compare _ = False"

text \<open>The operands that take a dot and a name that follow them.\<close>

fun takes_dot :: "'o expr \<Rightarrow> bool" where
  "takes_dot (Identifier _) = True"
| "takes_dot (Selector _ _ _) = True"
| "takes_dot _ = False"

text \<open>
  \<open>wf_min k e\<close>: every operator at the top of \<open>e\<close> has rank \<open>k\<close> at least. The left operand of an operator
  may have operators of the same rank at its top, the right operand only higher ones. The operators of a
  chained comparison do not rise.
\<close>

fun wf_min :: "nat \<Rightarrow> 'o expr \<Rightarrow> bool"
  and is_primary :: "'o expr \<Rightarrow> bool"
  and wf_expr :: "'o expr \<Rightarrow> bool" where
  "wf_min k (Binary l op r) =
     (k \<le> op_rank (Bin op) \<and> wf_min (op_rank (Bin op)) l \<and> wf_min (Suc (op_rank (Bin op))) r)"
| "wf_min k (Compare l ops ys) =
     (ops \<noteq> [] \<and> CmpOp_Not \<notin> set ops \<and> \<not> is_compare l \<and> k \<le> op_rank (Cmp (last ops)) \<and>
      sorted_wrt (\<ge>) (map (\<lambda>c. op_rank (Cmp c)) ops) \<and> wf_min (op_rank (Cmp (hd ops))) l \<and>
      list_all2 (\<lambda>y c. wf_min (Suc (op_rank (Cmp c))) y \<and> (c = CmpOp_Is \<longrightarrow> hd (unparse y) \<noteq> Ident ''not'')) ys ops)"
| "wf_min k (Unary op e) = is_primary e"
| "wf_min k (If b c e) = False"
| "wf_min k e = is_primary e"
| "is_primary (Identifier names) = is_name names"
| "is_primary (NumberLit v sx) =
     (pred_option (\<lambda>s. s \<in> set binary_suffixes) sx \<and> (case v of IntLit i \<Rightarrow> 0 \<le> sint i | FloatLit _ \<Rightarrow> False))"
| "is_primary (NameConstantLit _) = True"
| "is_primary (Paren e) = wf_expr e"
| "is_primary (Selector v attr q) = (is_primary v \<and> attr \<noteq> [] \<and> (q \<or> \<not> takes_dot v))"
| "is_primary (Call f args kws) =
     (is_primary f \<and> list_all wf_expr args \<and> list_all (\<lambda>kw. is_name (fst kw) \<and> wf_expr (snd kw)) kws)"
| "is_primary (Subscript v index lower upper step q) =
     (is_primary v \<and> pred_option wf_expr index \<and> pred_option wf_expr lower \<and> pred_option wf_expr upper \<and>
      pred_option wf_expr step \<and> (index \<noteq> None \<longrightarrow> lower = None \<and> upper = None \<and> step = None))"
| "is_primary _ = False"
| "wf_expr (If b c e) = (wf_min 1 b \<and> wf_min 1 c \<and> wf_expr e)"
| "wf_expr e = wf_min 1 e"

section \<open>Reading back what is printed\<close>

definition cursor :: "token list \<Rightarrow> parse_error list \<Rightarrow> parser" where
  "cursor ts es = \<lparr>token = hd ts, stream = tl ts, errors = es\<rparr>"

lemma cursor_simps [simp]:
  "ts \<noteq> [] \<Longrightarrow> bump (cursor (t # ts) es) = cursor ts es"
  "token (cursor ts es) = hd ts"
  "peek (cursor ts es) = (case tl ts of [] \<Rightarrow> None | t # _ \<Rightarrow> Some t)"
  by (cases ts; simp add: cursor_def bump_def peek_def)+

text \<open>What may follow an operand of rank \<open>k\<close>: an operator of rank \<open>k\<close> at most, and no suffix of an operand.\<close>

definition next_rank :: "token list \<Rightarrow> nat" where
  "next_rank ts = prec_rank (fst (next_prec (cursor ts [])))"

fun is_suffix :: "token \<Rightarrow> bool" where
  "is_suffix Dot = True"
| "is_suffix Question = True"
| "is_suffix (OpenDelim _) = True"
| "is_suffix _ = False"

definition follows :: "nat \<Rightarrow> token list \<Rightarrow> bool" where
  "follows k ts = (ts \<noteq> [] \<and> next_rank ts \<le> k \<and> \<not> is_suffix (hd ts))"

lemma next_prec_cursor_Cons:
  "next_prec (cursor (t # u # us) es) =
     (if t = Ident ''is'' \<and> u = Ident ''not'' then (PrecIsOrIsNot, True)
      else if t = Ident ''not'' \<and> u = Ident ''in'' then (PrecInOrNotIn, True)
      else (precedence_from t, False))"
  by (simp add: next_prec_def Let_def is_keyword_def)

lemma next_prec_cursor: "ts \<noteq> [] \<Longrightarrow> prec_rank (fst (next_prec (cursor ts es))) = next_rank ts"
  by (cases ts rule: remdups_adj.cases) (simp_all add: next_rank_def next_prec_cursor_Cons next_prec_def)

definition separable :: "bin_or_cmp_op \<Rightarrow> token list \<Rightarrow> bool" where
  "separable op ts = (op \<noteq> Cmp CmpOp_Not \<and> ts \<noteq> [] \<and> (op = Cmp CmpOp_Is \<longrightarrow> hd ts \<noteq> Ident ''not''))"

definition two_tokens :: "bin_or_cmp_op \<Rightarrow> bool" where
  "two_tokens op = (op = Cmp CmpOp_NotIn \<or> op = Cmp CmpOp_IsNot)"

lemma next_op_printed:
  assumes "separable op ts"
  shows "next_prec (cursor (op_tokens op @ ts) es) = (op_prec op, two_tokens op) \<and>
    next_op (two_tokens op) (cursor (op_tokens op @ ts) es) = Some op \<and>
    (if two_tokens op then bump (bump (cursor (op_tokens op @ ts) es)) else bump (cursor (op_tokens op @ ts) es)) =
      cursor ts es \<and> \<not> is_suffix (hd (op_tokens op @ ts)) \<and> op_tokens op \<noteq> []"
proof -
  obtain t us where ts: "ts = t # us" using assms by (cases ts) (auto simp: separable_def)
  note defs = next_prec_cursor_Cons two_tokens_def next_op_def precedence_from_def is_keyword_def
    bin_or_cmp_op_try_from_def separable_def
  show ?thesis
  proof (cases op)
    case (Bin b)
    then show ?thesis unfolding ts by (cases b) (simp_all add: defs)
  next
    case (Cmp c)
    with assms show ?thesis unfolding ts by (cases c) (simp_all add: defs)
  qed
qed

lemma follows_op: "separable op ts \<Longrightarrow> op_rank op \<le> k \<Longrightarrow> follows k (op_tokens op @ ts)"
  using next_op_printed [of op ts "[]"] by (auto simp: follows_def next_rank_def op_rank_def)

text \<open>One round of the loop over operators, on a printed operator.\<close>

lemma parse_ops_step:
  assumes "separable op ts" "prec_rank prec1 < op_rank op"
    and "do_parse_simple_expr primary n (op_prec op) (cursor ts es) = Return (y, q)"
  shows "parse_ops primary (Suc n) prec1 x left ops comparators (cursor (op_tokens op @ ts) es) =
    (case op of
       Cmp c \<Rightarrow> parse_ops primary n prec1 x (if ops = [] then x else left) (ops @ [c]) (comparators @ [y]) q
     | Bin b \<Rightarrow> parse_ops primary n prec1 (Binary (close_compare x left ops comparators) b y) left [] [] q)"
  using next_op_printed [OF assms(1), of es] assms(2,3)
  by (simp add: less_eq_precedence_def op_rank_def split: bin_or_cmp_op.splits)

lemma parse_ops_stop:
  assumes "follows (prec_rank prec1) ts"
  shows "parse_ops primary (Suc n) prec1 x left ops comparators (cursor ts es) =
    Return (close_compare x left ops comparators, cursor ts es)"
  using assms next_prec_cursor [of ts es]
  by (auto simp: follows_def less_eq_precedence_def split: prod.splits)

text \<open>The state of the loop when it has read an expression: the operand, the first operand of a comparison, its parts.\<close>

fun loop_left :: "'o expr \<Rightarrow> 'o expr" where
  "loop_left (Binary l op r) = loop_left l"
| "loop_left (Compare l ops ys) = l"
| "loop_left e = e"

fun loop_item :: "'o expr \<Rightarrow> 'o expr" where
  "loop_item (Compare l ops ys) = l"
| "loop_item e = e"

fun loop_ops :: "'o expr \<Rightarrow> cmp_op list" where
  "loop_ops (Compare l ops ys) = ops"
| "loop_ops e = []"

fun loop_comparators :: "'o expr \<Rightarrow> 'o expr list" where
  "loop_comparators (Compare l ops ys) = ys"
| "loop_comparators e = []"

text \<open>The rounds the loop takes for an expression.\<close>

fun rounds :: "'o expr \<Rightarrow> nat" where
  "rounds (Binary l op r) = Suc (rounds l)"
| "rounds (Compare l ops ys) = rounds l + length ops"
| "rounds e = 0"

lemma close_loop: "wf_min k e \<Longrightarrow> close_compare (loop_item e) (loop_left e) (loop_ops e) (loop_comparators e) = e"
  by (cases e) (simp_all add: close_compare_def)

lemma loop_not_compare: "\<not> is_compare e \<Longrightarrow> loop_item e = e \<and> loop_ops e = [] \<and> loop_comparators e = []"
  by (cases e) simp_all

lemma wf_min_mono: "wf_min k e \<Longrightarrow> j \<le> k \<Longrightarrow> wf_min j e"
  by (cases e) auto

definition parses :: "(parser \<Rightarrow> 'o parse_res) \<Rightarrow> 'o expr \<Rightarrow> bool" where
  "parses primary e = (\<forall>rest es. follows 15 rest \<longrightarrow> primary (cursor (unparse e @ rest) es) = Return (e, cursor rest es))"


lemma follows_15: "follows k ts \<Longrightarrow> follows 15 ts"
proof -
  have "prec_rank q \<le> 15" for q by (cases q) simp_all
  then show "follows k ts \<Longrightarrow> follows 15 ts" by (simp add: follows_def next_rank_def)
qed

lemma follows_mono: "follows k ts \<Longrightarrow> k \<le> j \<Longrightarrow> follows j ts"
  by (simp add: follows_def)

lemma name_tokens_hd: "names \<noteq> [] \<Longrightarrow> \<exists>ts. name_tokens names = Ident (hd names) # ts"
  by (cases names rule: name_tokens.cases) simp_all

text \<open>The first token of a printed expression.\<close>

fun starts :: "token \<Rightarrow> bool" where
  "starts (Ident n) = (n \<noteq> ''for'')"
| "starts (Literal _) = True"
| "starts (OpenDelim d) = (d = ParenDelim)"
| "starts (BinOpTok b) = (b = Plus \<or> b = Minus)"
| "starts (UnaryOpTok _) = True"
| "starts _ = False"

lemma primary_cases:
  assumes "is_primary e"
  obtains (Name) n names where "e = Identifier (n # names)" "n \<notin> set reserved"
  | (Number) v sx where "e = NumberLit (IntLit v) sx"
  | (Constant) c where "e = NameConstantLit c"
  | (Paren) x where "e = Paren x" "wf_expr x"
  | (Selector) v attr q where "e = Selector v attr q" "is_primary v" "attr \<noteq> []" "q \<or> \<not> takes_dot v"
  | (Call) f args kws where "e = Call f args kws" "is_primary f" "\<forall>x\<in>set args. wf_expr x"
      "\<forall>kw\<in>set kws. is_name (fst kw) \<and> wf_expr (snd kw)"
  | (Index) v x q where "e = Subscript v (Some x) None None None q" "is_primary v" "wf_expr x"
  | (Slice) v lo up st q where "e = Subscript v None lo up st q" "is_primary v"
      "pred_option wf_expr lo" "pred_option wf_expr up" "pred_option wf_expr st"
proof (cases e)
  case (Identifier names)
  with assms Name show ?thesis by (cases names) (auto simp: is_name_def)
next
  case (NumberLit l sx)
  with assms Number show ?thesis by (cases l) auto
next
  case (Subscript v i lo up st q)
  with assms Index Slice show ?thesis by (cases i) auto
qed (use assms Constant Paren Selector Call in \<open>auto simp: list_all_iff\<close>)

lemma primary_head:
  "is_primary e \<Longrightarrow> unparse e \<noteq> [] \<and> unary_op_try_from (hd (unparse e)) = None \<and> starts (hd (unparse e))"
proof (induction e)
  case (Identifier names)
  then show ?case using name_tokens_hd [of names]
    by (auto simp: is_name_def unary_op_try_from_def is_keyword_def reserved_def)
next
  case (NumberLit v sx)
  then show ?case by (cases v) (simp_all add: unary_op_try_from_def is_keyword_def)
next
  case (NameConstantLit c)
  then show ?case by (cases c) (simp_all add: unary_op_try_from_def is_keyword_def)
qed (auto simp: unary_op_try_from_def is_keyword_def)

lemma wf_min_cases:
  assumes "wf_min k e"
  obtains (Primary) "is_primary e" | (Unary) op x where "e = Unary op x" "is_primary x"
  | (Binary) l op r where "e = Binary l op r" "k \<le> op_rank (Bin op)" "wf_min (op_rank (Bin op)) l"
      "wf_min (Suc (op_rank (Bin op))) r"
  | (Compare) l ops ys where "e = Compare l ops ys" "ops \<noteq> []" "CmpOp_Not \<notin> set ops" "\<not> is_compare l"
      "k \<le> op_rank (Cmp (last ops))" "sorted_wrt (\<ge>) (map (\<lambda>c. op_rank (Cmp c)) ops)"
      "wf_min (op_rank (Cmp (hd ops))) l"
      "list_all2 (\<lambda>y c. wf_min (Suc (op_rank (Cmp c))) y \<and> (c = CmpOp_Is \<longrightarrow> hd (unparse y) \<noteq> Ident ''not'')) ys ops"
  using assms by (cases e) auto

lemma op_tokens_length: "Suc 0 \<le> length (op_tokens op)"
  by (cases op rule: op_tokens.cases; cases op rule: op_prec.cases) simp_all

abbreviation comparison_tokens :: "cmp_op list \<Rightarrow> 'o expr list \<Rightarrow> token list" where
  "comparison_tokens ops ys \<equiv> concat (map2 (\<lambda>c ts. cmp_op_tokens c @ ts) ops (map unparse ys))"

lemma printed_head: "wf_min k e \<Longrightarrow> rounds e < length (unparse e) \<and> starts (hd (unparse e))"
proof (induction e arbitrary: k)
  case (Binary l op r)
  then have "rounds l < length (unparse l) \<and> starts (hd (unparse l))" by auto
  moreover have "Suc 0 \<le> length (bin_op_tokens op)" using op_tokens_length [of "Bin op"] by simp
  ultimately show ?case by (auto simp: hd_append)
next
  case (Compare l ops ys)
  then have "rounds l < length (unparse l) \<and> starts (hd (unparse l))" by auto
  moreover have "length ops = length ys \<Longrightarrow> length ops \<le> length (comparison_tokens ops ys)"
  proof (induction ops ys rule: list_induct2)
    case (Cons c ops y ys)
    then show ?case using op_tokens_length [of "Cmp c"] by simp
  qed simp
  ultimately show ?case using Compare.prems by (auto simp: hd_append dest: list_all2_lengthD)
next
  case (Unary op x)
  then show ?case by (cases op) simp_all
qed (use primary_head in \<open>fastforce simp del: unparse.simps is_primary.simps\<close>)+

lemma wf_expr_cases:
  assumes "wf_expr e"
  obtains (If) b c x where "e = If b c x" "wf_min 1 b" "wf_min 1 c" "wf_expr x" | (Simple) "wf_min 1 e"
  using assms by (cases e) auto

lemma expr_head:
  assumes "wf_expr e"
  shows "unparse e \<noteq> [] \<and> starts (hd (unparse e))"
  using assms
proof (cases rule: wf_expr_cases)
  case (If b c x)
  then show ?thesis using printed_head [of 1 b] by (auto simp: hd_append)
next
  case Simple
  then show ?thesis using printed_head [of 1 e] by auto
qed

lemma starts_recovery: "starts t \<Longrightarrow> \<not> is_in_recovery_set t"
  by (cases t) (simp_all add: is_in_recovery_set_def)

text \<open>Complete parse of an operand, from the state the loop reaches.\<close>

lemma parse_complete:
  assumes "do_parse_simple_expr primary n q (cursor (unparse e @ rest) es) =
      parse_ops primary (n - Suc (rounds e)) q (loop_item e) (loop_left e) (loop_ops e) (loop_comparators e) (cursor rest es)"
    and "wf_min k e" "follows (prec_rank q) rest" "2 * length (unparse e) \<le> n"
  shows "do_parse_simple_expr primary n q (cursor (unparse e @ rest) es) = Return (e, cursor rest es)"
proof -
  have "Suc (rounds e) < n" using printed_head [OF assms(2)] assms(4) by linarith
  then obtain m where "n - Suc (rounds e) = Suc m" by (metis Suc_diff_Suc)
  with assms(1) show ?thesis
    using parse_ops_stop [OF assms(3), of primary m "loop_item e" "loop_left e" "loop_ops e" "loop_comparators e" es]
      close_loop [OF assms(2)] by simp
qed

lemma parse_comparisons:
  assumes "list_all2 (\<lambda>y c. (\<forall>m rest es. 2 * length (unparse y) \<le> m \<and> follows (op_rank (Cmp c)) rest \<longrightarrow>
        do_parse_simple_expr primary m (op_prec (Cmp c)) (cursor (unparse y @ rest) es) = Return (y, cursor rest es)) \<and>
      separable (Cmp c) (unparse y)) ys ops"
    and "sorted_wrt (\<ge>) (map (\<lambda>c. op_rank (Cmp c)) ops)" "\<forall>c\<in>set ops. prec_rank prec1 < op_rank (Cmp c)"
    and "ops \<noteq> [] \<Longrightarrow> follows (op_rank (Cmp (last ops))) rest" "2 * length (comparison_tokens ops ys) \<le> n"
  shows "parse_ops primary n prec1 x left cs zs (cursor (comparison_tokens ops ys @ rest) es) =
    parse_ops primary (n - length ops) prec1 x (if cs = [] \<and> ops \<noteq> [] then x else left) (cs @ ops) (zs @ ys) (cursor rest es)"
  using assms
proof (induction ys ops arbitrary: n left cs zs rule: list_all2_induct)
  case (Cons y ys c ops)
  let ?rest = "comparison_tokens ops ys @ rest"
  from Cons.prems(4) obtain m where n: "n = Suc m" "2 * length (unparse y) + 2 * length (comparison_tokens ops ys) \<le> m"
    using op_tokens_length [of "Cmp c"] by (cases n) auto
  have sep: "separable (Cmp c) (unparse y @ ?rest)" using Cons.hyps(1) by (auto simp: separable_def)
  have fol: "follows (op_rank (Cmp c)) ?rest"
  proof (cases ops)
    case Nil
    with Cons.prems(3) Cons.hyps(2) show ?thesis by simp
  next
    case (Cons c' ops')
    with Cons.hyps(2) obtain y' ys' where ys: "ys = y' # ys'" "separable (Cmp c') (unparse y')"
      by (auto simp: list_all2_Cons2)
    then have "separable (Cmp c') (unparse y' @ comparison_tokens ops' ys' @ rest)" by (auto simp: separable_def)
    with follows_op [OF this, of "op_rank (Cmp c)"] Cons Cons.prems(1) ys show ?thesis by simp
  qed
  have y: "do_parse_simple_expr primary m (op_prec (Cmp c)) (cursor (unparse y @ ?rest) es) = Return (y, cursor ?rest es)"
    using Cons.hyps(1) fol n(2) by auto
  have "parse_ops primary n prec1 x left cs zs (cursor (comparison_tokens (c # ops) (y # ys) @ rest) es) =
      parse_ops primary m prec1 x (if cs = [] then x else left) (cs @ [c]) (zs @ [y]) (cursor ?rest es)"
    using parse_ops_step [OF sep _ y, of prec1 x left cs zs] Cons.prems(2) n(1) by simp
  also have "\<dots> = parse_ops primary (m - length ops) prec1 x (if cs = [] then x else left) ((cs @ [c]) @ ops) ((zs @ [y]) @ ys)
      (cursor rest es)"
    using Cons.IH [of m "if cs = [] then x else left" "cs @ [c]" "zs @ [y]"] Cons.prems n(2) by (cases "ops = []") auto
  finally show ?case using n(1) by simp
qed simp


lemma parse_unary_printed:
  assumes "parses primary e" "is_primary e" "follows k rest"
  shows "parse_unary_expr primary (cursor (unparse e @ rest) es) = Return (e, cursor rest es)"
    and "parse_unary_expr primary (cursor (unparse (Unary op e) @ rest) es) = Return (Unary op e, cursor rest es)"
proof -
  have p: "primary (cursor (unparse e @ rest) es) = Return (e, cursor rest es)"
    using assms(1) follows_15 [OF assms(3)] by (simp add: parses_def)
  show "parse_unary_expr primary (cursor (unparse e @ rest) es) = Return (e, cursor rest es)"
    using p primary_head [OF assms(2)] by (simp add: parse_unary_expr_def)
  show "parse_unary_expr primary (cursor (unparse (Unary op e) @ rest) es) = Return (Unary op e, cursor rest es)"
    using p primary_head [OF assms(2)]
    by (cases op) (simp_all add: parse_unary_expr_def unary_op_try_from_def is_keyword_def)
qed

lemma do_parse_operand:
  assumes "parse_unary_expr primary (cursor (unparse e @ rest) es) = Return (e, cursor rest es)" "0 < n"
    "\<not> is_compare e" "\<nexists>l op r. e = Binary l op r"
  shows "do_parse_simple_expr primary n q (cursor (unparse e @ rest) es) =
    parse_ops primary (n - Suc (rounds e)) q (loop_item e) (loop_left e) (loop_ops e) (loop_comparators e) (cursor rest es)"
  using assms by (cases n; cases e) simp_all

lemma sorted_wrt_map_last: "sorted_wrt (\<ge>) (map f xs) \<Longrightarrow> x \<in> set xs \<Longrightarrow> f (last xs) \<le> (f x :: nat)"
  by (induction xs) (auto simp: sorted_wrt_append)

lemma comparison_operand_length:
  "length ys = length ops \<Longrightarrow> y \<in> set ys \<Longrightarrow> length (unparse y) \<le> length (comparison_tokens ops ys)"
  by (induction ys ops rule: list_induct2) auto

lemma parse_operators:
  assumes primary: "\<And>e. is_primary e \<Longrightarrow> length (unparse e) \<le> L \<Longrightarrow> parses primary e"
  shows "wf_min k e \<Longrightarrow> length (unparse e) \<le> L \<Longrightarrow> prec_rank q < k \<Longrightarrow> follows k rest \<Longrightarrow> 2 * length (unparse e) \<le> n \<Longrightarrow>
    do_parse_simple_expr primary n q (cursor (unparse e @ rest) es) =
    parse_ops primary (n - Suc (rounds e)) q (loop_item e) (loop_left e) (loop_ops e) (loop_comparators e) (cursor rest es)"
proof (induction "size e" arbitrary: e k q rest n es rule: less_induct)
  case less
  have complete: "do_parse_simple_expr primary m (op_prec op) (cursor (unparse y @ rest) es) = Return (y, cursor rest es)"
    if "size y < size e" "wf_min (Suc (op_rank op)) y" "length (unparse y) \<le> L" "follows (op_rank op) rest"
      "2 * length (unparse y) \<le> m" for y op rest m es
    using parse_complete [OF less.hyps [OF that(1-3)] that(2)] that(4,5) follows_mono [OF that(4)]
    by (simp add: op_rank_def)
  have nonempty: "wf_min j y \<Longrightarrow> unparse y \<noteq> []" for j and y :: "'a expr" using printed_head [of j y] by auto
  from less.prems(1) show ?case
  proof (cases rule: wf_min_cases)
    case Primary
    then have "unparse e \<noteq> []" using primary_head by blast
    with less.prems(5) have n: "0 < n" by (cases "unparse e") simp_all
    have "\<not> is_compare e" "\<nexists>l op r. e = Binary l op r" using Primary by (cases e; simp)+
    with do_parse_operand [OF parse_unary_printed(1) [OF primary [OF Primary less.prems(2)] Primary less.prems(4)] n]
    show ?thesis by simp
  next
    case (Unary op x)
    have "parses primary x" using Unary less.prems(2) primary by simp
    from parse_unary_printed(2) [OF this Unary(2) less.prems(4)] do_parse_operand [of primary e rest es n] less.prems(5) Unary(1)
    show ?thesis by simp
  next
    case (Binary l op r)
    let ?rest = "op_tokens (Bin op) @ unparse r @ rest"
    have sep: "separable (Bin op) (unparse r @ rest)" using nonempty [OF Binary(4)] by (simp add: separable_def)
    have q: "prec_rank q < op_rank (Bin op)" using less.prems(3) Binary(2) by simp
    have "follows (op_rank (Bin op)) rest" using less.prems(4) Binary(2) by (rule follows_mono)
    note r = complete [OF _ Binary(4) _ this]
    have len: "length (unparse l) + Suc (length (unparse r)) \<le> length (unparse e)"
      using op_tokens_length [of "Bin op"] Binary(1) by simp
    moreover have "rounds l < length (unparse l)" using printed_head [OF Binary(3)] ..
    ultimately obtain m where m: "n - Suc (rounds l) = Suc m" "2 * length (unparse r) \<le> m"
      using less.prems(5) by (cases "n - Suc (rounds l)") auto
    have "do_parse_simple_expr primary n q (cursor (unparse l @ ?rest) es) =
      parse_ops primary (Suc m) q (loop_item l) (loop_left l) (loop_ops l) (loop_comparators l) (cursor ?rest es)"
      using less.hyps [of l "op_rank (Bin op)" q ?rest n es] Binary less.prems(2,5) q len follows_op [OF sep] m(1) by simp
    also have "\<dots> = parse_ops primary m q (Binary l op r) (loop_left l) [] [] (cursor rest es)"
      using parse_ops_step [OF sep q r] close_loop [OF Binary(3)] Binary(1) len less.prems(2) m(2) by simp
    also have "m = n - Suc (Suc (rounds l))" using m(1) by simp
    finally show ?thesis using Binary(1) by simp
  next
    case (Compare l ops ys)
    obtain c ops' y ys' where ops: "ops = c # ops'" "ys = y # ys'" using Compare(2,8) by (cases ops) (auto simp: list_all2_Cons2)
    let ?rest = "comparison_tokens ops ys @ rest"
    have ranks: "op_rank (Cmp (last ops)) \<le> op_rank (Cmp d)" if "d \<in> set ops" for d
      using sorted_wrt_map_last [OF Compare(6) that] .
    have q: "\<forall>d\<in>set ops. prec_rank q < op_rank (Cmp d)" using ranks less.prems(3) Compare(5) by fastforce
    have each: "list_all2 (\<lambda>y c. (\<forall>m rest es. 2 * length (unparse y) \<le> m \<and> follows (op_rank (Cmp c)) rest \<longrightarrow>
        do_parse_simple_expr primary m (op_prec (Cmp c)) (cursor (unparse y @ rest) es) = Return (y, cursor rest es)) \<and>
      separable (Cmp c) (unparse y)) ys ops"
    proof (rule list.rel_mono_strong [OF Compare(8)])
      fix y c assume mem: "y \<in> set ys" "c \<in> set ops"
        and y: "wf_min (Suc (op_rank (Cmp c))) y \<and> (c = CmpOp_Is \<longrightarrow> hd (unparse y) \<noteq> Ident ''not'')"
      have "size y < size e" using size_list_estimation' [OF mem(1) order_refl, of size] Compare(1) by simp
      moreover have "length (unparse y) \<le> L"
        using comparison_operand_length [OF list_all2_lengthD [OF Compare(8)] mem(1)] less.prems(2) Compare(1) by simp
      ultimately show "(\<forall>m rest es. 2 * length (unparse y) \<le> m \<and> follows (op_rank (Cmp c)) rest \<longrightarrow>
          do_parse_simple_expr primary m (op_prec (Cmp c)) (cursor (unparse y @ rest) es) = Return (y, cursor rest es)) \<and>
        separable (Cmp c) (unparse y)"
        using complete [of y "Cmp c"] y nonempty [of _ y] Compare(3) mem(2) by (auto simp: separable_def)
    qed
    have sep: "separable (Cmp c) (unparse y @ comparison_tokens ops' ys' @ rest)"
      using each ops by (auto simp: separable_def)
    have fol: "follows (op_rank (Cmp c)) ?rest" using follows_op [OF sep] ops by simp
    have len: "length (unparse l) + length (comparison_tokens ops ys) = length (unparse e)" using Compare(1) by simp
    have rl: "rounds l < length (unparse l)" using printed_head [OF Compare(7)] ..
    have "do_parse_simple_expr primary n q (cursor (unparse l @ ?rest) es) =
      parse_ops primary (n - Suc (rounds l)) q l (loop_left l) [] [] (cursor ?rest es)"
      using less.hyps [of l "op_rank (Cmp c)" q ?rest n es] Compare(1,7) ops q fol len less.prems(2,5)
        loop_not_compare [OF Compare(4)] by simp
    also have "\<dots> = parse_ops primary (n - Suc (rounds l) - length ops) q l l ops ys (cursor rest es)"
      using parse_comparisons [OF each Compare(6) q _, of rest "n - Suc (rounds l)" l "loop_left l" "[]" "[]" es]
        follows_mono [OF less.prems(4) Compare(5)] len rl less.prems(5) ops by simp
    finally show ?thesis using Compare(1) by simp
  qed
qed


lemma parse_simple_printed:
  assumes "\<And>e. is_primary e \<Longrightarrow> length (unparse e) \<le> L \<Longrightarrow> parses primary e"
    and "wf_min 1 e" "length (unparse e) \<le> L" "follows 0 rest" "2 * length (unparse e) \<le> n"
  shows "parse_simple_expr primary n (cursor (unparse e @ rest) es) = Return (e, cursor rest es)"
  unfolding parse_simple_expr_def
  using parse_complete [OF parse_operators [OF assms(1,2,3), of PrecLowest rest n es] assms(2)] assms(4,5)
    follows_mono [OF assms(4), of 1]
  by simp

text \<open>What may follow a whole expression.\<close>

definition ends :: "token list \<Rightarrow> bool" where
  "ends ts = (follows 0 ts \<and> hd ts \<noteq> Ident ''if'')"

lemma follows_word: "ts \<noteq> [] \<Longrightarrow> w \<in> {''if'', ''else''} \<Longrightarrow> follows 0 (Ident w # ts)"
  by (cases ts) (auto simp: follows_def next_rank_def next_prec_cursor_Cons precedence_from_def is_keyword_def)

lemma parse_expr_printed:
  assumes primary: "\<And>e. is_primary e \<Longrightarrow> length (unparse e) \<le> L \<Longrightarrow> parses primary e"
  shows "wf_expr e \<Longrightarrow> length (unparse e) \<le> L \<Longrightarrow> ends rest \<Longrightarrow> 2 * length (unparse e) < n \<Longrightarrow>
    parse_expr primary n (cursor (unparse e @ rest) es) = Return (e, cursor rest es)"
proof (induction n arbitrary: e)
  case (Suc n)
  from Suc.prems(1) show ?case
  proof (cases rule: wf_expr_cases)
    case (If b c x)
    note e = this
    let ?r2 = "Ident ''else'' # unparse x @ rest" and ?r1 = "Ident ''if'' # unparse c @ Ident ''else'' # unparse x @ rest"
    have rest: "rest \<noteq> []" using Suc.prems(3) by (simp add: ends_def follows_def)
    have head: "unparse b \<noteq> []" "\<not> is_in_recovery_set (hd (unparse b))" using printed_head [OF e(2)] starts_recovery by auto
    have len: "length (unparse e) = length (unparse b) + length (unparse c) + length (unparse x) + 2" using e(1) by simp
    have 1: "parse_simple_expr primary n (cursor (unparse b @ ?r1) es) = Return (b, cursor ?r1 es)"
      by (rule parse_simple_printed [OF primary]) (use e Suc.prems(2,4) len follows_word [of "unparse c @ ?r2" "''if''"] in auto)
    have 2: "parse_simple_expr primary n (cursor (unparse c @ ?r2) es) = Return (c, cursor ?r2 es)"
      by (rule parse_simple_printed [OF primary]) (use e rest Suc.prems(2,4) len follows_word [of "unparse x @ rest" "''else''"] in auto)
    have 3: "parse_expr primary n (cursor (unparse x @ rest) es) = Return (x, cursor rest es)"
      by (rule Suc.IH) (use e Suc.prems(2-4) len in auto)
    show ?thesis using 1 2 3 head rest e(1) by (simp add: Let_def is_keyword_def parse_if_expr_def)
  next
    case Simple
    note e = this
    have "parse_simple_expr primary n (cursor (unparse e @ rest) es) = Return (e, cursor rest es)"
      by (rule parse_simple_printed [OF primary e Suc.prems(2)]) (use Suc.prems(3,4) in \<open>auto simp: ends_def\<close>)
    moreover have "unparse e \<noteq> []" "\<not> is_in_recovery_set (hd (unparse e))" using printed_head [OF e] starts_recovery by auto
    ultimately show ?thesis using Suc.prems(3) by (simp add: Let_def is_keyword_def ends_def)
  qed
qed simp




subsection \<open>Suffixes\<close>

lemma parse_suffixes_stop:
  "\<not> is_suffix (hd rest) \<Longrightarrow> 0 < n \<Longrightarrow> parse_suffixes expr n e (cursor rest es) = Return (e, cursor rest es)"
  by (cases n; cases "hd rest") simp_all

lemma name_tokens_Cons: "name_tokens (n # ns) = Ident n # concat (map (\<lambda>m. [Dot, Ident m]) ns)"
  by (induction ns arbitrary: n) simp_all

lemma length_name_tokens: "names \<noteq> [] \<Longrightarrow> Suc (length (name_tokens names)) = 2 * length names"
  by (cases names) (simp_all add: name_tokens_Cons length_concat comp_def sum_list_triv)

lemma parse_names_printed:
  "rest \<noteq> [] \<Longrightarrow> hd rest \<noteq> Dot \<Longrightarrow> length ns < n \<Longrightarrow>
   parse_names n acc (cursor (concat (map (\<lambda>m. [Dot, Ident m]) ns) @ rest) es) = Return (acc @ ns, cursor rest es)"
proof (induction ns arbitrary: n acc)
  case Nil
  then show ?case by (cases n) simp_all
next
  case (Cons m ns)
  then show ?case by (cases n) (simp_all add: Let_def)
qed

lemma parse_identifier_printed:
  assumes "names \<noteq> []" "rest \<noteq> []" "hd rest \<noteq> Dot" "length names \<le> n"
  shows "parse_identifier n (cursor (name_tokens names @ rest) es) = Return (names, cursor rest es)"
  using assms parse_names_printed [OF assms(2,3), of "tl names" n "[hd names]" es]
  by (cases names) (simp_all add: parse_identifier_def name_tokens_Cons)

lemma parse_selector_printed:
  assumes "attr \<noteq> []" "rest \<noteq> []" "hd rest \<noteq> Dot" "length attr \<le> n"
  shows "parse_selector_expr n v (cursor (question_tokens q @ Dot # name_tokens attr @ rest) es) =
    Return (Selector v attr q, cursor rest es)"
proof -
  obtain ts where "name_tokens attr = Ident (hd attr) # ts" using name_tokens_hd [OF assms(1)] by blast
  then show ?thesis
    using parse_identifier_printed [OF assms, of es] by (simp add: parse_selector_expr_def question_tokens_def Let_def)
qed

subsection \<open>Arguments\<close>

lemma skip_while_none: "\<not> f (hd ts) \<Longrightarrow> skip_while f (cursor ts es) = Return (cursor ts es)"
  by (cases "tl ts") (simp_all add: skip_while_def cursor_def)

lemma clean_none: "starts (hd ts) \<or> hd ts = CloseDelim d \<Longrightarrow> clean_all_indentations (cursor ts es) = Return (cursor ts es)"
  by (cases "hd ts") (simp_all add: clean_all_indentations_def clean_all_indent_def clean_all_dedent_def skip_while_none)

text \<open>A parser of expressions that reads back the printed expressions of a length below a bound.\<close>

definition reads :: "nat \<Rightarrow> (parser \<Rightarrow> 'o parse_res) \<Rightarrow> bool" where
  "reads L expr = (\<forall>e rest es. wf_expr e \<and> length (unparse e) < L \<and> ends rest \<longrightarrow>
     expr (cursor (unparse e @ rest) es) = Return (e, cursor rest es))"

lemma ends_delimiter: "ts \<noteq> [] \<Longrightarrow> t \<in> {Comma, Colon, Assign, CloseDelim d} \<Longrightarrow> ends (t # ts)"
  by (cases ts) (auto simp: ends_def follows_def next_rank_def next_prec_cursor_Cons precedence_from_def is_keyword_def)

text \<open>An argument with the tokens it is printed with.\<close>

fun argument_tokens :: "'o expr + string list \<times> 'o expr \<Rightarrow> token list" where
  "argument_tokens (Inl e) = unparse e"
| "argument_tokens (Inr kw) = name_tokens (fst kw) @ Assign # unparse (snd kw)"

fun wf_argument :: "'o expr + string list \<times> 'o expr \<Rightarrow> bool" where
  "wf_argument (Inl e) = wf_expr e"
| "wf_argument (Inr kw) = (is_name (fst kw) \<and> wf_expr (snd kw))"

lemma parse_argument_printed:
  assumes "reads L expr" "wf_argument a" "length (argument_tokens a) < L" "t = Comma \<or> t = CloseDelim ParenDelim" "ts \<noteq> []"
  shows "parse_argument_expr expr (cursor (argument_tokens a @ t # ts) es) = Return (a, cursor (t # ts) es)"
proof (cases a)
  case (Inl e)
  have "ends (t # ts)" using assms(4,5) ends_delimiter by blast
  then show ?thesis using assms(1-4) Inl by (auto simp: reads_def parse_argument_expr_def)
next
  case (Inr kw)
  have "ends (t # ts)" "ends (Assign # unparse (snd kw) @ t # ts)" using assms(4,5) ends_delimiter by blast+
  moreover have "wf_expr (Identifier (fst kw))" using assms(2) Inr by simp
  ultimately have "expr (cursor (unparse (Identifier (fst kw)) @ Assign # unparse (snd kw) @ t # ts) es) =
      Return (Identifier (fst kw), cursor (Assign # unparse (snd kw) @ t # ts) es)"
    "expr (cursor (unparse (snd kw) @ t # ts) es) = Return (snd kw, cursor (t # ts) es)"
    using assms(1-3) Inr unfolding reads_def by fastforce+
  then show ?thesis using Inr by (simp add: parse_argument_expr_def)
qed


lemma argument_head: "wf_argument a \<Longrightarrow> argument_tokens a \<noteq> [] \<and> starts (hd (argument_tokens a)) \<and> a \<noteq> Inl Missing"
proof (cases a)
  case (Inl e)
  then show "wf_argument a \<Longrightarrow> ?thesis" using expr_head [of e] by auto
next
  case (Inr kw)
  then show "wf_argument a \<Longrightarrow> ?thesis" using primary_head [of "Identifier (fst kw)"] by auto
qed

lemma starts_not_terminator: "starts t \<Longrightarrow> \<not> is_terminator b t"
  by (cases t) (auto simp: is_terminator_def is_keyword_def)

definition add_argument :: "'o expr + string list \<times> 'o expr \<Rightarrow> 'o expr list \<times> (string list \<times> 'o expr) list \<Rightarrow>
    'o expr list \<times> (string list \<times> 'o expr) list" where
  "add_argument a acc = (case a of Inl e \<Rightarrow> (fst acc @ [e], snd acc) | Inr kw \<Rightarrow> (fst acc, snd acc @ [kw]))"

lemma parse_arguments_step:
  assumes "reads L expr" "wf_argument a" "length (argument_tokens a) < L" "ts \<noteq> []"
    "t = Comma \<or> t = CloseDelim ParenDelim" "isl a \<Longrightarrow> kws = []"
  shows "parse_arguments_expr expr (Suc n) False args kws (cursor (argument_tokens a @ t # ts) es) =
    parse_arguments_expr expr n False (fst (add_argument a (args, kws))) (snd (add_argument a (args, kws)))
      (cursor (if t = Comma then ts else t # ts) es)"
proof -
  note head = argument_head [OF assms(2)]
  let ?p = "cursor (argument_tokens a @ t # ts) es"
  have clean: "clean_all_indentations ?p = Return ?p" using head by (intro clean_none) simp
  have arg: "parse_argument_expr expr ?p = Return (a, cursor (t # ts) es)"
    using parse_argument_printed [OF assms(1-3,5,4)] by simp
  have len: "length (stream ?p) \<noteq> length (stream (cursor (t # ts) es))"
    "length (stream ?p) \<noteq> length (stream (cursor ts es))"
    using head assms(4) by (cases "argument_tokens a"; simp add: cursor_def)+
  have stop: "\<not> is_terminator False (hd (argument_tokens a @ t # ts))" using head by (simp add: starts_not_terminator)
  show ?thesis
    using head assms(4-6) arg clean stop len
    by (cases a) (auto simp: Let_def drop_marker_def add_argument_def)
qed


lemma comma_separated_Cons: "comma_separated (ts # tss) = ts @ (if tss = [] then [] else Comma # comma_separated tss)"
  by (cases tss) simp_all

lemma parse_arguments_end:
  "parse_arguments_expr expr (Suc n) False args kws (cursor (CloseDelim ParenDelim # ts) es) =
     Return ((args, kws), cursor (CloseDelim ParenDelim # ts) es)"
  using clean_none [of "CloseDelim ParenDelim # ts" ParenDelim es] by (simp add: Let_def is_terminator_def)

lemma parse_arguments_printed:
  assumes "reads L expr" "ts \<noteq> []"
  shows "\<forall>a\<in>set as. wf_argument a \<and> length (argument_tokens a) < L \<Longrightarrow> length as < n \<Longrightarrow>
    sorted_wrt (\<lambda>a b. isl b \<longrightarrow> isl a) as \<Longrightarrow> kws \<noteq> [] \<longrightarrow> (\<forall>a\<in>set as. \<not> isl a) \<Longrightarrow>
    parse_arguments_expr expr n False args kws
      (cursor (comma_separated (map argument_tokens as) @ CloseDelim ParenDelim # ts) es) =
    Return (fold add_argument as (args, kws), cursor (CloseDelim ParenDelim # ts) es)"
proof (induction as arbitrary: args kws n)
  case Nil
  then show ?case using parse_arguments_end by (cases n) simp_all
next
  case (Cons a as)
  obtain m where n: "n = Suc m" "length as < m" using Cons.prems(2) by (cases n) auto
  let ?acc = "add_argument a (args, kws)"
  let ?rest = "comma_separated (map argument_tokens as) @ CloseDelim ParenDelim # ts"
  obtain t us where t: "t = Comma \<or> t = CloseDelim ParenDelim" "us \<noteq> []" "(if t = Comma then us else t # us) = ?rest"
      "comma_separated (map argument_tokens (a # as)) @ CloseDelim ParenDelim # ts = argument_tokens a @ t # us"
  proof (cases as)
    case Nil
    then show ?thesis using that [of "CloseDelim ParenDelim" ts] assms(2) by simp
  next
    case (Cons b bs)
    then show ?thesis using that [of Comma ?rest] by (simp add: comma_separated_Cons)
  qed
  have "isl a \<Longrightarrow> kws = []" using Cons.prems(4) by auto
  from parse_arguments_step [OF assms(1) _ _ t(2,1) this, where n = m and args = args and es = es] Cons.prems(1) t(3,4)
  have "parse_arguments_expr expr n False args kws
      (cursor (comma_separated (map argument_tokens (a # as)) @ CloseDelim ParenDelim # ts) es) =
    parse_arguments_expr expr m False (fst ?acc) (snd ?acc) (cursor ?rest es)" using n(1) by simp
  also have "\<dots> = Return (fold add_argument as (fst ?acc, snd ?acc), cursor (CloseDelim ParenDelim # ts) es)"
    by (rule Cons.IH) (use Cons.prems n(2) in \<open>auto simp: add_argument_def split: sum.splits\<close>)
  finally show ?case by simp
qed

lemma fold_add_argument:
  "fold add_argument (map Inl xs @ map Inr ys) (args, kws) = (args @ xs, kws @ ys)"
proof -
  have "fold add_argument (map Inl xs) (args, kws) = (args @ xs, kws)" for args kws
    by (induction xs arbitrary: args) (simp_all add: add_argument_def)
  moreover have "fold add_argument (map Inr ys) (args, kws) = (args, kws @ ys)" for args kws
    by (induction ys arbitrary: kws) (simp_all add: add_argument_def)
  ultimately show ?thesis by simp
qed

lemma length_comma_separated: "ts \<in> set tss \<Longrightarrow> length ts \<le> length (comma_separated tss)"
  by (induction tss) (auto simp: comma_separated_Cons)

lemma parse_call_printed:
  assumes "reads L expr" "length (unparse (Call f args kws)) \<le> length (unparse f) + L" "rest \<noteq> []"
    "\<forall>x\<in>set args. wf_expr x" "\<forall>kw\<in>set kws. is_name (fst kw) \<and> wf_expr (snd kw)" "length args + length kws < n"
  shows "parse_call expr n f (cursor (OpenDelim ParenDelim #
      comma_separated (map unparse args @ map (\<lambda>kw. name_tokens (fst kw) @ Assign # unparse (snd kw)) kws) @
      CloseDelim ParenDelim # rest) es) = Return (Call f args kws, cursor rest es)"
proof -
  define as where "as = map Inl args @ map Inr kws"
  have tokens: "map unparse args @ map (\<lambda>kw. name_tokens (fst kw) @ Assign # unparse (snd kw)) kws = map argument_tokens as"
    by (simp add: as_def)
  have wf: "\<forall>a\<in>set as. wf_argument a" using assms(4,5) by (auto simp: as_def)
  have short: "\<forall>a\<in>set as. length (argument_tokens a) < L"
    using length_comma_separated [of _ "map argument_tokens as"] assms(2) tokens by fastforce
  have order: "sorted_wrt (\<lambda>a b. isl b \<longrightarrow> isl a) as" and size: "length as < n"
    using assms(6) by (auto simp: as_def sorted_wrt_append sorted_wrt_map)
  let ?ts = "comma_separated (map argument_tokens as) @ CloseDelim ParenDelim # rest"
  have parse: "parse_arguments_expr expr n False [] [] (cursor ?ts es) = Return ((args, kws), cursor (CloseDelim ParenDelim # rest) es)"
    using parse_arguments_printed [OF assms(1,3), of as n "[]" "[]" es] wf short order size
      fold_add_argument [of args kws "[]" "[]", folded as_def] by simp
  have call: "parse_call expr n f (cursor (OpenDelim ParenDelim # ?ts) es) = Return (Call f args kws, cursor rest es)"
  proof (cases as)
    case Nil
    then show ?thesis using assms(3) by (simp add: as_def parse_call_def expect_close_def Let_def)
  next
    case (Cons a bs)
    then have "starts (hd ?ts)" using wf argument_head [of a] by (simp add: comma_separated_Cons)
    then have "hd ?ts \<noteq> Newline" "hd ?ts \<noteq> CloseDelim ParenDelim" by auto
    then show ?thesis using parse assms(3) by (simp add: parse_call_def expect_close_def Let_def)
  qed
  then show ?thesis using tokens by simp
qed

subsection \<open>Subscripts\<close>

lemma subscript_expr_step:
  assumes "reads L expr" "wf_expr e" "length (unparse e) < L" "t = Colon \<or> t = CloseDelim BracketDelim" "ts \<noteq> []"
    "expr_index s < length (exprs s)" "exprs_consecutive s \<le> 0" "is_slice s \<or> k \<noteq> 3"
  shows "subscript_rounds expr (Suc k) s (cursor (unparse e @ t # ts) es) =
    subscript_rounds expr k (s\<lparr>exprs := (exprs s)[expr_index s := Some e], exprs_consecutive := exprs_consecutive s + 1\<rparr>)
      (cursor (t # ts) es)"
proof -
  have "ends (t # ts)" using ends_delimiter [OF assms(5)] assms(4) by blast
  then have "expr (cursor (unparse e @ t # ts) es) = Return (e, cursor (t # ts) es)"
    using assms(1-3) by (auto simp: reads_def)
  moreover have "unparse e \<noteq> []" "hd (unparse e) \<noteq> Colon" "hd (unparse e) \<noteq> CloseDelim BracketDelim"
    using expr_head [OF assms(2)] by auto
  ultimately show ?thesis using assms(6-8) by (auto simp: Let_def)
qed


lemma subscript_colon_step:
  assumes "ts \<noteq> []" "colon_counter s < 2"
  shows "subscript_rounds expr (Suc k) s (cursor (Colon # ts) es) =
    subscript_rounds expr k (s\<lparr>is_slice := True, colon_counter := Suc (colon_counter s), expr_index := Suc (expr_index s),
      exprs_consecutive := exprs_consecutive s - 1\<rparr>) (cursor ts es)"
  using assms by (simp add: slice_colon_def Let_def)

lemma subscript_end:
  "subscript_rounds expr k s (cursor (CloseDelim BracketDelim # ts) es) = Return (s, cursor (CloseDelim BracketDelim # ts) es)"
  by (cases k) simp_all

lemma parse_subscript_close:
  assumes "subscript_rounds expr (Suc 4) \<lparr>is_slice = False, colon_counter = 0, exprs = [None, None, None], expr_index = 0,
      exprs_consecutive = 0\<rparr> (cursor ts es) = Return (s, cursor (CloseDelim BracketDelim # rest) es)" "ts \<noteq> []" "rest \<noteq> []"
    "is_slice s \<or> exprs s = [Some e, None, None]"
  shows "parse_subscript_expr expr v (cursor (question_tokens q @ OpenDelim BracketDelim # ts) es) =
    Return (if is_slice s then Subscript v None (exprs s ! 0) (exprs s ! 1) (exprs s ! 2) q
      else Subscript v (Some e) None None None q, cursor rest es)"
  using assms by (auto simp: parse_subscript_expr_def question_tokens_def expect_close_def Let_def eval_nat_numeral
    simp del: subscript_rounds.simps)

lemma parse_index_printed:
  assumes "reads L expr" "wf_expr e" "length (unparse e) < L" "rest \<noteq> []"
  shows "parse_subscript_expr expr v (cursor (question_tokens q @ OpenDelim BracketDelim # unparse e @ CloseDelim BracketDelim # rest) es) =
    Return (Subscript v (Some e) None None None q, cursor rest es)"
  by (subst parse_subscript_close, subst subscript_expr_step [OF assms(1-3) _ assms(4)], unfold subscript_end)
    (use assms(4) in auto)

lemma parse_slice_printed:
  assumes "reads L expr" "pred_option (\<lambda>e. wf_expr e \<and> length (unparse e) < L) lo"
    "pred_option (\<lambda>e. wf_expr e \<and> length (unparse e) < L) up" "pred_option (\<lambda>e. wf_expr e \<and> length (unparse e) < L) st" "rest \<noteq> []"
  shows "parse_subscript_expr expr v (cursor (question_tokens q @ OpenDelim BracketDelim #
      (case lo of Some e \<Rightarrow> unparse e | None \<Rightarrow> []) @ Colon #
      (case up of Some e \<Rightarrow> unparse e | None \<Rightarrow> []) @ Colon #
      (case st of Some e \<Rightarrow> unparse e | None \<Rightarrow> []) @ CloseDelim BracketDelim # rest) es) =
    Return (Subscript v None lo up st q, cursor rest es)"
proof -
  note steps = subscript_expr_step [OF assms(1)] subscript_colon_step subscript_end
  have "\<exists>s. subscript_rounds expr (Suc 4) \<lparr>is_slice = False, colon_counter = 0, exprs = [None, None, None], expr_index = 0,
      exprs_consecutive = 0\<rparr> (cursor ((case lo of Some e \<Rightarrow> unparse e | None \<Rightarrow> []) @ Colon #
      (case up of Some e \<Rightarrow> unparse e | None \<Rightarrow> []) @ Colon #
      (case st of Some e \<Rightarrow> unparse e | None \<Rightarrow> []) @ CloseDelim BracketDelim # rest) es) =
      Return (s, cursor (CloseDelim BracketDelim # rest) es) \<and> is_slice s \<and> exprs s = [lo, up, st]"
    using assms(2-) by (cases lo; cases up; cases st) (simp_all add: steps eval_nat_numeral del: subscript_rounds.simps)
  then show ?thesis by (elim exE conjE) (subst parse_subscript_close, assumption, use assms(5) in auto)
qed


subsection \<open>Operands\<close>

lemma parse_number_printed:
  assumes "bytes_lib_ok lib" "rest \<noteq> []" "pred_option (\<lambda>s. s \<in> set binary_suffixes) sx"
  shows "parse_num_expr lib (Lit LitInteger (nat_to_string (unat (v :: i64))) sx None)
    (cursor (Literal (Lit LitInteger (nat_to_string (unat v)) sx None) # rest) es) =
    (NumberLit (IntLit v) sx, cursor rest es)"
proof -
  have "bytes_to_int lib (nat_to_string (unat v)) 0 = Some v"
  proof (cases "unat v = 0")
    case True
    then show ?thesis using zero_literal [OF assms(1), of 10]
      by (simp add: nat_to_string_radix radix_prefix_def unat_eq_0)
  next
    case False
    moreover have "unat v < 2 ^ 64" using unsigned_less [of v, where 'a = nat] by simp
    ultimately show ?thesis using nonzero_literal [OF assms(1), of 10 "unat v"]
      by (simp add: nat_to_string_radix radix_prefix_def to_i64_def)
  qed
  with assms(2,3) show ?thesis by (cases sx) (simp_all add: parse_num_expr_def number_binary_suffix_def)
qed

text \<open>What may follow an operand, so that the operand is read as a whole.\<close>

definition compatible :: "'o expr \<Rightarrow> token list \<Rightarrow> bool" where
  "compatible e rest =
     (rest \<noteq> [] \<and> hd rest \<noteq> OpenDelim BraceDelim \<and> (takes_dot e \<longrightarrow> hd rest \<noteq> Dot) \<and>
      ((\<exists>names. e = Identifier names) \<longrightarrow> hd rest \<noteq> OpenDelim ParenDelim))"

definition operand_suffixes :: "'o subparsers \<Rightarrow> (parser \<Rightarrow> 'o parse_res) \<Rightarrow> nat \<Rightarrow> parser \<Rightarrow> 'o parse_res" where
  "operand_suffixes sp expr n p =
     bind_outcome (parse_operand_expr sp expr n p) (\<lambda>(operand, p). parse_suffixes expr n operand p)"

lemma operand_name:
  assumes "is_name names" "compatible (Identifier names) rest" "length names \<le> n"
  shows "parse_operand_expr sp expr n (cursor (name_tokens names @ rest) es) = Return (Identifier names, cursor rest es)"
proof -
  obtain ts where ts: "name_tokens names = Ident (hd names) # ts" "hd names \<notin> set reserved" "names \<noteq> []"
    using assms(1) name_tokens_hd by (auto simp: is_name_def)
  have "parse_identifier n (cursor (name_tokens names @ rest) es) = Return (names, cursor rest es)"
    using assms ts(3) by (intro parse_identifier_printed) (auto simp: compatible_def)
  then show ?thesis using ts(1,2) assms(2)
    by (simp add: parse_operand_expr_def parse_identifier_operand_def reserved_def compatible_def)
qed

lemma operand_call:
  assumes "is_name names" "length names \<le> n" "ts \<noteq> []" "hd rest \<noteq> OpenDelim BraceDelim"
    "parse_call expr n (Identifier names) (cursor (OpenDelim ParenDelim # ts) es) = Return (e, cursor rest es)"
  shows "parse_operand_expr sp expr n (cursor (name_tokens names @ OpenDelim ParenDelim # ts) es) = Return (e, cursor rest es)"
proof -
  obtain us where us: "name_tokens names = Ident (hd names) # us" "hd names \<notin> set reserved" "names \<noteq> []"
    using assms(1) name_tokens_hd by (auto simp: is_name_def)
  have "parse_identifier n (cursor (name_tokens names @ OpenDelim ParenDelim # ts) es) =
      Return (names, cursor (OpenDelim ParenDelim # ts) es)"
    using assms us(3) by (intro parse_identifier_printed) auto
  then show ?thesis using us(1,2) assms(4,5)
    by (simp add: parse_operand_expr_def parse_identifier_operand_def reserved_def)
qed

lemma arguments_fuel:
  assumes "\<forall>x\<in>set args. wf_expr x"
  shows "length args + length kws \<le>
    length (comma_separated (map unparse args @ map (\<lambda>kw. name_tokens (fst kw) @ Assign # unparse (snd kw)) kws))"
proof -
  have size: "\<forall>ts\<in>set tss. ts \<noteq> [] \<Longrightarrow> length tss \<le> length (comma_separated tss)" for tss :: "token list list"
  proof (induction tss)
    case (Cons ts tss)
    then have "0 < length ts" by simp
    with Cons show ?case by (cases tss) (simp_all add: comma_separated_Cons Suc_le_eq)
  qed simp
  have "unparse x \<noteq> []" if "x \<in> set args" for x using expr_head [of x] assms that by simp
  then have "\<forall>ts\<in>set (map unparse args @ map (\<lambda>kw. name_tokens (fst kw) @ Assign # unparse (snd kw)) kws). ts \<noteq> []"
    by force
  from size [OF this] show ?thesis by simp
qed

text \<open>
  An operand with its suffixes is read suffix by suffix: the loop reaches the state in which it has read the
  whole, with the fuel that is left.
\<close>

definition reaches :: "'o subparsers \<Rightarrow> (parser \<Rightarrow> 'o parse_res) \<Rightarrow> nat \<Rightarrow> 'o expr \<Rightarrow> token list \<Rightarrow> parse_error list \<Rightarrow> bool" where
  "reaches sp expr n e rest es =
     (\<exists>m. n \<le> m + length (unparse e) \<and>
        operand_suffixes sp expr n (cursor (unparse e @ rest) es) = parse_suffixes expr m e (cursor rest es))"

lemma reaches_operand:
  "parse_operand_expr sp expr n (cursor (unparse e @ rest) es) = Return (e, cursor rest es) \<Longrightarrow> reaches sp expr n e rest es"
  unfolding reaches_def by (intro exI [of _ n]) (simp add: operand_suffixes_def)

lemma reaches_suffix:
  assumes "reaches sp expr n v (ts @ rest) es" "unparse e = unparse v @ ts" "length (unparse e) < n" "ts \<noteq> []"
    "\<And>m. n \<le> Suc (m + length (unparse v)) \<Longrightarrow>
      parse_suffixes expr (Suc m) v (cursor (ts @ rest) es) = parse_suffixes expr m e (cursor rest es)"
  shows "reaches sp expr n e rest es"
proof -
  obtain m where m: "n \<le> m + length (unparse v)"
    "operand_suffixes sp expr n (cursor (unparse v @ ts @ rest) es) = parse_suffixes expr m v (cursor (ts @ rest) es)"
    using assms(1) by (auto simp: reaches_def)
  then obtain j where "m = Suc j" using assms(2,3) by (cases m) auto
  moreover obtain t us where "ts = t # us" using assms(4) by (cases ts) auto
  ultimately show ?thesis unfolding reaches_def using m assms(2) assms(5) [of j]
    by (intro exI [of _ j]) (simp del: parse_suffixes.simps)
qed

lemma selector_suffix:
  assumes "attr \<noteq> []" "rest \<noteq> []" "hd rest \<noteq> Dot" "length attr \<le> m"
  shows "parse_suffixes expr (Suc m) v (cursor ((question_tokens q @ Dot # name_tokens attr) @ rest) es) =
    parse_suffixes expr m (Selector v attr q) (cursor rest es)"
  using parse_selector_printed [OF assms, of v q es] by (cases q) (simp_all add: question_tokens_def)

lemma bracket_suffix:
  assumes "parse_subscript_expr expr v (cursor (question_tokens q @ OpenDelim BracketDelim # ts) es) = Return (e, cursor rest es)"
  shows "parse_suffixes expr (Suc m) v (cursor (question_tokens q @ OpenDelim BracketDelim # ts) es) =
    parse_suffixes expr m e (cursor rest es)"
  using assms by (simp add: question_tokens_def split: if_splits)

lemma operand_printed:
  assumes lib: "bytes_lib_ok (sp_bytes sp)" and expr: "reads L expr"
  shows "is_primary e \<Longrightarrow> length (unparse e) \<le> L \<Longrightarrow> length (unparse e) < n \<Longrightarrow> compatible e rest \<Longrightarrow> reaches sp expr n e rest es"
proof (induction e arbitrary: rest)
  case (Identifier names)
  then have "length names \<le> n" using length_name_tokens [of names] by (auto simp: is_name_def)
  with Identifier show ?case by (intro reaches_operand) (simp add: operand_name)
next
  case (NumberLit v sx)
  then show ?case using parse_number_printed [OF lib, of rest sx]
    by (intro reaches_operand) (cases v; simp add: parse_operand_expr_def compatible_def)
next
  case (NameConstantLit c)
  then show ?case
    by (intro reaches_operand) (cases c; simp add: parse_operand_expr_def parse_constant_expr_def is_keyword_def compatible_def)
next
  case (Paren x)
  then have "expr (cursor (unparse x @ CloseDelim ParenDelim # rest) es) = Return (x, cursor (CloseDelim ParenDelim # rest) es)"
    using expr ends_delimiter [of rest] by (auto simp: reads_def compatible_def)
  with Paren show ?case
    by (intro reaches_operand) (simp add: parse_operand_expr_def parse_paren_expr_def expect_close_def compatible_def)
next
  case (Selector v attr q)
  let ?ts = "question_tokens q @ Dot # name_tokens attr"
  have "reaches sp expr n v (?ts @ rest) es"
    using Selector by (intro Selector.IH) (auto simp: compatible_def question_tokens_def)
  then show ?case
  proof (rule reaches_suffix)
    fix m assume m: "n \<le> Suc (m + length (unparse v))"
    show "parse_suffixes expr (Suc m) v (cursor (?ts @ rest) es) = parse_suffixes expr m (Selector v attr q) (cursor rest es)"
      by (rule selector_suffix) (use m Selector.prems length_name_tokens [of attr] in \<open>auto simp: compatible_def\<close>)
  qed (use Selector.prems in simp_all)
next
  case (Call f args kws)
  let ?args = "comma_separated (map unparse args @ map (\<lambda>kw. name_tokens (fst kw) @ Assign # unparse (snd kw)) kws)"
  let ?ts = "OpenDelim ParenDelim # ?args @ [CloseDelim ParenDelim]"
  have wf: "\<forall>x\<in>set args. wf_expr x" "\<forall>kw\<in>set kws. is_name (fst kw) \<and> wf_expr (snd kw)"
    using Call.prems(1) by (simp_all add: list_all_iff)
  have call: "parse_call expr m f (cursor (?ts @ rest) es) = Return (Call f args kws, cursor rest es)"
    if "n \<le> Suc (m + length (unparse f))" for m
    using parse_call_printed [OF expr _ _ wf, of f rest m es] arguments_fuel [OF wf(1), of kws] that Call.prems(2-4)
    by (simp add: compatible_def)
  show ?case
  proof (cases "\<exists>names. f = Identifier names")
    case True
    then obtain names where f: "f = Identifier names" by blast
    with Call.prems have "length names \<le> n" using length_name_tokens [of names] by (auto simp: is_name_def)
    with f Call.prems call [of n] show ?thesis
      by (intro reaches_operand) (simp add: operand_call [of names n "?args @ CloseDelim ParenDelim # rest" rest] compatible_def)
  next
    case False
    have "reaches sp expr n f (?ts @ rest) es" using Call.prems False by (intro Call.IH) (auto simp: compatible_def)
    then show ?thesis
    proof (rule reaches_suffix)
      fix m assume "n \<le> Suc (m + length (unparse f))"
      from call [OF this] show "parse_suffixes expr (Suc m) f (cursor (?ts @ rest) es) =
          parse_suffixes expr m (Call f args kws) (cursor rest es)" by simp
    qed (use Call.prems in simp_all)
  qed
next
  case (Subscript v index lo up st q)
  let ?inner = "case index of Some e \<Rightarrow> unparse e | None \<Rightarrow>
      (case lo of Some e \<Rightarrow> unparse e | None \<Rightarrow> []) @ Colon #
      (case up of Some e \<Rightarrow> unparse e | None \<Rightarrow> []) @ Colon # (case st of Some e \<Rightarrow> unparse e | None \<Rightarrow> [])"
  let ?ts = "question_tokens q @ OpenDelim BracketDelim # ?inner @ [CloseDelim BracketDelim]"
  have rest: "rest \<noteq> []" using Subscript.prems(4) by (simp add: compatible_def)
  have "parse_subscript_expr expr v (cursor (?ts @ rest) es) = Return (Subscript v index lo up st q, cursor rest es)"
  proof (cases index)
    case (Some e)
    then show ?thesis using parse_index_printed [OF expr _ _ rest, of e v q es] Subscript.prems(1,2) by simp
  next
    case None
    with Subscript.prems(1,2) parse_slice_printed [OF expr _ _ _ rest, of lo up st v q es] show ?thesis
      by (simp add: option.pred_set split: option.splits)
  qed
  then have suffix: "parse_suffixes expr (Suc m) v (cursor (?ts @ rest) es) =
      parse_suffixes expr m (Subscript v index lo up st q) (cursor rest es)" for m
    using bracket_suffix [of expr v q "(?inner @ [CloseDelim BracketDelim]) @ rest" es] by simp
  have "reaches sp expr n v (?ts @ rest) es"
    using Subscript.prems by (intro Subscript.IH) (auto simp: compatible_def question_tokens_def)
  then show ?case by (rule reaches_suffix) (use suffix Subscript.prems in \<open>simp_all del: parse_suffixes.simps\<close>)
qed simp_all


lemma primary_printed:
  assumes lib: "bytes_lib_ok (sp_bytes sp)"
  shows "is_primary e \<Longrightarrow> 2 * length (unparse e) < n \<Longrightarrow> parses (parse_primary_expr sp n) e"
proof (induction n arbitrary: e)
  case 0
  then show ?case using primary_head [of e] by simp
next
  case (Suc n)
  let ?expr = "\<lambda>p. parse_expr (parse_primary_expr sp n) n p"
  have reads: "reads (length (unparse e)) ?expr"
    unfolding reads_def
  proof (intro allI impI, elim conjE)
    fix x :: "'a expr" and rest es assume x: "wf_expr x" "length (unparse x) < length (unparse e)" "ends rest"
    then show "?expr (cursor (unparse x @ rest) es) = Return (x, cursor rest es)"
      using Suc by (intro parse_expr_printed [of "length (unparse x)"]) auto
  qed
  have n: "length (unparse e) < n" using Suc.prems primary_head [of e] by (cases "unparse e") auto
  show ?case unfolding parses_def
  proof (intro allI impI)
    fix rest es assume "follows 15 rest"
    then have rest: "compatible e rest" "\<not> is_suffix (hd rest)" by (auto simp: follows_def compatible_def)
    obtain m where "n \<le> m + length (unparse e)"
      "operand_suffixes sp ?expr n (cursor (unparse e @ rest) es) = parse_suffixes ?expr m e (cursor rest es)"
      using operand_printed [OF lib reads Suc.prems(1) order_refl n rest(1), of es] by (auto simp: reaches_def)
    with n parse_suffixes_stop [OF rest(2), of m ?expr e es]
    show "parse_primary_expr sp (Suc n) (cursor (unparse e @ rest) es) = Return (e, cursor rest es)"
      by (simp add: operand_suffixes_def)
  qed
qed

section \<open>Properties\<close>

lemma expression_printed:
  assumes "wf_expr e" "bytes_lib_ok (sp_bytes sp)" "ends rest" "2 * length (unparse e) < n"
  shows "expression sp n (cursor (unparse e @ rest) es) = Return (e, cursor rest es)"
  unfolding expression_def
  by (rule parse_expr_printed [of "length (unparse e)"]) (use assms primary_printed [OF assms(2)] in auto)

text \<open>
  C10: the parser reads back every printed expression. An expression whose operands are parenthesised
  where the precedences ask for it (operators of one rank associate to the left, comparisons of falling
  ranks chain; operands are names, integers, constants, parenthesised expressions, selectors, calls,
  subscripts and slices) is parsed to itself from its tokens, with enough fuel, whatever follows that is no
  operator, suffix or \<open>if\<close>; no error is recorded and exactly its tokens are consumed.
\<close>

theorem printed_expression_parses:
  assumes "wf_expr e" "bytes_lib_ok (sp_bytes sp)" "ends rest" "2 * length (unparse e) < n"
  shows "expression sp n (cursor (unparse e @ rest) es) = Return (e, cursor rest es)"
  using assms by (rule expression_printed)

definition no_operands :: "unit subparsers" where
  "no_operands = \<lparr>sp_lambda = Pair (), sp_quant = Pair (), sp_string = (\<lambda>_. Pair ()), sp_list = Pair (), sp_config = Pair (),
     sp_schema = (\<lambda>_. Pair ()), sp_bytes = plain_bytes_lib\<rparr>"

text \<open>\<open>- f(x, k = 1) ** 2 < (y)?.z in w[1::] if not a else (b or 1)\<close>\<close>

theorem printed_expression_parses_witness:
  "let e = If (Compare (Binary (Unary UnaryOp_USub (Call (Identifier [''f'']) [Identifier [''x'']] [([''k''], NumberLit (IntLit 1) None)]))
            BinOp_Pow (NumberLit (IntLit 2) None))
          [CmpOp_Lt, CmpOp_In] [Selector (Paren (Identifier [''y''])) [''z''] True,
            Subscript (Identifier [''w'']) None (Some (NumberLit (IntLit 1) None)) None None False])
        (Unary UnaryOp_Not (Identifier [''a'']))
        (Paren (Binary (Identifier [''b'']) BinOp_Or (NumberLit (IntLit 1) None)))
   in length (unparse e) = 34 \<and> expression no_operands 69 (cursor (unparse e @ [Newline]) []) = Return (e, cursor [Newline] [])"
  unfolding Let_def
  by (intro conjI printed_expression_parses)
    (simp_all add: no_operands_def bytes_lib_ok_def plain_bytes_lib_def reserved_def is_name_def question_tokens_def op_rank_def
      ends_def follows_def next_rank_def next_prec_def precedence_from_def is_keyword_def)

text \<open>A subscript with three colons and an expression panics: the store is out of bounds.\<close>

lemma subscript_three_colons_panics:
  assumes "expr (cursor (Ident x # CloseDelim BracketDelim # ts) [UnexpectedToken [''expression'', '']''] (Ident x)]) = Return (e, p)"
  shows "parse_subscript_expr expr v
    (cursor (OpenDelim BracketDelim # Colon # Colon # Colon # Ident x # CloseDelim BracketDelim # ts) []) = Panic"
proof -
  have err: "token_error [''expression'', '']''] (cursor (Ident x # us) []) =
      cursor (Ident x # us) [UnexpectedToken [''expression'', '']''] (Ident x)]" for us
    by (simp add: token_error_def cursor_def)
  show ?thesis using assms
    by (simp add: parse_subscript_expr_def Let_def eval_nat_numeral slice_colon_def err)
qed

text \<open>An operand that an operator of no binary kind follows drops the comparison collected so far.\<close>

lemma comparison_dropped:
  "parse_ops primary (Suc n) PrecLowest x left [CmpOp_Lt] [y] (cursor (UnaryOpTok UTilde # ts) es) =
     Return (x, token_error all_symbols (cursor (UnaryOpTok UTilde # ts) es))"
proof -
  have "next_prec (cursor (UnaryOpTok UTilde # ts) es) = (PrecPrefix, False)"
    by (cases ts) (simp_all add: next_prec_def precedence_from_def is_keyword_def)
  then show ?thesis by (simp add: less_eq_precedence_def next_op_def bin_or_cmp_op_try_from_def is_keyword_def)
qed

end
