(* ===== verification/LexerRaw.thy ===== *)
theory LexerRaw
  imports RustStr
begin

text \<open>
  The low-level lexer (crate \<open>kclvm/lexer\<close>): the cursor over the characters of the source, comments,
  strings, identifiers, numbers and operators, and the token stream of \<open>tokenize\<close>. The source is the list of its
  characters, each the string of its UTF-8 bytes; a token is its kind with its characters. The tables of
  identifier characters (\<open>rustc_lexer\<close>), emoji (\<open>unic_emoji_char\<close>) and character names (\<open>unicode_names2\<close>)
  are a parameter.
\<close>

section \<open>Token kinds\<close>

datatype doc_style = DocOuter | DocInner

datatype base = BaseBinary | BaseOctal | BaseHexadecimal | BaseDecimal

datatype literal_kind =
    IntKind base bool
  | FloatKind base bool
  | StrKind (str_terminated: bool) (str_triple_quoted: bool)
  | BoolKind bool

datatype raw_kind =
    RawLineComment "doc_style option"
  | RawBlockComment "doc_style option" bool
  | RawTab | RawSpace | RawCarriageReturn | RawNewline | RawWhitespace
  | RawIdent | RawInvalidIdent | RawInvalidLineContinue | RawLineContinue
  | RawLiteral literal_kind nat
  | RawSemi | RawComma | RawDot | RawDotDot | RawDotDotDot
  | RawOpenParen | RawCloseParen | RawOpenBrace | RawCloseBrace | RawOpenBracket | RawCloseBracket
  | RawAt | RawPound | RawTilde | RawQuestion | RawColon | RawDollar | RawEq | RawBang | RawLt | RawGt
  | RawEqEq | RawBangEq | RawGtEq | RawLtEq | RawMinus | RawAnd | RawOr | RawPlus | RawStar | RawSlash
  | RawCaret | RawPercent | RawStarStar | RawSlashSlash | RawLtLt | RawGtGt | RawPlusEq | RawMinusEq
  | RawStarEq | RawSlashEq | RawPercentEq | RawAndEq | RawOrEq | RawCaretEq | RawStarStarEq
  | RawSlashSlashEq | RawLtLtEq | RawGtGtEq | RawUnknown

record char_lib =
  is_id_start :: "string \<Rightarrow> bool"
  is_id_continue :: "string \<Rightarrow> bool"
  is_emoji :: "string \<Rightarrow> bool"
  unicode_character :: "string \<Rightarrow> string option"

section \<open>The cursor\<close>

definition EOF_CHAR :: string where
  "EOF_CHAR = [CHR 0x00]"

definition NEWLINE :: string where
  "NEWLINE = [CHR 0x0A]"

definition BACKSLASH :: string where
  "BACKSLASH = [CHR 0x5C]"

definition QUOTE :: string where
  "QUOTE = [CHR 0x27]"

definition DOUBLE_QUOTE :: string where
  "DOUBLE_QUOTE = [CHR 0x22]"

definition peek_char :: "string list \<Rightarrow> string" where
  "peek_char cs = (case cs of [] \<Rightarrow> EOF_CHAR | c # _ \<Rightarrow> c)"

definition peek1th :: "string list \<Rightarrow> string" where
  "peek1th cs = peek_char (tl cs)"

definition bump_char :: "string list \<Rightarrow> string list" where
  "bump_char cs = tl cs"

lemma length_bump_char [termination_simp, simp]: "length (bump_char cs) < Suc (length cs)"
  by (simp add: bump_char_def)

text \<open>The bytes consumed since the start of the token.\<close>

definition len_consumed :: "string list \<Rightarrow> string list \<Rightarrow> nat" where
  "len_consumed start cs = length (concat start) - length (concat cs)"

fun eat_while :: "(string \<Rightarrow> bool) \<Rightarrow> string list \<Rightarrow> string list" where
  "eat_while f [] = []"
| "eat_while f (c # cs) = (if f c then eat_while f cs else c # cs)"

definition is_ascii :: "string \<Rightarrow> bool" where
  "is_ascii c = (case c of [b] \<Rightarrow> of_char b < (128 :: nat) | _ \<Rightarrow> False)"

definition in_range :: "char \<Rightarrow> char \<Rightarrow> string \<Rightarrow> bool" where
  "in_range a z c = (case c of [b] \<Rightarrow> of_char a \<le> (of_char b :: nat) \<and> of_char b \<le> (of_char z :: nat) | _ \<Rightarrow> False)"

abbreviation is_dec :: "string \<Rightarrow> bool" where
  "is_dec \<equiv> in_range CHR ''0'' CHR ''9''"

definition is_whitespace :: "string \<Rightarrow> bool" where
  "is_whitespace c =
     (c \<in> {[CHR 0x0B], [CHR 0x0C], [CHR 0x0D], [CHR 0xC2, CHR 0x85], [CHR 0xE2, CHR 0x80, CHR 0x8E],
           [CHR 0xE2, CHR 0x80, CHR 0x8F], [CHR 0xE2, CHR 0x80, CHR 0xA8], [CHR 0xE2, CHR 0x80, CHR 0xA9]})"

section \<open>Comments, strings and identifiers\<close>

definition try_comment_magic :: "string \<Rightarrow> bool" where
  "try_comment_magic c = (c = ''#'')"

definition eat_comment :: "string list \<Rightarrow> raw_kind \<times> string list" where
  "eat_comment cs = (RawLineComment (Some DocInner), eat_while (\<lambda>c. c \<noteq> NEWLINE) cs)"

definition try_string_magic :: "string \<Rightarrow> string list \<Rightarrow> bool" where
  "try_string_magic c cs =
     (if c = ''r'' \<or> c = ''R'' then peek_char cs = QUOTE \<or> peek_char cs = DOUBLE_QUOTE
      else c = QUOTE \<or> c = DOUBLE_QUOTE)"

text \<open>The loop of \<open>eat_quoted_string\<close>: whether the string was closed, and the characters after it.\<close>

fun quoted_loop :: "string \<Rightarrow> bool \<Rightarrow> string list \<Rightarrow> bool \<times> string list" where
  "quoted_loop quote triple [] = (False, [])"
| "quoted_loop quote triple (c # cs) =
     (if c = BACKSLASH \<and> (peek_char cs = BACKSLASH \<or> peek_char cs = quote) then quoted_loop quote triple (bump_char cs)
      else if c = quote then
        (if triple then
           (if quote = peek_char cs \<and> quote = peek1th cs then (True, bump_char (bump_char cs))
            else quoted_loop quote triple cs)
         else (True, cs))
      else if \<not> triple \<and> peek_char cs \<in> {[CHR 0x0D], NEWLINE, EOF_CHAR} then (False, cs)
      else quoted_loop quote triple cs)"

definition eat_quoted_string :: "string list \<Rightarrow> string \<Rightarrow> string list \<Rightarrow> raw_kind \<times> string list" where
  "eat_quoted_string start quote cs =
     (let triple = (quote = peek_char cs \<and> quote = peek1th cs);
          cs = (if triple then bump_char (bump_char cs) else cs);
          (closed, cs) = quoted_loop quote triple cs
      in (RawLiteral (StrKind closed (closed \<and> triple)) (len_consumed start cs), cs))"

definition eat_string :: "string list \<Rightarrow> string \<Rightarrow> string list \<Rightarrow> raw_kind \<times> string list" where
  "eat_string start c cs =
     (if c = ''r'' \<or> c = ''R'' then
        (if peek_char cs = QUOTE \<or> peek_char cs = DOUBLE_QUOTE
         then eat_quoted_string start (peek_char cs) (bump_char cs) else (RawUnknown, cs))
      else if c = QUOTE \<or> c = DOUBLE_QUOTE then eat_quoted_string start c cs
      else (RawUnknown, cs))"

definition try_ident_magic :: "char_lib \<Rightarrow> string \<Rightarrow> string list \<Rightarrow> bool" where
  "try_ident_magic lib c cs = (if c = ''$'' then is_id_start lib (peek_char cs) else is_id_start lib c)"

definition fake_ident_or_unknown_prefix :: "char_lib \<Rightarrow> string list \<Rightarrow> raw_kind \<times> string list" where
  "fake_ident_or_unknown_prefix lib cs =
     (RawInvalidIdent,
      eat_while (\<lambda>c. is_id_continue lib c \<or> (\<not> is_ascii c \<and> is_emoji lib c) \<or> c = [CHR 0xE2, CHR 0x80, CHR 0x8D]) cs)"

definition eat_ident :: "char_lib \<Rightarrow> string list \<Rightarrow> raw_kind \<times> string list" where
  "eat_ident lib cs =
     (let cs = eat_while (is_id_continue lib) cs in
      if \<not> is_ascii (peek_char cs) \<and> is_emoji lib (peek_char cs) then fake_ident_or_unknown_prefix lib cs
      else (RawIdent, cs))"

section \<open>Numbers\<close>

text \<open>The digits of a base with underscores; the flag tells whether there was a digit.\<close>

fun eat_digits :: "(string \<Rightarrow> bool) \<Rightarrow> bool \<Rightarrow> string list \<Rightarrow> bool \<times> string list" where
  "eat_digits digit has_digits [] = (has_digits, [])"
| "eat_digits digit has_digits (c # cs) =
     (if c = ''_'' then eat_digits digit has_digits cs
      else if digit c then eat_digits digit True cs
      else (has_digits, c # cs))"

definition eat_decimal_digits :: "string list \<Rightarrow> bool \<times> string list" where
  "eat_decimal_digits = eat_digits is_dec False"

definition eat_hexadecimal_digits :: "string list \<Rightarrow> bool \<times> string list" where
  "eat_hexadecimal_digits =
     eat_digits (\<lambda>c. is_dec c \<or> in_range CHR ''a'' CHR ''f'' c \<or> in_range CHR ''A'' CHR ''F'' c) False"

definition eat_float_exponent :: "string list \<Rightarrow> bool \<times> string list" where
  "eat_float_exponent cs =
     eat_decimal_digits (if peek_char cs = ''-'' \<or> peek_char cs = ''+'' then bump_char cs else cs)"

text \<open>The part of \<open>number\<close> after the digits of the integer part.\<close>

definition number_rest :: "char_lib \<Rightarrow> base \<Rightarrow> string list \<Rightarrow> literal_kind \<times> string list" where
  "number_rest lib base cs =
     (if peek_char cs = ''.'' \<and> peek1th cs \<noteq> ''.'' \<and> \<not> is_id_start lib (peek1th cs) then
        (let cs = bump_char cs in
         if is_dec (peek_char cs) then
           (let cs = snd (eat_decimal_digits cs) in
            if peek_char cs = ''e'' \<or> peek_char cs = ''E'' then
              (let (digits, cs) = eat_float_exponent (bump_char cs) in (FloatKind base (\<not> digits), cs))
            else (FloatKind base False, cs))
         else (FloatKind base False, cs))
      else if peek_char cs = ''e'' \<or> peek_char cs = ''E'' then
        (let (digits, cs) = eat_float_exponent (bump_char cs) in (FloatKind base (\<not> digits), cs))
      else (IntKind base False, cs))"

definition number :: "char_lib \<Rightarrow> string \<Rightarrow> string list \<Rightarrow> literal_kind \<times> string list" where
  "number lib first_digit cs =
     (if first_digit = ''0'' then
        (let c = peek_char cs in
         if c = ''b'' then
           (let (digits, cs) = eat_decimal_digits (bump_char cs) in
            if digits then number_rest lib BaseBinary cs else (IntKind BaseBinary True, cs))
         else if c = ''o'' \<or> is_dec c then
           (let (digits, cs) = eat_decimal_digits (bump_char cs) in
            if digits then number_rest lib BaseOctal cs else (IntKind BaseOctal True, cs))
         else if c = ''x'' then
           (let (digits, cs) = eat_hexadecimal_digits (bump_char cs) in
            if digits then number_rest lib BaseHexadecimal cs else (IntKind BaseHexadecimal True, cs))
         else if c \<in> {''_'', ''.'', ''e'', ''E''} then number_rest lib BaseDecimal (snd (eat_decimal_digits cs))
         else (IntKind BaseDecimal False, cs))
      else number_rest lib BaseDecimal (snd (eat_decimal_digits cs)))"

definition eat_lit_suffix :: "char_lib \<Rightarrow> string list \<Rightarrow> string list" where
  "eat_lit_suffix lib cs =
     (if \<not> is_id_start lib (peek_char cs) then cs else eat_while (is_id_continue lib) (bump_char cs))"


section \<open>Tokens\<close>

text \<open>An operator that the next character extends.\<close>

definition extended :: "string \<Rightarrow> raw_kind \<Rightarrow> raw_kind \<Rightarrow> string list \<Rightarrow> raw_kind \<times> string list" where
  "extended c long short cs = (if peek_char cs = c then (long, bump_char cs) else (short, cs))"

text \<open>The symbols, after the first character \<open>c\<close>.\<close>

definition symbol_token :: "char_lib \<Rightarrow> string \<Rightarrow> string list \<Rightarrow> raw_kind \<times> string list" where
  "symbol_token lib c cs =
     (if c = [CHR 0x09] then (RawTab, cs)
      else if c = '' '' then (RawSpace, cs)
      else if c = NEWLINE then (RawNewline, cs)
      else if c = '';'' then (RawSemi, cs)
      else if c = '','' then (RawComma, cs)
      else if c = ''.'' then
        (if peek_char cs = ''.'' \<and> peek1th cs = ''.'' then (RawDotDotDot, bump_char (bump_char cs)) else (RawDot, cs))
      else if c = ''('' then (RawOpenParen, cs)
      else if c = '')'' then (RawCloseParen, cs)
      else if c = ''{'' then (RawOpenBrace, cs)
      else if c = ''}'' then (RawCloseBrace, cs)
      else if c = ''['' then (RawOpenBracket, cs)
      else if c = '']'' then (RawCloseBracket, cs)
      else if c = ''@'' then (RawAt, cs)
      else if c = ''#'' then (RawPound, cs)
      else if c = ''~'' then (RawTilde, cs)
      else if c = ''?'' then (RawQuestion, cs)
      else if c = '':'' then (RawColon, cs)
      else if c = ''$'' then (RawDollar, cs)
      else if c = ''='' then extended ''='' RawEqEq RawEq cs
      else if c = ''!'' then extended ''='' RawBangEq RawBang cs
      else if c = ''<'' then
        (if peek_char cs = ''='' then (RawLtEq, bump_char cs)
         else if peek_char cs = ''<'' then extended ''='' RawLtLtEq RawLtLt (bump_char cs)
         else (RawLt, cs))
      else if c = ''>'' then
        (if peek_char cs = ''='' then (RawGtEq, bump_char cs)
         else if peek_char cs = ''>'' then extended ''='' RawGtGtEq RawGtGt (bump_char cs)
         else (RawGt, cs))
      else if c = ''-'' then extended ''='' RawMinusEq RawMinus cs
      else if c = ''&'' then extended ''='' RawAndEq RawAnd cs
      else if c = ''|'' then extended ''='' RawOrEq RawOr cs
      else if c = ''+'' then extended ''='' RawPlusEq RawPlus cs
      else if c = ''*'' then
        (if peek_char cs = ''*'' then extended ''='' RawStarStarEq RawStarStar (bump_char cs)
         else if peek_char cs = ''='' then (RawStarEq, bump_char cs)
         else (RawStar, cs))
      else if c = ''/'' then
        (if peek_char cs = ''/'' then extended ''='' RawSlashSlashEq RawSlashSlash (bump_char cs)
         else if peek_char cs = ''='' then (RawSlashEq, bump_char cs)
         else (RawSlash, cs))
      else if c = ''^'' then extended ''='' RawCaretEq RawCaret cs
      else if c = ''%'' then extended ''='' RawPercentEq RawPercent cs
      else if c = BACKSLASH then
        (if peek_char cs = NEWLINE then (RawLineContinue, bump_char cs)
         else if peek_char cs = EOF_CHAR then (RawLineContinue, cs)
         else (RawInvalidLineContinue, cs))
      else if \<not> is_ascii c \<and> is_emoji lib c then fake_ident_or_unknown_prefix lib cs
      else (RawUnknown, cs))"

text \<open>\<open>first_token\<close>: the kind of the first token, and the characters after it.\<close>

definition first_token :: "char_lib \<Rightarrow> string list \<Rightarrow> raw_kind \<times> string list" where
  "first_token lib start =
     (let c = peek_char start; cs = bump_char start in
      if try_comment_magic c then eat_comment cs
      else if is_whitespace c then (RawWhitespace, cs)
      else if try_string_magic c cs then eat_string start c cs
      else if try_ident_magic lib c cs then eat_ident lib cs
      else if is_dec c then
        (let (kind, cs) = number lib c cs in (RawLiteral kind (len_consumed start cs), eat_lit_suffix lib cs))
      else symbol_token lib c cs)"

section \<open>Every token takes its characters off the source\<close>

text \<open>\<open>tails cs ds\<close>: \<open>ds\<close> is what is left of \<open>cs\<close> after some characters.\<close>

definition tails :: "string list \<Rightarrow> string list \<Rightarrow> bool" where
  "tails cs ds = (\<exists>n. ds = drop n cs)"

lemma tails_refl [simp, intro]: "tails cs cs"
  unfolding tails_def by (rule exI [of _ 0]) simp

lemma tails_trans: "tails cs ds \<Longrightarrow> tails ds es \<Longrightarrow> tails cs es"
  by (auto simp: tails_def)

lemma tails_bump [intro]: "tails cs ds \<Longrightarrow> tails cs (bump_char ds)"
  unfolding tails_def bump_char_def by (metis drop_Suc drop_tl tl_drop)

lemma tails_Cons: "tails cs ds \<Longrightarrow> tails (c # cs) ds"
  unfolding tails_def by (metis drop_Suc_Cons)

lemma tails_eat_while [intro]: "tails cs ds \<Longrightarrow> tails cs (eat_while f ds)"
proof -
  have "tails ds (eat_while f ds)" by (induction ds) (auto intro: tails_Cons)
  then show "tails cs ds \<Longrightarrow> tails cs (eat_while f ds)" by (blast intro: tails_trans)
qed

lemma tails_quoted_loop: "tails cs (snd (quoted_loop quote triple cs))"
proof (induction quote triple cs rule: quoted_loop.induct)
  case (2 quote triple c cs)
  have "tails cs (snd (quoted_loop quote triple (bump_char cs)))"
    if "c = BACKSLASH \<and> (peek_char cs = BACKSLASH \<or> peek_char cs = quote)"
    using 2(1) [OF that] by (meson tails_bump tails_refl tails_trans)
  with 2 show ?case by (auto intro!: tails_Cons)
qed simp

lemma tails_eat_digits: "tails cs (snd (eat_digits digit b cs))"
  by (induction digit b cs rule: eat_digits.induct) (auto intro: tails_Cons)

lemma tails_snd [intro]:
  "tails cs ds \<Longrightarrow> tails cs (snd (eat_decimal_digits ds))"
  "tails cs ds \<Longrightarrow> tails cs (snd (eat_hexadecimal_digits ds))"
  "tails cs ds \<Longrightarrow> tails cs (snd (eat_float_exponent ds))"
  unfolding eat_decimal_digits_def eat_hexadecimal_digits_def eat_float_exponent_def
  by (auto intro!: tails_trans [OF _ tails_eat_digits])

lemma tails_number_rest [intro]: "tails cs ds \<Longrightarrow> tails cs (snd (number_rest lib b ds))"
  by (auto simp: number_rest_def Let_def split: prod.split)
    (metis tails_snd(1,3) tails_bump snd_conv)+

lemma tails_number [intro]: "tails cs ds \<Longrightarrow> tails cs (snd (number lib c ds))"
  by (auto simp: number_def Let_def split: prod.split) (metis tails_snd(1,2) tails_bump tails_number_rest snd_conv)+


lemma tails_eat_ident: "tails cs ds \<Longrightarrow> tails cs (snd (eat_ident lib ds))"
  by (auto simp: eat_ident_def fake_ident_or_unknown_prefix_def Let_def)

lemma tails_eat_string: "tails cs ds \<Longrightarrow> tails cs (snd (eat_string start c ds))"
proof -
  assume ds: "tails cs ds"
  have "tails cs es \<Longrightarrow> tails cs (snd (eat_quoted_string start q es))" for q es
    using tails_trans [OF _ tails_quoted_loop] by (simp add: eat_quoted_string_def Let_def split: prod.split) (metis snd_conv tails_bump)
  with ds show ?thesis by (auto simp: eat_string_def)
qed

lemma tails_symbol: "tails cs ds \<Longrightarrow> tails cs (snd (symbol_token lib c ds))"
proof -
  assume ds: "tails cs ds"
  have ext: "tails cs es \<Longrightarrow> tails cs (snd (extended d l k es))" for d l k es by (auto simp: extended_def)
  have bumps: "tails cs (bump_char ds)" "tails cs (bump_char (bump_char ds))" using ds by blast+
  show ?thesis
    unfolding symbol_token_def fake_ident_or_unknown_prefix_def
    by (simp only: if_distrib [of snd] snd_conv) (simp add: ds ext bumps tails_eat_while)
qed

lemma first_token_tails: "tails (bump_char start) (snd (first_token lib start))"
  unfolding first_token_def Let_def eat_comment_def
  by (auto simp: eat_lit_suffix_def tails_eat_ident tails_eat_string tails_symbol split: prod.split)
    (metis snd_conv tails_bump tails_eat_while tails_number tails_refl)+

lemma first_token_splits:
  assumes "start \<noteq> []" "first_token lib start = (k, rest)"
  shows "\<exists>c cs. start = c # cs @ rest"
proof -
  obtain c ds where start: "start = c # ds" using assms(1) by (cases start) auto
  then obtain n where "rest = drop n ds"
    using first_token_tails [of start lib] assms(2) by (auto simp: tails_def bump_char_def)
  then have "start = c # take n ds @ rest" using start by simp
  then show ?thesis by blast
qed

lemma first_token_shorter: "start \<noteq> [] \<Longrightarrow> (k, rest) = first_token lib start \<Longrightarrow> length rest < length start"
  using first_token_splits [of start lib k rest] by auto

text \<open>\<open>tokenize\<close>: the kinds of the tokens with their characters.\<close>

function tokenize :: "char_lib \<Rightarrow> string list \<Rightarrow> (raw_kind \<times> string list) list" where
  "tokenize lib start =
     (if start = [] then []
      else (case first_token lib start of (k, rest) \<Rightarrow>
        (k, take (length start - length rest) start) # tokenize lib rest))"
  by pat_completeness auto
termination
  by (relation "measure (\<lambda>(lib, cs). length cs)") (auto intro: first_token_shorter)

declare tokenize.simps [simp del]

lemma tokenize_simps [simp]:
  "tokenize lib [] = []"
  "first_token lib (c # cs @ rest) = (k, rest) \<Longrightarrow> tokenize lib (c # cs @ rest) = (k, c # cs) # tokenize lib rest"
  by (subst tokenize.simps; simp)+


end
