(* ===== verification/Lexer.thy ===== *)
theory Lexer
  imports LexerRaw ParserExpr
begin

text \<open>
  The KCL lexer (\<open>parser/src/lexer\<close>): the mapping of low-level tokens to the tokens of the parser, the
  stack of delimiters, the stack of indentation levels, the evaluation of string literals and the checks of
  numbers. A stack is a list with its top first. Source positions are left out; an error message keeps its text.
\<close>

section \<open>String literals\<close>

text \<open>The UTF-8 encoding of a code point (\<open>String::push\<close>).\<close>

definition utf8_encode :: "nat \<Rightarrow> string" where
  "utf8_encode n =
     (if n < 128 then [char_of n]
      else if n < 2048 then [char_of (192 + n div 64), char_of (128 + n mod 64)]
      else if n < 65536 then [char_of (224 + n div 4096), char_of (128 + n div 64 mod 64), char_of (128 + n mod 64)]
      else [char_of (240 + n div 262144), char_of (128 + n div 4096 mod 64), char_of (128 + n div 64 mod 64),
            char_of (128 + n mod 64)])"

definition char_to_digit :: "nat \<Rightarrow> string \<Rightarrow> nat option" where
  "char_to_digit radix c =
     (case c of
        [b] \<Rightarrow> (case to_digit b of Some d \<Rightarrow> if d < radix then Some d else None | None \<Rightarrow> None)
      | _ \<Rightarrow> None)"

text \<open>The loop over the digits; \<open>p\<close> is the number read so far.\<close>

fun unicode_digits :: "nat \<Rightarrow> nat \<Rightarrow> string list \<Rightarrow> (nat \<times> string list) option" where
  "unicode_digits 0 p cs = Some (p, cs)"
| "unicode_digits (Suc k) p [] = None"
| "unicode_digits (Suc k) p (c # cs) =
     (case char_to_digit 16 c of Some d \<Rightarrow> unicode_digits k (p + d * 16 ^ k) cs | None \<Rightarrow> None)"

definition unicode_literal :: "nat \<Rightarrow> string list \<Rightarrow> (string \<times> string list) option" where
  "unicode_literal literal_number cs =
     (case unicode_digits literal_number 0 cs of
        None \<Rightarrow> None
      | Some (p, cs) \<Rightarrow>
          if 0xD800 \<le> p \<and> p \<le> 0xDFFF then Some (utf8_encode 0xFFFD, cs)
          else if p \<le> 0x10FFFF then Some (utf8_encode p, cs)
          else None)"

text \<open>The loop of \<open>parse_octet\<close> takes the character that ends it off the input.\<close>

fun octet_digits :: "nat \<Rightarrow> nat \<Rightarrow> string list \<Rightarrow> nat \<times> string list" where
  "octet_digits 0 v cs = (v, cs)"
| "octet_digits (Suc k) v [] = (v, [])"
| "octet_digits (Suc k) v (c # cs) =
     (case char_to_digit 8 c of Some d \<Rightarrow> octet_digits k (8 * v + d) cs | None \<Rightarrow> (v, cs))"

definition parse_octet :: "nat \<Rightarrow> string list \<Rightarrow> string \<times> string list" where
  "parse_octet first cs = (case octet_digits 2 first cs of (v, cs) \<Rightarrow> (utf8_encode v, cs))"

fun name_until_brace :: "string \<Rightarrow> string list \<Rightarrow> (string \<times> string list) option" where
  "name_until_brace name [] = None"
| "name_until_brace name (c # cs) = (if c = ''}'' then Some (name, cs) else name_until_brace (name @ c) cs)"

definition parse_unicode_name :: "char_lib \<Rightarrow> string list \<Rightarrow> (string \<times> string list) option" where
  "parse_unicode_name lib cs =
     (if peek_char cs = ''{'' then
        (case name_until_brace [] (bump_char cs) of
           None \<Rightarrow> None
         | Some (name, cs) \<Rightarrow> map_option (\<lambda>c. (c, cs)) (unicode_character lib name))
      else None)"

text \<open>What an escape stands for, and the characters after it; \<open>c\<close> is the character after the backslash.\<close>

definition escape :: "char_lib \<Rightarrow> bool \<Rightarrow> string \<Rightarrow> string list \<Rightarrow> (string \<times> string list) option" where
  "escape lib is_bytes c cs =
     (if c = BACKSLASH then Some (BACKSLASH, cs)
      else if c = QUOTE then Some (QUOTE, cs)
      else if c = DOUBLE_QUOTE then Some (DOUBLE_QUOTE, cs)
      else if c = NEWLINE then Some ([], cs)
      else if c = ''a'' then Some ([CHR 0x07], cs)
      else if c = ''b'' then Some ([CHR 0x08], cs)
      else if c = ''f'' then Some ([CHR 0x0C], cs)
      else if c = ''n'' then Some ([CHR 0x0A], cs)
      else if c = ''r'' then Some ([CHR 0x0D], cs)
      else if c = ''t'' then Some ([CHR 0x09], cs)
      else if c = ''v'' then Some ([CHR 0x0B], cs)
      else case char_to_digit 8 c of
          Some d \<Rightarrow> Some (parse_octet d cs)
        | None \<Rightarrow>
            if c = ''x'' then unicode_literal 2 cs
            else if c = ''u'' \<and> \<not> is_bytes then unicode_literal 4 cs
            else if c = ''U'' \<and> \<not> is_bytes then unicode_literal 8 cs
            else if c = ''N'' \<and> \<not> is_bytes then parse_unicode_name lib cs
            else Some (BACKSLASH @ c, cs))"

lemma unicode_digits_shorter: "unicode_digits k p cs = Some (q, ds) \<Longrightarrow> length ds \<le> length cs"
  by (induction k p cs rule: unicode_digits.induct) (auto split: option.splits)

lemma octet_digits_shorter: "octet_digits k v cs = (w, ds) \<Longrightarrow> length ds \<le> length cs"
  by (induction k v cs rule: octet_digits.induct) (auto split: option.splits)

lemma name_until_brace_shorter: "name_until_brace n cs = Some (m, ds) \<Longrightarrow> length ds \<le> length cs"
  by (induction n cs rule: name_until_brace.induct) (auto split: if_splits)

definition no_longer :: "string list \<Rightarrow> (string \<times> string list) option \<Rightarrow> bool" where
  "no_longer cs r = (case r of Some (_, ds) \<Rightarrow> length ds \<le> length cs | None \<Rightarrow> True)"

lemma no_longer_if: "no_longer cs r \<Longrightarrow> no_longer cs s \<Longrightarrow> no_longer cs (if b then r else s)"
  by simp

lemma no_longer_case: "(\<And>x. no_longer cs (f x)) \<Longrightarrow> no_longer cs r \<Longrightarrow> no_longer cs (case y of None \<Rightarrow> r | Some x \<Rightarrow> f x)"
  by (cases y) simp_all

lemma no_longer_Some: "no_longer cs (Some (s, cs))"
  by (simp add: no_longer_def)

lemma no_longer_literals:
  "no_longer cs (unicode_literal k cs)"
  "no_longer cs (Some (parse_octet d cs))"
  "no_longer cs (parse_unicode_name lib cs)"
proof -
  show "no_longer cs (unicode_literal k cs)"
  proof (cases "unicode_digits k 0 cs")
    case (Some r)
    obtain p ds where "r = (p, ds)" by (cases r)
    with Some unicode_digits_shorter [of k 0 cs p ds] show ?thesis by (simp add: no_longer_def unicode_literal_def)
  qed (simp add: no_longer_def unicode_literal_def)
  show "no_longer cs (Some (parse_octet d cs))"
    using octet_digits_shorter [of 2 d cs] by (simp add: no_longer_def parse_octet_def split: prod.split)
  show "no_longer cs (parse_unicode_name lib cs)"
  proof (cases "name_until_brace [] (bump_char cs)")
    case (Some r)
    obtain name ds where "r = (name, ds)" by (cases r)
    with Some name_until_brace_shorter [of "[]" "bump_char cs" name ds] length_bump_char [of cs] show ?thesis
      by (cases "unicode_character lib name") (auto simp: no_longer_def parse_unicode_name_def bump_char_def)
  qed (simp add: no_longer_def parse_unicode_name_def)
qed

lemma escape_no_longer: "no_longer cs (escape lib b c cs)"
  unfolding escape_def by (intro no_longer_if no_longer_case no_longer_Some no_longer_literals)

lemma escape_shorter: "escape lib b c cs = Some (s, ds) \<Longrightarrow> length ds \<le> length cs"
  using escape_no_longer [of cs lib b c] by (simp add: no_longer_def)

function content_eval :: "char_lib \<Rightarrow> string \<Rightarrow> bool \<Rightarrow> bool \<Rightarrow> bool \<Rightarrow> string \<Rightarrow> string list \<Rightarrow> string option" where
  "content_eval lib quote_char triple_quoted is_bytes is_raw out [] = Some out"
| "content_eval lib quote_char triple_quoted is_bytes is_raw out (c # cs) =
     (if c = BACKSLASH then
        (if cs \<noteq> [] \<and> hd cs = quote_char \<and> \<not> is_raw then
           content_eval lib quote_char triple_quoted is_bytes is_raw (out @ quote_char) (tl cs)
         else if is_raw then
           (if cs \<noteq> [] then content_eval lib quote_char triple_quoted is_bytes is_raw (out @ BACKSLASH @ hd cs) (tl cs)
            else None)
         else if cs = [] then None
         else (case escape lib is_bytes (hd cs) (tl cs) of
             None \<Rightarrow> None
           | Some (s, ds) \<Rightarrow> content_eval lib quote_char triple_quoted is_bytes is_raw (out @ s) ds))
      else if (c = NEWLINE \<and> \<not> triple_quoted) \<or> (is_bytes \<and> \<not> is_ascii c) then None
      else content_eval lib quote_char triple_quoted is_bytes is_raw (out @ c) cs)"
  by pat_completeness auto
termination
  by (relation "measure (\<lambda>(lib, q, t, b, r, out, cs). length cs)") (auto dest!: escape_shorter)

definition str_content_eval :: "char_lib \<Rightarrow> string list \<Rightarrow> string \<Rightarrow> bool \<Rightarrow> bool \<Rightarrow> bool \<Rightarrow> string option" where
  "str_content_eval lib string_content quote_char triple_quoted is_bytes is_raw =
     content_eval lib quote_char triple_quoted is_bytes is_raw [] string_content"

section \<open>Indentation\<close>

record indent_level =
  level_tabs :: nat
  level_spaces :: nat

definition default_level :: indent_level where
  "default_level = \<lparr>level_tabs = 0, level_spaces = 0\<rparr>"

text \<open>\<open>None\<close> is the error "inconsistent use of tabs and spaces in indentation".\<close>

definition nat_cmp :: "nat \<Rightarrow> nat \<Rightarrow> ordering" where
  "nat_cmp a b = (if a < b then Less else if a = b then Equal else Greater)"

definition indent_cmp :: "indent_level \<Rightarrow> indent_level \<Rightarrow> ordering option" where
  "indent_cmp self other =
     (case nat_cmp (level_tabs self) (level_tabs other) of
        Less \<Rightarrow> if level_spaces self \<le> level_spaces other then Some Less else None
      | Greater \<Rightarrow> if level_spaces self \<ge> level_spaces other then Some Greater else None
      | Equal \<Rightarrow> Some (nat_cmp (level_spaces self) (level_spaces other)))"

datatype indent_or_dedents = IndentToken token | DedentTokens "token list"

record lexer =
  new_line_beginning :: bool
  delims :: "delim_token list"
  lx_tabs :: nat
  lx_spaces :: nat
  indents :: "indent_level list"
  messages :: "string list"
  lx_buf :: "token list"

definition lex_error :: "string \<Rightarrow> lexer \<Rightarrow> lexer" where
  "lex_error msg lx = lx\<lparr>messages := messages lx @ [msg]\<rparr>"

definition INCONSISTENT :: string where
  "INCONSISTENT = ''inconsistent use of tabs and spaces in indentation''"

text \<open>An empty stack gets the default level back for error recovery.\<close>

definition last_indent :: "lexer \<Rightarrow> indent_level \<times> lexer" where
  "last_indent lx =
     (case indents lx of
        [] \<Rightarrow> (default_level, (lex_error ''mismatched indent level'' lx)\<lparr>indents := [default_level]\<rparr>)
      | level # _ \<Rightarrow> (level, lx))"

text \<open>
  The loop over the dedents: the tokens, the stack and the messages. \<open>popped\<close> are the levels taken off the stack,
  the last one first. On an empty stack the loop compares with the default level, which no level is below.
\<close>

fun dedent_loop :: "indent_level \<Rightarrow> indent_level list \<Rightarrow> indent_level list \<Rightarrow> token list \<Rightarrow>
    token list \<times> indent_level list \<times> string list" where
  "dedent_loop indent [] popped dedents =
     (case indent_cmp indent default_level of
        Some Greater \<Rightarrow>
          (butlast dedents @ [Dedent (level_spaces indent)], take 1 popped @ [default_level], [''mismatched indent level''])
      | _ \<Rightarrow> (dedents, [default_level], [''mismatched indent level'']))"
| "dedent_loop indent (cur # stack) popped dedents =
     (case indent_cmp indent cur of
        None \<Rightarrow> (dedents, cur # stack, [INCONSISTENT])
      | Some Less \<Rightarrow> dedent_loop indent stack (cur # popped) (dedents @ [Dedent 0])
      | Some Equal \<Rightarrow> (dedents, cur # stack, [])
      | Some Greater \<Rightarrow>
          (butlast dedents @ [Dedent (level_spaces indent - level_spaces cur)], take 1 popped @ cur # stack, []))"

definition lex_indent :: "lexer \<Rightarrow> indent_or_dedents option \<times> lexer" where
  "lex_indent lx =
     (let indent = \<lparr>level_tabs = lx_tabs lx, level_spaces = lx_spaces lx\<rparr>;
          (cur, lx) = last_indent (lx\<lparr>lx_tabs := 0, lx_spaces := 0\<rparr>)
      in case indent_cmp indent cur of
           None \<Rightarrow> (None, lex_error INCONSISTENT lx)
         | Some Greater \<Rightarrow> (Some (IndentToken (Indent 0)), lx\<lparr>indents := indent # indents lx\<rparr>)
         | Some Less \<Rightarrow>
             (case dedent_loop indent (indents lx) [] [] of (dedents, stack, msgs) \<Rightarrow>
                (Some (DedentTokens dedents), lx\<lparr>indents := stack, messages := messages lx @ msgs\<rparr>))
         | Some Equal \<Rightarrow> (None, lx))"

definition lex_indent_context :: "raw_kind \<Rightarrow> lexer \<Rightarrow> indent_or_dedents option \<times> lexer" where
  "lex_indent_context k lx =
     (if \<not> new_line_beginning lx then (None, lx)
      else case k of
          RawLineComment _ \<Rightarrow> (None, lx\<lparr>lx_tabs := 0, lx_spaces := 0\<rparr>)
        | RawNewline \<Rightarrow> (None, lx\<lparr>lx_tabs := 0, lx_spaces := 0\<rparr>)
        | RawTab \<Rightarrow> (None, lx\<lparr>lx_tabs := Suc (lx_tabs lx)\<rparr>)
        | RawSpace \<Rightarrow> (None, lx\<lparr>lx_spaces := Suc (lx_spaces lx)\<rparr>)
        | _ \<Rightarrow> lex_indent (lx\<lparr>new_line_beginning := False\<rparr>))"

section \<open>Tokens\<close>

text \<open>A closing delimiter closes the innermost open one, whatever its kind; a wrong kind is an error.\<close>

definition close_delim :: "delim_token \<Rightarrow> string \<Rightarrow> lexer \<Rightarrow> token \<times> lexer" where
  "close_delim d msg lx =
     (case delims lx of
        [] \<Rightarrow> (CloseDelim d, lex_error msg lx)
      | e # rest \<Rightarrow> (CloseDelim e, (if e = d then lx else lex_error msg lx)\<lparr>delims := rest\<rparr>))"

definition open_delim :: "delim_token \<Rightarrow> lexer \<Rightarrow> token \<times> lexer" where
  "open_delim d lx = (OpenDelim d, lx\<lparr>delims := d # delims lx\<rparr>)"

text \<open>The base of a literal, and the check of its digits, from the third byte on.\<close>

fun base_radix :: "base \<Rightarrow> nat option" where
  "base_radix BaseBinary = Some 2"
| "base_radix BaseOctal = Some 8"
| "base_radix BaseHexadecimal = Some 16"
| "base_radix BaseDecimal = None"

definition validate_literal_int :: "base \<Rightarrow> string \<Rightarrow> bool" where
  "validate_literal_int b digits =
     (case base_radix b of
        None \<Rightarrow> True
      | Some r \<Rightarrow> list_all (\<lambda>c. c = ''_'' \<or> char_to_digit r c \<noteq> None) (str_chars (drop 2 digits)))"

fun describe :: "base \<Rightarrow> string" where
  "describe BaseBinary = ''binary''"
| "describe BaseOctal = ''octal''"
| "describe BaseHexadecimal = ''hexadecimal''"
| "describe BaseDecimal = ''decimal''"

text \<open>The message of the check of a float.\<close>

definition validate_literal_float :: "base \<Rightarrow> bool \<Rightarrow> string option" where
  "validate_literal_float b empty_exponent =
     (if empty_exponent then Some ''expected at least one digit in exponent''
      else if b = BaseDecimal then None
      else Some (describe b @ '' float literal is not supported''))"

definition all_names :: "string list" where
  "all_names = [''n'', ''u'', ''m'', ''k'', ''K'', ''M'', ''G'', ''T'', ''P'', ''Ki'', ''Mi'', ''Gi'', ''Ti'', ''Pi'', ''i'']"

text \<open>
  A literal from its bytes \<open>text\<close>; \<open>suffix_start\<close> is the offset of the suffix. The messages come with it. The message
  of a wrong digit names the base and positions, which are left out.
\<close>

definition lex_string :: "char_lib \<Rightarrow> string \<Rightarrow> nat \<Rightarrow> bool \<Rightarrow> bool \<Rightarrow> lit \<times> string list" where
  "lex_string lib text suffix_start terminated triple_quoted =
     (let is_raw = (take 1 text = ''r'' \<or> take 1 text = ''R'');
          quote_char = (if is_raw then take 1 (drop 1 text) else take 1 text);
          offset = (if triple_quoted then if is_raw then 4 else 3 else if is_raw then 2 else 1);
          content_end = suffix_start - offset + (if is_raw then 1 else 0)
            + (if terminated then 0 else if triple_quoted then 3 else 1);
          msgs = (if terminated then [] else [''unterminated string'']);
          (value, msgs) =
            (if content_end < offset then ([], msgs @ [''invalid string syntax''])
             else case str_content_eval lib (str_chars (drop offset (take content_end text))) quote_char triple_quoted False is_raw of
                 Some v \<Rightarrow> (v, msgs)
               | None \<Rightarrow> ([], msgs @ [''invalid string syntax'']))
      in (Lit (LitStr triple_quoted is_raw) value None (Some (take suffix_start text)), msgs))"

definition lex_int :: "base \<Rightarrow> bool \<Rightarrow> string \<Rightarrow> nat \<Rightarrow> lit \<times> string list" where
  "lex_int b empty_int text suffix_start =
     (if empty_int then (Lit LitInteger ''0'' None None, [''no valid digits found for number''])
      else
        (let digits = take suffix_start text;
             (symbol, msgs) =
               (if validate_literal_int b digits then (digits, []) else (''0'', [''invalid digit for a base literal'']));
             suffix_str = drop suffix_start text
         in if suffix_str = [] then (Lit LitInteger symbol None None, msgs)
            else if suffix_str \<in> set all_names then (Lit LitInteger symbol (Some suffix_str) None, msgs)
            else (Lit LitInteger symbol None None, msgs @ [''invalid int binary suffix''])))"

fun lex_literal :: "char_lib \<Rightarrow> literal_kind \<Rightarrow> nat \<Rightarrow> string \<Rightarrow> lit \<times> string list" where
  "lex_literal lib (StrKind terminated triple_quoted) suffix_start text =
     lex_string lib text suffix_start terminated triple_quoted"
| "lex_literal lib (IntKind b empty_int) suffix_start text = lex_int b empty_int text suffix_start"
| "lex_literal lib (FloatKind b empty_exponent) suffix_start text =
     (case validate_literal_float b empty_exponent of
        None \<Rightarrow> (Lit LitFloat (take suffix_start text) None None, [])
      | Some msg \<Rightarrow> (Lit LitFloat ''0'' None None, [msg]))"
| "lex_literal lib (BoolKind _) suffix_start text = (Lit LitBool (take suffix_start text) None None, [])"

text \<open>The kinds that map to one token.\<close>

definition plain_tokens :: "(raw_kind \<times> token) list" where
  "plain_tokens =
     [(RawTilde, UnaryOpTok UTilde), (RawPlus, BinOpTok Plus), (RawMinus, BinOpTok Minus), (RawStar, BinOpTok Star),
      (RawSlash, BinOpTok Slash), (RawPercent, BinOpTok Percent), (RawStarStar, BinOpTok StarStar),
      (RawSlashSlash, BinOpTok SlashSlash), (RawCaret, BinOpTok Caret), (RawAnd, BinOpTok AndTok),
      (RawOr, BinOpTok OrTok), (RawLtLt, BinOpTok Shl), (RawGtGt, BinOpTok Shr), (RawPlusEq, BinOpEqTok Plus),
      (RawMinusEq, BinOpEqTok Minus), (RawStarEq, BinOpEqTok Star), (RawSlashEq, BinOpEqTok Slash),
      (RawPercentEq, BinOpEqTok Percent), (RawStarStarEq, BinOpEqTok StarStar),
      (RawSlashSlashEq, BinOpEqTok SlashSlash), (RawCaretEq, BinOpEqTok Caret), (RawAndEq, BinOpEqTok AndTok),
      (RawOrEq, BinOpEqTok OrTok), (RawLtLtEq, BinOpEqTok Shl), (RawGtGtEq, BinOpEqTok Shr),
      (RawEqEq, BinCmpTok EqTok), (RawBangEq, BinCmpTok NotEqTok), (RawLt, BinCmpTok LtTok),
      (RawLtEq, BinCmpTok LtEqTok), (RawGtEq, BinCmpTok GtEqTok), (RawAt, At), (RawDot, Dot),
      (RawDotDotDot, DotDotDot), (RawComma, Comma), (RawColon, Colon), (RawDollar, Dollar),
      (RawQuestion, Question), (RawEq, Assign)]"

text \<open>\<open>look_behind\<close>: a minus before \<open>>\<close> is taken off the buffer.\<close>

definition look_behind :: "lexer \<Rightarrow> token \<times> lexer" where
  "look_behind lx =
     (if lx_buf lx \<noteq> [] \<and> last (lx_buf lx) = BinOpTok Minus then (RArrow, lx\<lparr>lx_buf := butlast (lx_buf lx)\<rparr>)
      else (BinCmpTok GtTok, lx))"

definition some_token :: "token \<times> lexer \<Rightarrow> token option \<times> lexer" where
  "some_token r = (Some (fst r), snd r)"

definition lex_token :: "char_lib \<Rightarrow> raw_kind \<Rightarrow> string \<Rightarrow> lexer \<Rightarrow> token option \<times> lexer" where
  "lex_token lib k text lx =
     (case k of
        RawLineComment _ \<Rightarrow> (Some (DocComment text), lx)
      | RawNewline \<Rightarrow> (Some Newline, lx\<lparr>new_line_beginning := True\<rparr>)
      | RawTab \<Rightarrow> (None, lx)
      | RawSpace \<Rightarrow> (None, lx)
      | RawCarriageReturn \<Rightarrow> (None, lx)
      | RawWhitespace \<Rightarrow> (None, lx)
      | RawIdent \<Rightarrow> (Some (Ident text), lx)
      | RawLiteral kind suffix_start \<Rightarrow>
          (case lex_literal lib kind suffix_start text of (l, msgs) \<Rightarrow>
             (Some (Literal l), lx\<lparr>messages := messages lx @ msgs\<rparr>))
      | RawBang \<Rightarrow> (Some (UnaryOpTok UNot), lex_error ''InvalidTokenNot'' lx)
      | RawGt \<Rightarrow> some_token (look_behind lx)
      | RawOpenParen \<Rightarrow> some_token (open_delim ParenDelim lx)
      | RawOpenBrace \<Rightarrow> some_token (open_delim BraceDelim lx)
      | RawOpenBracket \<Rightarrow> some_token (open_delim BracketDelim lx)
      | RawCloseParen \<Rightarrow> some_token (close_delim ParenDelim ''error nesting on close paren'' lx)
      | RawCloseBrace \<Rightarrow> some_token (close_delim BraceDelim ''error nesting on close brace'' lx)
      | RawCloseBracket \<Rightarrow> some_token (close_delim BracketDelim ''mismatched closing delimiter'' lx)
      | RawLineContinue \<Rightarrow> (None, lx)
      | RawInvalidLineContinue \<Rightarrow> (None, lex_error ''CharAfterLineContinuationToken'' lx)
      | RawSemi \<Rightarrow> (None, lex_error ''RedundantSemicolon'' lx)
      | _ \<Rightarrow>
          (case map_of plain_tokens k of
             Some t \<Rightarrow> (Some t, lx)
           | None \<Rightarrow> (None, lex_error ''unknown start of token'' lx)))"

fun indent_tokens :: "indent_or_dedents option \<Rightarrow> token list" where
  "indent_tokens None = []"
| "indent_tokens (Some (IndentToken t)) = [t]"
| "indent_tokens (Some (DedentTokens ts)) = ts"

text \<open>
  One round of \<open>token\<close> with \<open>append_to\<close>: the indentation is worked out before the token, and goes into the buffer
  only with a token.
\<close>

definition lex_step :: "char_lib \<Rightarrow> raw_kind \<times> string list \<Rightarrow> lexer \<Rightarrow> lexer" where
  "lex_step lib raw lx =
     (let (indent, lx) = lex_indent_context (fst raw) lx;
          (tok, lx) = lex_token lib (fst raw) (concat (snd raw)) lx
      in case tok of
           None \<Rightarrow> lx
         | Some t \<Rightarrow> lx\<lparr>lx_buf := lx_buf lx @ indent_tokens indent @ [t]\<rparr>)"

definition lex_eof :: "lexer \<Rightarrow> lexer" where
  "lex_eof lx =
     lx\<lparr>new_line_beginning := True, indents := drop (length (indents lx) - 1) (indents lx),
        lx_buf := lx_buf lx @ (if new_line_beginning lx then [] else [Newline]) @
          replicate (length (indents lx) - 1) (Dedent 0) @ [Eof]\<rparr>"

definition initial_lexer :: lexer where
  "initial_lexer = \<lparr>new_line_beginning = False, delims = [], lx_tabs = 0, lx_spaces = 0, indents = [default_level],
     messages = [], lx_buf = []\<rparr>"

text \<open>The low-level tokens are read one after the other from the rest of the source, as \<open>tokenize\<close> does.\<close>

definition parse_token_streams :: "char_lib \<Rightarrow> string list \<Rightarrow> lexer" where
  "parse_token_streams lib src = lex_eof (fold (lex_step lib) (tokenize lib src) initial_lexer)"

end
