(* ===== verification/LexerNest.thy ===== *)
theory LexerNest
  imports Lexer
begin

text \<open>
  What the lexer promises the parser: every indentation it opens it closes again, whatever the source does with its
  lines, and the delimiters of a source without errors nest.
\<close>

section \<open>Nesting of indentation\<close>

text \<open>
  The depth after a list of tokens; \<open>None\<close> when a block is closed that is not open. A dedent to a level that was
  never opened (\<open>Dedent n\<close> with \<open>n > 0\<close>) leaves the block open.
\<close>

fun nesting :: "nat \<Rightarrow> token list \<Rightarrow> nat option" where
  "nesting d [] = Some d"
| "nesting d (Indent n # ts) = nesting (Suc d) ts"
| "nesting d (Dedent n # ts) = (if n = 0 then if d = 0 then None else nesting (d - 1) ts else nesting d ts)"
| "nesting d (t # ts) = nesting d ts"

lemma nesting_append: "nesting d (ts @ us) = (case nesting d ts of None \<Rightarrow> None | Some e \<Rightarrow> nesting e us)"
  by (induction d ts rule: nesting.induct) auto

definition is_block_token :: "token \<Rightarrow> bool" where
  "is_block_token t = (case t of Indent _ \<Rightarrow> True | Dedent _ \<Rightarrow> True | _ \<Rightarrow> False)"

lemma nesting_other: "\<not> is_block_token t \<Longrightarrow> nesting d (t # ts) = nesting d ts"
  by (cases t) (simp_all add: is_block_token_def)

lemma nesting_dedents: "k \<le> d \<Longrightarrow> nesting d (replicate k (Dedent 0)) = Some (d - k)"
  by (induction k arbitrary: d) auto

text \<open>
  The levels of a source indented with spaces: no level is below the default one, so the bottom of the stack stays.
\<close>

definition stack_ok :: "indent_level list \<Rightarrow> bool" where
  "stack_ok stack = (stack \<noteq> [] \<and> last stack = default_level \<and> (\<forall>l \<in> set stack. level_tabs l = 0))"

lemma cmp_spaces:
  "level_tabs l = 0 \<Longrightarrow> level_tabs m = 0 \<Longrightarrow> indent_cmp l m = Some (nat_cmp (level_spaces l) (level_spaces m))"
  by (simp add: indent_cmp_def nat_cmp_def)

lemma stack_ok_Cons:
  "stack_ok (l # stack) \<longleftrightarrow> level_tabs l = 0 \<and> (if stack = [] then l = default_level else stack_ok stack)"
  by (auto simp: stack_ok_def default_level_def)

lemma dedent_loop_balanced:
  assumes "stack_ok stack" "level_tabs indent = 0" "\<forall>l \<in> set popped. level_tabs l = 0"
    "dedents = replicate (length popped) (Dedent 0)" "popped \<noteq> [] \<or> indent_cmp indent (hd stack) = Some Less"
    "dedent_loop indent stack popped dedents = (ts, stack', msgs)"
  shows "stack_ok stack' \<and> nesting (length stack + length popped - 1) ts = Some (length stack' - 1)"
  using assms
proof (induction indent stack popped dedents rule: dedent_loop.induct)
  case (1 indent popped dedents)
  then show ?case by (simp add: stack_ok_def)
next
  case (2 indent cur stack popped dedents)
  have cur: "level_tabs cur = 0" using 2(2) by (simp add: stack_ok_Cons)
  have cmp: "indent_cmp indent cur = Some (nat_cmp (level_spaces indent) (level_spaces cur))"
    using cmp_spaces [OF 2(3) cur] .
  consider (lt) "level_spaces indent < level_spaces cur" | (eq) "level_spaces indent = level_spaces cur"
    | (gt) "level_spaces cur < level_spaces indent" by linarith
  then show ?case
  proof cases
    case lt
    then have less: "indent_cmp indent cur = Some Less" by (simp add: cmp nat_cmp_def)
    have "stack_ok stack" using 2(2) lt by (auto simp: stack_ok_Cons default_level_def split: if_splits)
    moreover have "dedent_loop indent stack (cur # popped) (dedents @ [Dedent 0]) = (ts, stack', msgs)"
      using 2(7) less by simp
    ultimately show ?thesis using 2(1) [OF less refl] 2(3,4,5) cur by (simp add: replicate_append_same)
  next
    case eq
    then show ?thesis using 2(2,5,7) nesting_dedents [of "length popped"] by (auto simp: cmp nat_cmp_def)
  next
    case gt
    then obtain p ps where popped: "popped = p # ps" using 2(6) by (cases popped) (auto simp: cmp nat_cmp_def)
    have ts: "ts = replicate (length ps) (Dedent 0) @ [Dedent (level_spaces indent - level_spaces cur)]"
      and stack': "stack' = p # cur # stack"
      using 2(5,7) gt popped by (auto simp: cmp nat_cmp_def butlast_append replicate_append_same [symmetric])
    show ?thesis using 2(2,4) gt popped unfolding ts stack'
      by (simp add: stack_ok_Cons nesting_append nesting_dedents)
  qed
qed

section \<open>Lines\<close>

text \<open>
  The lines whose indentation reaches the parser: spaces and no tab before the first token of a line, and a first token
  that the lexer passes on.
\<close>

definition passed_on :: "raw_kind \<Rightarrow> bool" where
  "passed_on k =
     (case k of
        RawLineComment _ \<Rightarrow> True | RawNewline \<Rightarrow> True | RawIdent \<Rightarrow> True | RawLiteral _ _ \<Rightarrow> True | RawBang \<Rightarrow> True
      | RawGt \<Rightarrow> True | RawOpenParen \<Rightarrow> True | RawOpenBrace \<Rightarrow> True | RawOpenBracket \<Rightarrow> True | RawCloseParen \<Rightarrow> True
      | RawCloseBrace \<Rightarrow> True | RawCloseBracket \<Rightarrow> True | _ \<Rightarrow> k \<in> fst ` set plain_tokens)"

lemma tab_not_passed_on [simp]: "\<not> passed_on RawTab"
  by (simp add: passed_on_def plain_tokens_def)

fun plain_lines :: "bool \<Rightarrow> raw_kind list \<Rightarrow> bool" where
  "plain_lines start [] = True"
| "plain_lines start (k # ks) =
     (case k of
        RawNewline \<Rightarrow> plain_lines True ks
      | RawSpace \<Rightarrow> plain_lines start ks
      | RawLineComment _ \<Rightarrow> plain_lines start ks
      | _ \<Rightarrow> (start \<longrightarrow> passed_on k) \<and> plain_lines False ks)"

text \<open>What a token does to the state: the indentation stays, and only the sign of an arrow is taken off the buffer.\<close>

lemma lex_token_frame:
  assumes "lex_token lib k text lx = (tok, lx')"
  shows "indents lx' = indents lx \<and> lx_tabs lx' = lx_tabs lx \<and> lx_spaces lx' = lx_spaces lx \<and>
    new_line_beginning lx' = (k = RawNewline \<or> new_line_beginning lx) \<and>
    (lx_buf lx' = lx_buf lx \<or> lx_buf lx = lx_buf lx' @ [BinOpTok Minus])"
proof -
  have "lx_buf lx = butlast (lx_buf lx) @ [BinOpTok Minus]" if "lx_buf lx \<noteq> []" "last (lx_buf lx) = BinOpTok Minus"
    using that append_butlast_last_id by metis
  with assms show ?thesis
    by (cases k) (auto simp: lex_token_def lex_error_def some_token_def open_delim_def close_delim_def look_behind_def
        plain_tokens_def split: prod.splits list.splits if_splits)
qed

lemma plain_tokens_not_block: "map_of plain_tokens k = Some t \<Longrightarrow> \<not> is_block_token t"
  by (cases k) (auto simp: plain_tokens_def is_block_token_def)

lemma lex_token_not_block: "lex_token lib k text lx = (Some t, lx') \<Longrightarrow> \<not> is_block_token t"
  by (cases k) (auto simp: lex_token_def some_token_def open_delim_def close_delim_def look_behind_def
      plain_tokens_def is_block_token_def split: prod.splits list.splits if_splits)

lemma lex_token_passed_on: "(fst (lex_token lib k text lx) \<noteq> None) = passed_on k"
  by (cases k) (auto simp: lex_token_def some_token_def plain_tokens_def passed_on_def split: prod.splits)

text \<open>The invariant of the lexer.\<close>

definition balanced :: "lexer \<Rightarrow> bool" where
  "balanced lx = (stack_ok (indents lx) \<and> lx_tabs lx = 0 \<and> nesting 0 (lx_buf lx) = Some (length (indents lx) - 1))"

lemma lex_indent_balanced:
  assumes "balanced lx" "lex_indent lx = (indent, lx')"
  shows "stack_ok (indents lx') \<and> lx_tabs lx' = 0 \<and> lx_buf lx' = lx_buf lx \<and>
    new_line_beginning lx' = new_line_beginning lx \<and>
    nesting 0 (lx_buf lx @ indent_tokens indent) = Some (length (indents lx') - 1)"
proof -
  let ?level = "\<lparr>level_tabs = 0, level_spaces = lx_spaces lx\<rparr>"
  obtain cur stack where stack: "indents lx = cur # stack" using assms(1)
    by (cases "indents lx") (auto simp: balanced_def stack_ok_def)
  then have cmp: "indent_cmp ?level cur = Some (nat_cmp (lx_spaces lx) (level_spaces cur))"
    using assms(1) by (subst cmp_spaces) (auto simp: balanced_def stack_ok_Cons)
  have tabs: "lx_tabs lx = 0" and depth: "nesting 0 (lx_buf lx) = Some (length stack)" and ok: "stack_ok (cur # stack)"
    using assms(1) stack by (auto simp: balanced_def)
  obtain ts stack' msgs where loop: "dedent_loop ?level (cur # stack) [] [] = (ts, stack', msgs)" using prod_cases3 by blast
  consider (lt) "lx_spaces lx < level_spaces cur" | (eq) "lx_spaces lx = level_spaces cur"
    | (gt) "level_spaces cur < lx_spaces lx" by linarith
  then show ?thesis
  proof cases
    case lt
    then have "stack_ok stack' \<and> nesting (length stack) ts = Some (length stack' - 1)"
      using dedent_loop_balanced [OF ok _ _ _ _ loop] by (simp add: cmp nat_cmp_def)
    then show ?thesis using assms(2) lt loop depth
      by (auto simp: lex_indent_def last_indent_def stack tabs cmp nat_cmp_def nesting_append)
  next
    case eq
    then show ?thesis using assms(2) ok depth cmp
      by (auto simp: lex_indent_def last_indent_def stack tabs nat_cmp_def Let_def)
  next
    case gt
    then show ?thesis using assms(2) ok depth
      by (auto simp: lex_indent_def last_indent_def stack tabs cmp nat_cmp_def stack_ok_Cons nesting_append)
  qed
qed

text \<open>A token after its indentation.\<close>

lemma nesting_token: "\<not> is_block_token t \<Longrightarrow> nesting d (ts @ [t]) = nesting d ts"
  by (simp add: nesting_append nesting_other split: option.splits)

lemma nesting_swap:
  assumes "buf' = buf \<or> buf = buf' @ [BinOpTok Minus]" "\<not> is_block_token t"
  shows "nesting d (buf' @ ts @ [t]) = nesting d (buf @ ts)"
  using assms(1)
proof
  assume "buf' = buf"
  then show ?thesis using nesting_token [OF assms(2), of d "buf @ ts"] by simp
next
  assume "buf = buf' @ [BinOpTok Minus]"
  then show ?thesis using nesting_token [OF assms(2), of d "buf' @ ts"] by (simp add: nesting_append split: option.splits)
qed

lemma lex_indent_context_balanced:
  assumes "balanced lx" "new_line_beginning lx \<longrightarrow> k \<noteq> RawTab" "lex_indent_context k lx = (indent, lx')"
  shows "stack_ok (indents lx') \<and> lx_tabs lx' = 0 \<and> lx_buf lx' = lx_buf lx \<and>
    nesting 0 (lx_buf lx @ indent_tokens indent) = Some (length (indents lx') - 1)"
proof -
  have "balanced (lx\<lparr>new_line_beginning := False\<rparr>)" using assms(1) by (simp add: balanced_def)
  note indent = lex_indent_balanced [OF this]
  show ?thesis using assms indent
    by (cases k) (auto simp: lex_indent_context_def balanced_def split: if_splits)
qed

text \<open>A token that is not passed on has no indentation before it, and the start of a line ends with a token.\<close>

lemma lex_indent_line:
  assumes "lex_indent lx = (indent, lx')"
  shows "new_line_beginning lx' = new_line_beginning lx"
  using assms by (auto simp: lex_indent_def last_indent_def lex_error_def Let_def
      split: list.splits option.splits ordering.splits prod.splits)

lemma lex_indent_context_line:
  assumes "plain_lines (new_line_beginning lx) (k # ks)" "lex_indent_context k lx = (indent, lx')"
  shows "(\<not> passed_on k \<longrightarrow> indent = None) \<and> plain_lines (k = RawNewline \<or> new_line_beginning lx') ks"
  using assms lex_indent_line
  by (cases k) (auto simp: lex_indent_context_def split: if_splits)

lemma lex_step_balanced:
  assumes "balanced lx" "plain_lines (new_line_beginning lx) (fst raw # ks)"
  shows "balanced (lex_step lib raw lx) \<and> plain_lines (new_line_beginning (lex_step lib raw lx)) ks"
proof -
  obtain indent lx1 where indent: "lex_indent_context (fst raw) lx = (indent, lx1)" by fastforce
  obtain tok lx2 where tok: "lex_token lib (fst raw) (concat (snd raw)) lx1 = (tok, lx2)" by fastforce
  have step: "lex_step lib raw lx =
      (case tok of None \<Rightarrow> lx2 | Some t \<Rightarrow> lx2\<lparr>lx_buf := lx_buf lx2 @ indent_tokens indent @ [t]\<rparr>)"
    by (simp add: lex_step_def indent tok)
  note frame = lex_token_frame [OF tok] and line = lex_indent_context_line [OF assms(2) indent]
  have lines: "plain_lines (new_line_beginning lx2) ks" using line frame by simp
  have "new_line_beginning lx \<longrightarrow> fst raw \<noteq> RawTab" using assms(2) by auto
  note inv = lex_indent_context_balanced [OF assms(1) this indent]
  show ?thesis
  proof (cases tok)
    case None
    then have "\<not> passed_on (fst raw)" using lex_token_passed_on [of lib "fst raw" "concat (snd raw)" lx1] tok by simp
    moreover have "nesting 0 (lx_buf lx2) = nesting 0 (lx_buf lx1)"
      using frame nesting_token [of "BinOpTok Minus" 0 "lx_buf lx2"] by (auto simp: is_block_token_def)
    ultimately show ?thesis using step None lines inv line frame by (simp add: balanced_def)
  next
    case (Some t)
    have "\<not> is_block_token t" using lex_token_not_block tok Some by simp
    then show ?thesis using step Some lines inv frame nesting_swap [of "lx_buf lx2" "lx_buf lx1"]
      by (simp add: balanced_def)
  qed
qed

lemma lex_fold_balanced:
  assumes "balanced lx" "plain_lines (new_line_beginning lx) (map fst raws)"
  shows "balanced (fold (lex_step lib) raws lx)"
  using assms
proof (induction raws arbitrary: lx)
  case (Cons raw raws)
  then show ?case using lex_step_balanced [of lx raw "map fst raws"] by simp
qed simp

section \<open>Nesting of delimiters\<close>

text \<open>The delimiters left open after a list of tokens; \<open>None\<close> when a delimiter closes another kind than the last open one.\<close>

fun open_delims :: "delim_token list \<Rightarrow> token list \<Rightarrow> delim_token list option" where
  "open_delims st [] = Some st"
| "open_delims st (OpenDelim d # ts) = open_delims (d # st) ts"
| "open_delims st (CloseDelim d # ts) = (case st of e # st' \<Rightarrow> if e = d then open_delims st' ts else None | [] \<Rightarrow> None)"
| "open_delims st (t # ts) = open_delims st ts"

lemma open_delims_append:
  "open_delims st (ts @ us) = (case open_delims st ts of None \<Rightarrow> None | Some st' \<Rightarrow> open_delims st' us)"
  by (induction st ts rule: open_delims.induct) (auto split: list.splits)

definition is_delim :: "token \<Rightarrow> bool" where
  "is_delim t = (case t of OpenDelim _ \<Rightarrow> True | CloseDelim _ \<Rightarrow> True | _ \<Rightarrow> False)"

lemma is_delim_simps [simp]:
  "is_delim (OpenDelim d)" "is_delim (CloseDelim d)" "\<not> is_delim (Indent n)" "\<not> is_delim (Dedent n)"
  by (simp_all add: is_delim_def)

lemma open_delims_other: "\<forall>t \<in> set ts. \<not> is_delim t \<Longrightarrow> open_delims st ts = Some st"
  by (induction st ts rule: open_delims.induct) (auto simp: is_delim_def)

lemma butlast_all: "\<forall>t \<in> set ts. P t \<Longrightarrow> \<forall>t \<in> set (butlast ts). P t"
  by (blast dest: in_set_butlastD)

lemma dedent_loop_delims:
  "dedent_loop indent stack popped dedents = (ts, stack', msgs) \<Longrightarrow> \<forall>t \<in> set dedents. \<not> is_delim t \<Longrightarrow>
   \<forall>t \<in> set ts. \<not> is_delim t"
proof (induction indent stack popped dedents rule: dedent_loop.induct)
  case (1 indent popped dedents)
  then show ?case using butlast_all [OF 1(2)] by (auto split: option.splits ordering.splits)
next
  case (2 indent cur stack popped dedents)
  show ?case
  proof (cases "indent_cmp indent cur = Some Less")
    case True
    then show ?thesis using 2 by auto
  next
    case False
    then show ?thesis using 2(2,3) butlast_all [OF 2(3)] by (auto split: option.splits ordering.splits)
  qed
qed

lemma lex_indent_delims:
  assumes "lex_indent lx = (indent, lx')"
  shows "delims lx' = delims lx \<and> lx_buf lx' = lx_buf lx \<and> (\<exists>msgs. messages lx' = messages lx @ msgs) \<and>
    (\<forall>t \<in> set (indent_tokens indent). \<not> is_delim t)"
proof -
  obtain cur lx1 where last: "last_indent (lx\<lparr>lx_tabs := 0, lx_spaces := 0\<rparr>) = (cur, lx1)" by fastforce
  then have frame: "delims lx1 = delims lx \<and> lx_buf lx1 = lx_buf lx \<and> (\<exists>msgs. messages lx1 = messages lx @ msgs)"
    by (auto simp: last_indent_def lex_error_def split: list.splits)
  obtain ts stack msgs where loop:
    "dedent_loop \<lparr>level_tabs = lx_tabs lx, level_spaces = lx_spaces lx\<rparr> (indents lx1) [] [] = (ts, stack, msgs)"
    using prod_cases3 by blast
  show ?thesis using assms frame dedent_loop_delims [OF loop]
    by (auto simp: lex_indent_def last loop lex_error_def Let_def split: option.splits ordering.splits)
qed

lemma lex_indent_context_delims:
  assumes "lex_indent_context k lx = (indent, lx')"
  shows "delims lx' = delims lx \<and> lx_buf lx' = lx_buf lx \<and> (\<exists>msgs. messages lx' = messages lx @ msgs) \<and>
    (\<forall>t \<in> set (indent_tokens indent). \<not> is_delim t)"
  using assms lex_indent_delims [of "lx\<lparr>new_line_beginning := False\<rparr>"]
  by (cases k) (auto simp: lex_indent_context_def split: if_splits)

text \<open>As long as no error was reported the open delimiters are those of the state.\<close>

definition delims_ok :: "lexer \<Rightarrow> bool" where
  "delims_ok lx = (messages lx = [] \<longrightarrow> open_delims [] (lx_buf lx) = Some (delims lx))"

lemma lex_token_delims:
  assumes "lex_token lib k text lx = (tok, lx')"
  shows "(\<exists>msgs. messages lx' = messages lx @ msgs) \<and>
    (messages lx' = [] \<longrightarrow>
      (case tok of
         None \<Rightarrow> delims lx' = delims lx
       | Some t \<Rightarrow> open_delims (delims lx) [t] = Some (delims lx')))"
  using assms
  by (cases k) (auto simp: lex_token_def lex_error_def some_token_def open_delim_def close_delim_def look_behind_def
      plain_tokens_def split: prod.splits list.splits if_splits)

lemma open_delims_minus:
  assumes "buf' = buf \<or> buf = buf' @ [BinOpTok Minus]"
  shows "open_delims st buf' = open_delims st buf"
  using assms by (auto simp: open_delims_append split: option.splits)

lemma lex_step_delims:
  assumes "delims_ok lx"
  shows "delims_ok (lex_step lib raw lx)"
proof -
  obtain indent lx1 where indent: "lex_indent_context (fst raw) lx = (indent, lx1)" by fastforce
  obtain tok lx2 where tok: "lex_token lib (fst raw) (concat (snd raw)) lx1 = (tok, lx2)" by fastforce
  note ind = lex_indent_context_delims [OF indent] and tk = lex_token_delims [OF tok]
  have buf: "open_delims [] (lx_buf lx2) = open_delims [] (lx_buf lx1)"
    using open_delims_minus lex_token_frame [OF tok] by blast
  have "open_delims st (indent_tokens indent @ ts) = open_delims st ts" for st ts
    using open_delims_other [of "indent_tokens indent"] ind by (simp add: open_delims_append)
  then show ?thesis using assms ind tk buf
    by (auto simp: delims_ok_def lex_step_def indent tok open_delims_append split: option.splits)
qed

lemma drop_to_last: "stack \<noteq> [] \<Longrightarrow> drop (length stack - 1) stack = [last stack]"
  by (induction stack) (auto simp: drop_Cons')

lemma lex_fold_delims: "delims_ok lx \<Longrightarrow> delims_ok (fold (lex_step lib) raws lx)"
  by (induction raws arbitrary: lx) (auto simp: lex_step_delims)

section \<open>The stream of tokens\<close>


definition ascii_lib :: char_lib where
  "ascii_lib = \<lparr>is_id_start = (\<lambda>c. in_range (CHR ''a'') (CHR ''z'') c \<or> in_range (CHR ''A'') (CHR ''Z'') c \<or> c = ''_''),
     is_id_continue = (\<lambda>c. in_range (CHR ''a'') (CHR ''z'') c \<or> in_range (CHR ''A'') (CHR ''Z'') c \<or> c = ''_'' \<or> is_dec c),
     is_emoji = (\<lambda>_. False), unicode_character = (\<lambda>_. None)\<rparr>"

definition sample_lines :: "string list" where
  "sample_lines =
     [''i'', ''f'', '' '', ''x'', '':'', NEWLINE, '' '', '' '', ''f'', ''('', ''1'', '')'', NEWLINE, '' '', ''b'', NEWLINE, ''c'']"


text \<open>
  Without its conditions the nesting fails. With tabs, a line between two levels gets a \<open>Dedent 0\<close>, the token of a
  proper dedent, and its level stays open: it is closed twice. A line that begins with a token that is skipped loses
  its indentation, and the block is closed without having been opened.
\<close>

lemma tabs_dedent_twice:
  "lx_buf (parse_token_streams ascii_lib
     [''a'', NEWLINE, [CHR 0x09], [CHR 0x09], ''b'', NEWLINE, [CHR 0x09], ''c'', NEWLINE, ''d'']) =
     [Ident ''a'', Newline, Indent 0, Ident ''b'', Newline, Dedent 0, Ident ''c'', Newline, Dedent 0, Ident ''d'', Newline, Eof]"
  by code_simp

lemma lost_indent:
  "lx_buf (parse_token_streams ascii_lib [''a'', NEWLINE, '' '', '';'', ''b'', NEWLINE, ''c'']) =
     [Ident ''a'', Newline, Ident ''b'', Newline, Dedent 0, Ident ''c'', Newline, Eof]"
  by code_simp

end
