(* ===== verification/AstPretty.thy ===== *)
theory AstPretty
  imports ParserExpr
begin

text \<open>
  The printer of expressions (\<open>ast_pretty/src/node.rs\<close>), which the formatter uses. The printer appends to a
  string; here each function returns the text it appends, with the texts of the parts as arguments. A printer
  without comments and hooks is modelled, as \<open>print_ast_node\<close> makes it: the position of a node then has no influence
  on the expressions here. The texts of floats (\<open>f64::to_string\<close>) and of the operands that are arguments of the
  model of the parser are arguments.
\<close>

section \<open>Parts\<close>

fun interleave :: "string \<Rightarrow> string list \<Rightarrow> string" where
  "interleave sep [] = []"
| "interleave sep [s] = s"
| "interleave sep (s # ss) = s @ sep @ interleave sep ss"

definition COMMA_WHITESPACE :: string where
  "COMMA_WHITESPACE = '', ''"

definition WHITESPACE :: string where
  "WHITESPACE = '' ''"

text \<open>\<open>get_name\<close> joins the names with dots.\<close>

definition walk_identifier :: "string list \<Rightarrow> string" where
  "walk_identifier names = interleave ''.'' names"

fun name_constant_symbol :: "name_constant \<Rightarrow> string" where
  "name_constant_symbol ConstTrue = ''True''"
| "name_constant_symbol ConstFalse = ''False''"
| "name_constant_symbol ConstNone = ''None''"
| "name_constant_symbol ConstUndefined = ''Undefined''"

definition walk_number_lit :: "(f64 \<Rightarrow> string) \<Rightarrow> number_lit \<Rightarrow> string option \<Rightarrow> string" where
  "walk_number_lit float_text v binary_suffix =
     (case v of IntLit i \<Rightarrow> int_to_string (sint i) | FloatLit f \<Rightarrow> float_text f) @
     (case binary_suffix of Some s \<Rightarrow> s | None \<Rightarrow> [])"

definition walk_paren_expr :: "string \<Rightarrow> string" where
  "walk_paren_expr e = ''('' @ e @ '')''"

definition walk_selector_expr :: "string \<Rightarrow> string list \<Rightarrow> bool \<Rightarrow> string" where
  "walk_selector_expr v attr has_question = v @ (if has_question then ''?.'' else ''.'') @ walk_identifier attr"

definition walk_keyword :: "string list \<Rightarrow> string \<Rightarrow> string" where
  "walk_keyword arg v = walk_identifier arg @ ''='' @ v"

definition write_args_and_kwargs :: "string list \<Rightarrow> string list \<Rightarrow> string" where
  "write_args_and_kwargs args kwargs =
     interleave COMMA_WHITESPACE args @ (if args \<noteq> [] \<and> kwargs \<noteq> [] then COMMA_WHITESPACE else []) @
     interleave COMMA_WHITESPACE kwargs"

definition walk_call_expr :: "string \<Rightarrow> string list \<Rightarrow> string list \<Rightarrow> string" where
  "walk_call_expr f args kwargs = f @ ''('' @ write_args_and_kwargs args kwargs @ '')''"

definition opt_text :: "string option \<Rightarrow> string" where
  "opt_text s = (case s of Some t \<Rightarrow> t | None \<Rightarrow> [])"

definition walk_subscript :: "string \<Rightarrow> string option \<Rightarrow> string option \<Rightarrow> string option \<Rightarrow> string option \<Rightarrow> bool \<Rightarrow> string" where
  "walk_subscript v index lower upper step has_question =
     v @ (if has_question then ''?'' else []) @ ''['' @
     (case index of
        Some e \<Rightarrow> e
      | None \<Rightarrow> opt_text lower @ '':'' @ opt_text upper @ '':'' @ opt_text step) @
     '']''"

definition walk_unary_expr :: "unary_op \<Rightarrow> string \<Rightarrow> string" where
  "walk_unary_expr op e = unary_op_symbol op @ (if op = UnaryOp_Not then WHITESPACE else []) @ e"

definition walk_binary_expr :: "string \<Rightarrow> bin_op \<Rightarrow> string \<Rightarrow> string" where
  "walk_binary_expr l op r = l @ WHITESPACE @ bin_op_symbol op @ WHITESPACE @ r"

definition walk_compare :: "string \<Rightarrow> cmp_op list \<Rightarrow> string list \<Rightarrow> string" where
  "walk_compare l ops comparators =
     l @ concat (map2 (\<lambda>op e. WHITESPACE @ cmp_op_symbol op @ WHITESPACE @ e) ops comparators)"

definition walk_if_expr :: "string \<Rightarrow> string \<Rightarrow> string \<Rightarrow> string" where
  "walk_if_expr body cond orelse = body @ '' if '' @ cond @ '' else '' @ orelse"

section \<open>Expressions\<close>

fun print_ast_node :: "(f64 \<Rightarrow> string) \<Rightarrow> ('o \<Rightarrow> string) \<Rightarrow> 'o expr \<Rightarrow> string" where
  "print_ast_node ft ot (Identifier names) = walk_identifier names"
| "print_ast_node ft ot (NumberLit v sx) = walk_number_lit ft v sx"
| "print_ast_node ft ot (NameConstantLit c) = name_constant_symbol c"
| "print_ast_node ft ot (Paren e) = walk_paren_expr (print_ast_node ft ot e)"
| "print_ast_node ft ot (Selector v attr q) = walk_selector_expr (print_ast_node ft ot v) attr q"
| "print_ast_node ft ot (Call f args kws) =
     walk_call_expr (print_ast_node ft ot f) (map (print_ast_node ft ot) args)
       (map (\<lambda>kw. walk_keyword (fst kw) (print_ast_node ft ot (snd kw))) kws)"
| "print_ast_node ft ot (Subscript v index lower upper step q) =
     walk_subscript (print_ast_node ft ot v) (map_option (print_ast_node ft ot) index)
       (map_option (print_ast_node ft ot) lower) (map_option (print_ast_node ft ot) upper)
       (map_option (print_ast_node ft ot) step) q"
| "print_ast_node ft ot (Unary op e) = walk_unary_expr op (print_ast_node ft ot e)"
| "print_ast_node ft ot (Binary l op r) = walk_binary_expr (print_ast_node ft ot l) op (print_ast_node ft ot r)"
| "print_ast_node ft ot (Compare l ops ys) =
     walk_compare (print_ast_node ft ot l) ops (map (print_ast_node ft ot) ys)"
| "print_ast_node ft ot (If b c e) =
     walk_if_expr (print_ast_node ft ot b) (print_ast_node ft ot c) (print_ast_node ft ot e)"
| "print_ast_node ft ot Missing = []"
| "print_ast_node ft ot (Operand x) = ot x"

end
