(* ===== verification/LexerText.thy ===== *)
theory LexerText
  imports LexerNest AstPretty
begin

text \<open>
  The texts of tokens and how they are lexed. A token is lexed as itself when the text after it does not go on with it
  (\<open>stops\<close>). A text in pieces, tokens and spaces, whose neighbours need no space between them (\<open>glued\<close>) is lexed to its
  tokens (\<open>lex_pieces\<close>).
\<close>

section \<open>Spelling\<close>

fun bin_op_text :: "bin_op_token \<Rightarrow> string" where
  "bin_op_text Plus = ''+''"
| "bin_op_text Minus = ''-''"
| "bin_op_text Star = ''*''"
| "bin_op_text Slash = ''/''"
| "bin_op_text Percent = ''%''"
| "bin_op_text StarStar = ''**''"
| "bin_op_text SlashSlash = ''//''"
| "bin_op_text Caret = ''^''"
| "bin_op_text AndTok = ''&''"
| "bin_op_text OrTok = ''|''"
| "bin_op_text Shl = ''<<''"
| "bin_op_text Shr = ''>>''"

fun bin_cmp_text :: "bin_cmp_token \<Rightarrow> string" where
  "bin_cmp_text EqTok = ''==''"
| "bin_cmp_text NotEqTok = ''!=''"
| "bin_cmp_text LtTok = ''<''"
| "bin_cmp_text LtEqTok = ''<=''"
| "bin_cmp_text GtTok = ''>''"
| "bin_cmp_text GtEqTok = ''>=''"

fun token_text :: "token \<Rightarrow> string" where
  "token_text (UnaryOpTok op) = ''~''"
| "token_text (BinOpTok op) = bin_op_text op"
| "token_text (BinCmpTok op) = bin_cmp_text op"
| "token_text Dot = ''.''"
| "token_text Comma = '',''"
| "token_text Colon = '':''"
| "token_text Question = ''?''"
| "token_text Assign = ''=''"
| "token_text (OpenDelim d) = (case d of ParenDelim \<Rightarrow> ''('' | BraceDelim \<Rightarrow> ''{'' | _ \<Rightarrow> ''['')"
| "token_text (CloseDelim d) = (case d of ParenDelim \<Rightarrow> '')'' | BraceDelim \<Rightarrow> ''}'' | _ \<Rightarrow> '']'')"
| "token_text (Literal l) = lit_symbol l @ opt_text (lit_suffix l)"
| "token_text (Ident n) = n"
| "token_text _ = []"

text \<open>The characters of a text of ASCII characters.\<close>

definition chars :: "string \<Rightarrow> string list" where
  "chars s = map (\<lambda>b. [b]) s"

lemma chars_simps [simp]: "chars [] = []" "chars (b # s) = [b] # chars s" "chars (s @ t) = chars s @ chars t"
  by (simp_all add: chars_def)

lemma cursor_chars [simp]: "peek_char (c # cs) = c" "peek1th (c # cs) = peek_char cs" "bump_char (c # cs) = cs"
  by (simp_all add: peek_char_def peek1th_def bump_char_def)

lemma concat_chars [simp]: "concat (chars s) = s"
  by (induction s) simp_all

text \<open>What the tables of identifier characters hold for ASCII characters.\<close>

definition ident_start :: "char \<Rightarrow> bool" where
  "ident_start b = (in_range CHR ''a'' CHR ''z'' [b] \<or> in_range CHR ''A'' CHR ''Z'' [b] \<or> b = CHR ''_'')"

definition ident_part :: "char \<Rightarrow> bool" where
  "ident_part b = (ident_start b \<or> is_dec [b])"

definition char_lib_ok :: "char_lib \<Rightarrow> bool" where
  "char_lib_ok lib =
     (\<forall>b. of_char b < (128 :: nat) \<longrightarrow> is_id_start lib [b] = ident_start b \<and> is_id_continue lib [b] = ident_part b)"

definition ascii_name :: "string \<Rightarrow> bool" where
  "ascii_name s = (s \<noteq> [] \<and> ident_start (hd s) \<and> list_all ident_part s)"

section \<open>Lexing one token\<close>

lemma id_tables:
  assumes "char_lib_ok lib" "of_char b < (128 :: nat)"
  shows "is_id_start lib [b] = ident_start b" "is_id_continue lib [b] = ident_part b"
  using assms by (auto simp: char_lib_ok_def)

text \<open>What may follow a token in the text, so that it is lexed as itself.\<close>

definition word_ends :: "string list" where
  "word_ends = ['' '', ''('', '')'', ''['', '']'', '','', '':'', ''.'', ''?'', ''='', EOF_CHAR]"

definition op_extends :: "string list" where
  "op_extends = [''='', ''<'', ''>'', ''*'', ''/'']"

definition stops :: "token \<Rightarrow> string list \<Rightarrow> bool" where
  "stops t rest =
     (case t of
        Ident _ \<Rightarrow> peek_char rest \<in> set word_ends
      | Literal _ \<Rightarrow>
          peek_char rest \<in> set word_ends \<and>
          (peek_char rest = ''.'' \<longrightarrow> (case peek1th rest of [b] \<Rightarrow> ident_start b | _ \<Rightarrow> False))
      | Dot \<Rightarrow> peek_char rest \<noteq> ''.''
      | BinOpTok _ \<Rightarrow> peek_char rest \<notin> set op_extends
      | BinCmpTok _ \<Rightarrow> peek_char rest \<notin> set op_extends
      | Assign \<Rightarrow> peek_char rest \<notin> set op_extends
      | _ \<Rightarrow> True)"

text \<open>The tokens that are spelled with symbols alone, with the kinds the low-level lexer gives them.\<close>

definition symbol_kinds :: "(token \<times> raw_kind) list" where
  "symbol_kinds =
     [(UnaryOpTok UTilde, RawTilde), (BinOpTok Plus, RawPlus), (BinOpTok Minus, RawMinus), (BinOpTok Star, RawStar),
      (BinOpTok Slash, RawSlash), (BinOpTok Percent, RawPercent), (BinOpTok StarStar, RawStarStar),
      (BinOpTok SlashSlash, RawSlashSlash), (BinOpTok Caret, RawCaret), (BinOpTok AndTok, RawAnd),
      (BinOpTok OrTok, RawOr), (BinOpTok Shl, RawLtLt), (BinOpTok Shr, RawGtGt), (BinCmpTok EqTok, RawEqEq),
      (BinCmpTok NotEqTok, RawBangEq), (BinCmpTok LtTok, RawLt), (BinCmpTok LtEqTok, RawLtEq),
      (BinCmpTok GtTok, RawGt), (BinCmpTok GtEqTok, RawGtEq), (Dot, RawDot), (Comma, RawComma), (Colon, RawColon),
      (Question, RawQuestion), (Assign, RawEq), (OpenDelim ParenDelim, RawOpenParen),
      (OpenDelim BracketDelim, RawOpenBracket), (CloseDelim ParenDelim, RawCloseParen),
      (CloseDelim BracketDelim, RawCloseBracket)]"

lemma first_token_symbol:
  assumes "char_lib_ok lib" "(t, k) \<in> set symbol_kinds" "stops t rest"
  shows "first_token lib (chars (token_text t) @ rest) = (k, rest) \<and> token_text t \<noteq> []"
proof -
  note ids = id_tables [OF assms(1)]
  have "list_all (\<lambda>(t, k). stops t rest \<longrightarrow> first_token lib (chars (token_text t) @ rest) = (k, rest) \<and> token_text t \<noteq> [])
    symbol_kinds"
    unfolding symbol_kinds_def list.pred_inject prod.case
    by (intro conjI TrueI impI)
      (simp_all add: first_token_def try_comment_magic_def is_whitespace_def stops_def op_extends_def
        try_string_magic_def try_ident_magic_def ids ident_start_def in_range_def symbol_token_def extended_def
        QUOTE_def DOUBLE_QUOTE_def NEWLINE_def)
  with assms(2,3) show ?thesis by (auto simp: list_all_iff)
qed

lemma word_end_chars:
  assumes "char_lib_ok lib" "c \<in> set word_ends"
  shows "\<not> is_id_start lib c" "\<not> is_id_continue lib c" "is_ascii c" "c \<noteq> QUOTE" "c \<noteq> DOUBLE_QUOTE" "\<not> is_dec c"
    "c \<notin> {''_'', ''e'', ''E'', ''b'', ''o'', ''x''}"
  using assms(2) id_tables [OF assms(1)]
  by (auto simp: word_ends_def ident_start_def ident_part_def in_range_def is_ascii_def QUOTE_def DOUBLE_QUOTE_def EOF_CHAR_def)

lemma eat_while_part:
  assumes "char_lib_ok lib" "list_all ident_part s" "peek_char rest \<in> set word_ends"
  shows "eat_while (is_id_continue lib) (chars s @ rest) = rest"
  using assms(2)
proof (induction s)
  case Nil
  show ?case using word_end_chars(2) [OF assms(1,3)] by (cases rest) simp_all
next
  case (Cons b s)
  then have part: "ident_part b" by simp
  then have "of_char b < (128 :: nat)" by (auto simp: ident_part_def ident_start_def in_range_def)
  then show ?case using Cons part id_tables [OF assms(1), of b] by simp
qed

lemma ident_part_not_special:
  assumes "ident_part b"
  shows "of_char b < (128 :: nat)" "\<not> is_whitespace [b]" "\<not> try_comment_magic [b]" "[b] \<noteq> QUOTE" "[b] \<noteq> DOUBLE_QUOTE"
    "b \<noteq> CHR ''$''"
  using assms
  by (auto simp: ident_part_def ident_start_def in_range_def is_whitespace_def try_comment_magic_def QUOTE_def DOUBLE_QUOTE_def)

lemma first_token_name:
  assumes "char_lib_ok lib" "ascii_name n" "peek_char rest \<in> set word_ends"
  shows "first_token lib (chars n @ rest) = (RawIdent, rest)"
proof -
  obtain b s where n: "n = b # s" using assms(2) by (cases n) (auto simp: ascii_name_def)
  then have b: "ident_start b" and s: "list_all ident_part s" using assms(2) by (auto simp: ascii_name_def)
  then have part: "ident_part b" by (simp add: ident_part_def)
  note special = ident_part_not_special [OF part] and ends = word_end_chars [OF assms(1,3)]
  have "peek_char (chars s @ rest) \<notin> {QUOTE, DOUBLE_QUOTE}"
    using s ends ident_part_not_special by (cases s) simp_all
  then have "\<not> try_string_magic [b] (chars s @ rest)" using special by (simp add: try_string_magic_def)
  moreover have "try_ident_magic lib [b] (chars s @ rest)"
    using special b id_tables(1) [OF assms(1) special(1)] by (simp add: try_ident_magic_def)
  moreover have "eat_ident lib (chars s @ rest) = (RawIdent, rest)"
    using eat_while_part [OF assms(1) s assms(3)] ends by (simp add: eat_ident_def Let_def)
  ultimately show ?thesis using special by (simp add: n first_token_def Let_def)
qed

text \<open>The digits of a number.\<close>

definition is_digit_char :: "char \<Rightarrow> bool" where
  "is_digit_char b = is_dec [b]"

lemma eat_decimal_part:
  assumes "list_all is_digit_char s" "peek_char rest \<noteq> ''_''" "\<not> is_dec (peek_char rest)"
  shows "snd (eat_decimal_digits (chars s @ rest)) = rest"
proof -
  have "snd (eat_digits is_dec d (chars s @ rest)) = rest" for d
    using assms(1)
  proof (induction s arbitrary: d)
    case Nil
    show ?case using assms(2,3) by (cases rest) simp_all
  next
    case (Cons b s)
    then have "is_dec [b]" "b \<noteq> CHR ''_''" by (auto simp: is_digit_char_def in_range_def)
    then show ?case using Cons by simp
  qed
  then show ?thesis by (simp add: eat_decimal_digits_def)
qed

lemma digit_char_digit: "n < 10 \<Longrightarrow> is_digit_char (digit_char n)"
  by (simp add: is_digit_char_def in_range_def digit_char_def)

lemma nat_to_string_digits: "list_all is_digit_char (nat_to_string n) \<and> nat_to_string n \<noteq> []"
proof (induction n rule: nat_to_string.induct)
  case (1 n)
  then show ?case by (subst (1 2) nat_to_string.simps) (auto simp: digit_char_digit)
qed

text \<open>What follows the digits: a suffix, or the end of the literal.\<close>

definition literal_ends :: "string list \<Rightarrow> bool" where
  "literal_ends rest =
     (\<not> is_dec (peek_char rest) \<and> peek_char rest \<notin> {''_'', ''e'', ''E'', ''b'', ''o'', ''x''} \<and>
      (peek_char rest = ''.'' \<longrightarrow> (case peek1th rest of [b] \<Rightarrow> ident_start b | _ \<Rightarrow> False)))"

lemma number_digits:
  assumes "char_lib_ok lib" "list_all is_digit_char s" "b = CHR ''0'' \<longrightarrow> s = []" "literal_ends rest"
  shows "number lib [b] (chars s @ rest) = (IntKind BaseDecimal False, rest)"
proof -
  have dot: "is_id_start lib (peek1th rest)" if "peek_char rest = ''.''"
    using assms(4) that id_tables(1) [OF assms(1)] ident_part_not_special(1)
    by (auto simp: literal_ends_def ident_part_def split: list.splits)
  have "number_rest lib BaseDecimal rest = (IntKind BaseDecimal False, rest)"
    using assms(4) dot by (cases "peek_char rest = ''.''") (simp_all add: number_rest_def literal_ends_def)
  moreover have "snd (eat_decimal_digits (chars s @ rest)) = rest"
    using assms(2,4) by (intro eat_decimal_part) (auto simp: literal_ends_def)
  ultimately show ?thesis using assms(3,4) by (auto simp: number_def literal_ends_def Let_def)
qed

lemma suffix_chars:
  assumes "s \<in> set binary_suffixes"
  shows "s \<noteq> []" "ident_start (hd s)" "list_all ident_part (tl s)" "literal_ends (chars s @ rest)" "s \<in> set all_names"
  using assms
  by (auto simp: binary_suffixes_def ident_start_def ident_part_def in_range_def literal_ends_def all_names_def)

lemma first_token_number:
  assumes "char_lib_ok lib" "pred_option (\<lambda>s. s \<in> set binary_suffixes) sx"
    "stops (Literal l) rest"
  shows "first_token lib (chars (nat_to_string n @ opt_text sx) @ rest) =
    (RawLiteral (IntKind BaseDecimal False) (length (nat_to_string n)), rest)"
proof -
  obtain b s where n: "nat_to_string n = b # s" using nat_to_string_digits [of n] by (cases "nat_to_string n") auto
  then have digits: "is_dec [b]" "list_all is_digit_char s" using nat_to_string_digits [of n] by (auto simp: is_digit_char_def)
  have zero: "b = CHR ''0'' \<longrightarrow> s = []"
  proof (cases "n = 0")
    case True
    then show ?thesis using n by (simp add: nat_to_string.simps)
  next
    case False
    then show ?thesis using n radix_first_digit [of 10 n] by (auto simp: nat_to_string_radix)
  qed
  then have part: "ident_part b" "\<not> ident_start b" using digits(1) by (auto simp: ident_part_def ident_start_def in_range_def)
  note special = ident_part_not_special [OF part(1)]
  have ends: "peek_char rest \<in> set word_ends" using assms(3) by (simp add: stops_def)
  have tail: "literal_ends (chars (opt_text sx) @ rest)"
    using assms(2,3) suffix_chars(4) word_end_chars [OF assms(1) ends]
    by (cases sx) (auto simp: opt_text_def literal_ends_def stops_def)
  have suffix: "eat_lit_suffix lib (chars (opt_text sx) @ rest) = rest"
  proof (cases sx)
    case None
    then show ?thesis using word_end_chars(1) [OF assms(1) ends] by (simp add: eat_lit_suffix_def opt_text_def)
  next
    case (Some x)
    then obtain c y where x: "x = c # y" "ident_start c" "list_all ident_part y"
      using assms(2) suffix_chars [of x] by (cases x) auto
    then have "is_id_start lib [c]"
      using id_tables(1) [OF assms(1)] ident_part_not_special(1) by (auto simp: ident_part_def)
    then show ?thesis using Some x eat_while_part [OF assms(1) x(3) ends] by (simp add: eat_lit_suffix_def opt_text_def)
  qed
  have "[b] \<noteq> ''r'' \<and> [b] \<noteq> ''R''" using digits(1) by (auto simp: in_range_def)
  moreover have "\<not> try_ident_magic lib [b] (chars s @ chars (opt_text sx) @ rest)"
    using special part id_tables(1) [OF assms(1) special(1)] by (simp add: try_ident_magic_def)
  ultimately show ?thesis
    using special digits number_digits [OF assms(1) digits(2) zero tail] suffix
    by (simp add: n first_token_def Let_def try_string_magic_def len_consumed_def)
qed

section \<open>Lexing a list of pieces\<close>

definition spelled :: "token \<Rightarrow> raw_kind \<Rightarrow> bool" where
  "spelled t k =
     ((t, k) \<in> set symbol_kinds \<or> (\<exists>n. t = Ident n \<and> ascii_name n \<and> k = RawIdent) \<or>
      (\<exists>n sx. t = Literal (Lit LitInteger (nat_to_string n) sx None) \<and> pred_option (\<lambda>s. s \<in> set binary_suffixes) sx \<and>
           k = RawLiteral (IntKind BaseDecimal False) (length (nat_to_string n))))"

lemma first_token_spelled:
  assumes "char_lib_ok lib" "spelled t k" "stops t rest"
  shows "first_token lib (chars (token_text t) @ rest) = (k, rest) \<and> token_text t \<noteq> []"
proof -
  from assms(2) consider "(t, k) \<in> set symbol_kinds" | n where "t = Ident n" "ascii_name n" "k = RawIdent"
    | n sx where "t = Literal (Lit LitInteger (nat_to_string n) sx None)" "pred_option (\<lambda>s. s \<in> set binary_suffixes) sx"
      "k = RawLiteral (IntKind BaseDecimal False) (length (nat_to_string n))" by (auto simp: spelled_def)
  then show ?thesis
  proof cases
    case 1
    then show ?thesis using first_token_symbol [OF assms(1) _ assms(3)] by simp
  next
    case (2 n)
    then show ?thesis using first_token_name [OF assms(1), of n rest] assms(3) by (auto simp: stops_def ascii_name_def)
  next
    case (3 n sx)
    then show ?thesis using first_token_number [OF assms(1) 3(2)] assms(3) nat_to_string_digits [of n] by simp
  qed
qed

lemma first_token_space:
  assumes "char_lib_ok lib"
  shows "first_token lib ('' '' # rest) = (RawSpace, rest)"
  using id_tables [OF assms, of "CHR '' ''"]
  by (simp add: first_token_def try_comment_magic_def is_whitespace_def try_string_magic_def
      try_ident_magic_def ident_start_def in_range_def symbol_token_def QUOTE_def DOUBLE_QUOTE_def)

lemma tokenize_spelled:
  assumes "char_lib_ok lib" "spelled t k" "stops t rest"
  shows "tokenize lib (chars (token_text t) @ rest) = (k, chars (token_text t)) # tokenize lib rest"
proof -
  obtain b s where spell: "token_text t = b # s" using first_token_spelled [OF assms] by (cases "token_text t") auto
  have "tokenize lib ([b] # chars s @ rest) = (k, [b] # chars s) # tokenize lib rest"
    by (rule tokenize_simps(2)) (use first_token_spelled [OF assms] spell in simp)
  then show ?thesis by (simp add: spell)
qed

lemma tokenize_space: "char_lib_ok lib \<Longrightarrow> tokenize lib ('' '' # rest) = (RawSpace, ['' '']) # tokenize lib rest"
  using tokenize_simps(2) [of lib "'' ''" "[]" rest] first_token_space by simp

text \<open>
  What the lexer keeps of the tokens it has passed on: the open delimiters, and whether the last token is a minus, which
  a following \<open>>\<close> would turn into an arrow.
\<close>

fun lex_advance :: "delim_token list \<times> bool \<Rightarrow> token \<Rightarrow> (delim_token list \<times> bool) option" where
  "lex_advance (st, m) t =
     (case t of
        OpenDelim d \<Rightarrow> Some (d # st, False)
      | CloseDelim d \<Rightarrow> (case st of e # st' \<Rightarrow> if e = d then Some (st', False) else None | [] \<Rightarrow> None)
      | BinCmpTok op \<Rightarrow> if op = GtTok \<and> m then None else Some (st, False)
      | _ \<Rightarrow> Some (st, t = BinOpTok Minus))"

definition ends_minus :: "token list \<Rightarrow> bool" where
  "ends_minus buf = (buf \<noteq> [] \<and> last buf = BinOpTok Minus)"

lemma lex_number:
  "pred_option (\<lambda>s. s \<in> set binary_suffixes) sx \<Longrightarrow>
   lex_literal lib (IntKind BaseDecimal False) (length s) (s @ opt_text sx) = (Lit LitInteger s sx None, [])"
  by (cases sx) (auto simp: lex_int_def validate_literal_int_def opt_text_def suffix_chars)

lemma lex_token_spelled:
  assumes "spelled t k" "lex_advance (delims lx, ends_minus (lx_buf lx)) t = Some (st, m)"
  shows "lex_token lib k (token_text t) lx = (Some t, lx\<lparr>delims := st\<rparr>) \<and> ends_minus (lx_buf lx @ [t]) = m"
  using assms lex_number [where lib = lib]
  by (auto simp: spelled_def symbol_kinds_def lex_token_def some_token_def open_delim_def close_delim_def look_behind_def
      plain_tokens_def ends_minus_def split: list.splits if_splits)

lemma lex_step_spelled:
  assumes "spelled t k" "lex_advance (delims lx, ends_minus (lx_buf lx)) t = Some (st, m)" "\<not> new_line_beginning lx"
  shows "lex_step lib (k, chars (token_text t)) lx = lx\<lparr>delims := st, lx_buf := lx_buf lx @ [t]\<rparr>"
  using lex_token_spelled [OF assms(1,2), of lib] assms(3)
  by (simp add: lex_step_def lex_indent_context_def)

lemma lex_step_space: "\<not> new_line_beginning lx \<Longrightarrow> lex_step lib (RawSpace, ['' '']) lx = lx"
  by (simp add: lex_step_def lex_indent_context_def lex_token_def)

fun lexes :: "delim_token list \<times> bool \<Rightarrow> token list \<Rightarrow> (delim_token list \<times> bool) option" where
  "lexes s [] = Some s"
| "lexes s (t # ts) = (case lex_advance s t of None \<Rightarrow> None | Some s' \<Rightarrow> lexes s' ts)"

lemma lexes_append: "lexes s (ts @ us) = (case lexes s ts of None \<Rightarrow> None | Some s' \<Rightarrow> lexes s' us)"
  by (induction s ts rule: lexes.induct) (auto split: option.splits)

text \<open>A text in pieces, and the neighbours that need no space between them.\<close>

datatype piece = Space | Tok token

fun piece_text :: "piece \<Rightarrow> string" where
  "piece_text Space = '' ''"
| "piece_text (Tok t) = token_text t"

fun piece_tokens :: "piece \<Rightarrow> token list" where
  "piece_tokens Space = []"
| "piece_tokens (Tok t) = [t]"

abbreviation text_of :: "piece list \<Rightarrow> string" where
  "text_of ps \<equiv> concat (map piece_text ps)"

abbreviation tokens_of :: "piece list \<Rightarrow> token list" where
  "tokens_of ps \<equiv> concat (map piece_tokens ps)"

definition ends_word :: "token \<Rightarrow> bool" where
  "ends_word t = (t \<in> {OpenDelim ParenDelim, OpenDelim BracketDelim, CloseDelim ParenDelim, CloseDelim BracketDelim,
     Comma, Colon, Dot, Question, Assign})"

fun starts_operand :: "token \<Rightarrow> bool" where
  "starts_operand (Ident n) = True"
| "starts_operand (Literal l) = True"
| "starts_operand (OpenDelim d) = (d = ParenDelim)"
| "starts_operand (BinOpTok b) = (b = Plus \<or> b = Minus)"
| "starts_operand (UnaryOpTok u) = (u = UTilde)"
| "starts_operand _ = False"

fun glue :: "token \<Rightarrow> token \<Rightarrow> bool" where
  "glue (Ident n) u = ends_word u"
| "glue (Literal l) u = ends_word u"
| "glue Dot u = (case u of Ident n \<Rightarrow> True | _ \<Rightarrow> False)"
| "glue (BinOpTok b) u = starts_operand u"
| "glue (BinCmpTok c) u = False"
| "glue Assign u = starts_operand u"
| "glue t u = True"

fun before_name :: "piece list \<Rightarrow> bool" where
  "before_name (Tok (Ident n) # ps) = True"
| "before_name ps = False"

fun glued :: "piece list \<Rightarrow> bool" where
  "glued [] = True"
| "glued (Space # ps) = glued ps"
| "glued (Tok t # ps) = ((case ps of Tok u # qs \<Rightarrow> glue t u \<and> (u = Dot \<longrightarrow> before_name qs) | _ \<Rightarrow> True) \<and> glued ps)"

lemma ends_word_text: "ends_word u \<Longrightarrow> \<exists>b. token_text u = [b] \<and> [b] \<in> set word_ends"
  by (auto simp: ends_word_def word_ends_def)

lemma digit_not_extends: "is_digit_char b \<Longrightarrow> [b] \<notin> set op_extends"
  by (auto simp: is_digit_char_def op_extends_def in_range_def)

lemma starts_operand_text:
  assumes "starts_operand u" "spelled u k"
  shows "\<exists>b s. token_text u = b # s \<and> [b] \<notin> set op_extends"
proof (cases u)
  case (Ident n)
  then obtain b s where "n = b # s" "ident_start b" using assms(2) by (cases n) (auto simp: spelled_def symbol_kinds_def ascii_name_def)
  then show ?thesis using Ident by (auto simp: op_extends_def ident_start_def in_range_def)
next
  case (Literal l)
  then obtain n sx where l: "l = Lit LitInteger (nat_to_string n) sx None" using assms(2)
    by (auto simp: spelled_def symbol_kinds_def)
  then show ?thesis using Literal nat_to_string_digits [of n] digit_not_extends by (cases "nat_to_string n") auto
qed (use assms in \<open>auto simp: op_extends_def\<close>)

lemma glued_stops:
  assumes "glued (Tok t # ps)" "\<forall>u \<in> set (tokens_of ps). \<exists>k. spelled u k" "\<exists>k. spelled t k"
  shows "stops t (chars (text_of ps))"
proof -
  consider (none) "ps = []" | (space) qs where "ps = Space # qs" | (tok) u qs where "ps = Tok u # qs"
    by (cases ps; cases "hd ps") auto
  then show ?thesis
  proof cases
    case none
    then show ?thesis
      by (auto simp: stops_def word_ends_def op_extends_def peek_char_def EOF_CHAR_def split: token.splits)
  next
    case space
    then show ?thesis by (auto simp: stops_def word_ends_def op_extends_def split: token.splits)
  next
    case (tok u qs)
    then have glue: "glue t u" "u = Dot \<longrightarrow> before_name qs" using assms(1) by auto
    obtain k where u: "spelled u k" using assms(2) tok by auto
    have name: "\<exists>b cs. chars (text_of qs) = [b] # cs \<and> ident_start b" if before: "before_name qs"
    proof -
      obtain n rs where qs: "qs = Tok (Ident n) # rs" using before by (cases qs rule: before_name.cases) auto
      then obtain k where "spelled (Ident n) k" using assms(2) tok by auto
      then show ?thesis using qs by (cases n) (auto simp: spelled_def symbol_kinds_def ascii_name_def)
    qed
    have word: "stops t (chars (text_of ps))" if w: "ends_word u" "(\<exists>n. t = Ident n) \<or> (\<exists>l. t = Literal l)"
    proof -
      obtain b where b: "token_text u = [b]" "[b] \<in> set word_ends" using ends_word_text [OF w(1)] by blast
      moreover have "b = CHR ''.'' \<longrightarrow> u = Dot" using b(1) w(1) by (auto simp: ends_word_def)
      ultimately show ?thesis using w(2) tok glue(2) name by (auto simp: stops_def)
    qed
    have operand: "peek_char (chars (text_of ps)) \<notin> set op_extends" if "starts_operand u"
      using starts_operand_text [OF that u] tok by auto
    have ident: "peek_char (chars (text_of ps)) \<noteq> ''.''" if "\<exists>n. u = Ident n"
      using that u tok by (auto simp: spelled_def symbol_kinds_def ascii_name_def ident_start_def in_range_def neq_Nil_conv)
    show ?thesis using glue(1) word operand ident by (cases t) (auto simp: stops_def split: token.splits)
  qed
qed

lemma lex_pieces:
  assumes "char_lib_ok lib"
  shows "glued ps \<Longrightarrow> \<forall>t \<in> set (tokens_of ps). \<exists>k. spelled t k \<Longrightarrow>
    lexes (delims lx, ends_minus (lx_buf lx)) (tokens_of ps) = Some (st, m) \<Longrightarrow> \<not> new_line_beginning lx \<Longrightarrow>
    fold (lex_step lib) (tokenize lib (chars (text_of ps))) lx = lx\<lparr>delims := st, lx_buf := lx_buf lx @ tokens_of ps\<rparr>"
proof (induction ps arbitrary: lx)
  case Nil
  then show ?case by simp
next
  case (Cons p ps)
  show ?case
  proof (cases p)
    case Space
    then show ?thesis using Cons lex_step_space tokenize_space [OF assms] by simp
  next
    case (Tok t)
    obtain k where k: "spelled t k" using Cons.prems(2) Tok by auto
    have stops: "stops t (chars (text_of ps))" using glued_stops [of t ps] Cons.prems(1,2) Tok by simp
    obtain st1 m1 where adv: "lex_advance (delims lx, ends_minus (lx_buf lx)) t = Some (st1, m1)"
      and rest: "lexes (st1, m1) (tokens_of ps) = Some (st, m)" using Cons.prems(3) Tok by (auto split: option.splits)
    let ?lx = "lx\<lparr>delims := st1, lx_buf := lx_buf lx @ [t]\<rparr>"
    have "fold (lex_step lib) (tokenize lib (chars (text_of (p # ps)))) lx =
        fold (lex_step lib) (tokenize lib (chars (text_of ps))) ?lx"
      using tokenize_spelled [OF assms k stops] lex_step_spelled [OF k adv Cons.prems(4)] Tok by simp
    moreover have "ends_minus (lx_buf ?lx) = m1" using lex_token_spelled [OF k adv] by simp
    ultimately show ?thesis using Cons.IH [of ?lx] Cons.prems Tok rest by simp
  qed
qed

end
