(* ===== verification/ParseSource.thy ===== *)
theory ParseSource
  imports ParserPrint LexerText
begin

text \<open>
  From the text of an expression to its tree: \<open>Parser::new\<close>, which takes the comments out of the stream of
  tokens (\<open>parser/mod.rs\<close>), and \<open>parse_expr\<close> of \<open>parser/src/lib.rs\<close>, which composes the lexer and the parser. What
  the printer of the formatter prints for an expression is split into pieces (\<open>pieces\<close>), lexed to its tokens and parsed
  to the expression.
\<close>

section \<open>The entrance of the parser\<close>

text \<open>The tokens of a stream and its comments; \<open>prev\<close> is the token before. The stream ends with the end of file.\<close>

fun split_tokens :: "token \<Rightarrow> token list \<Rightarrow> token list \<times> string list" where
  "split_tokens prev [] = ([], [])"
| "split_tokens prev (tok # ts) =
     (if tok = Eof then ((if prev \<noteq> Newline then [Newline] else []) @ [tok], [])
      else
        (let (tokens, comments) = split_tokens tok ts in
         case tok of DocComment text \<Rightarrow> (tokens, text # comments) | _ \<Rightarrow> (tok # tokens, comments)))"

definition split_token_stream :: "token list \<Rightarrow> token list \<times> string list" where
  "split_token_stream = split_tokens Dummy"

definition parser_new :: "token list \<Rightarrow> parser" where
  "parser_new ts = bump \<lparr>token = Dummy, stream = fst (split_token_stream ts), errors = []\<rparr>"

text \<open>
  The expression of a source with the messages of the lexer; the parser gets a fuel of more than twice the number of
  tokens.
\<close>

definition parse_expr_source :: "'o subparsers \<Rightarrow> char_lib \<Rightarrow> string list \<Rightarrow> (string list \<times> 'o parse_res) option" where
  "parse_expr_source sp lib src =
     (if src = [] then None
      else
        (let lx = parse_token_streams lib src in
         Some (messages lx, expression sp (2 * length (lx_buf lx)) (parser_new (lx_buf lx)))))"

section \<open>The tokens of an expression are lexed back\<close>

text \<open>
  Tokens that leave the open delimiters as they are and do not end with a minus: after a token that is not a minus
  (\<open>neutral\<close>), after any token (\<open>closed\<close>).
\<close>

definition neutral :: "token list \<Rightarrow> bool" where
  "neutral ts = (\<forall>st. lexes (st, False) ts = Some (st, False))"

definition closed :: "token list \<Rightarrow> bool" where
  "closed ts = (\<forall>st m. lexes (st, m) ts = Some (st, False))"

named_theorems neutral_intros

lemma closed_neutral [neutral_intros]: "closed ts \<Longrightarrow> neutral ts"
  by (simp add: closed_def neutral_def)

lemma neutral_Nil [neutral_intros]: "neutral []"
  by (simp add: neutral_def)

lemma neutral_append [neutral_intros]: "neutral ts \<Longrightarrow> neutral us \<Longrightarrow> neutral (ts @ us)"
  by (simp add: neutral_def lexes_append)

lemma closed_append: "closed ts \<Longrightarrow> neutral us \<Longrightarrow> closed (ts @ us)"
  by (simp add: closed_def neutral_def lexes_append)

lemma closed_delims: "neutral ts \<Longrightarrow> closed (OpenDelim d # ts @ [CloseDelim d])"
  by (simp add: closed_def neutral_def lexes_append)

lemma closed_word: "closed ts \<Longrightarrow> closed (Ident n # ts)"
  by (simp add: closed_def)

lemma closed_name: "names \<noteq> [] \<Longrightarrow> closed (name_tokens names)"
  by (induction names rule: name_tokens.induct) (auto simp: closed_def)

lemma neutral_question [neutral_intros]: "neutral (question_tokens q)"
  by (simp add: question_tokens_def neutral_def)

lemma neutral_mark [neutral_intros]: "t \<in> {Dot, Comma, Colon, Assign} \<Longrightarrow> neutral ts \<Longrightarrow> neutral (t # ts)"
  by (auto simp: neutral_def)

lemma neutral_op [neutral_intros]: "closed ts \<Longrightarrow> neutral (op_tokens op @ ts)"
proof -
  have "\<exists>m. lexes (st, False) (op_tokens op) = Some (st, m)" for st
  proof (cases op)
    case (Bin b)
    then show ?thesis by (cases b) (simp_all add: ex_bool_eq)
  next
    case (Cmp c)
    then show ?thesis by (cases c) (simp_all add: ex_bool_eq)
  qed
  then show "closed ts \<Longrightarrow> neutral (op_tokens op @ ts)"
    unfolding neutral_def closed_def lexes_append by (metis option.simps(5))
qed

lemma neutral_comparators: "\<forall>ts \<in> set tss. closed ts \<Longrightarrow> neutral (concat (map2 (\<lambda>c ts. cmp_op_tokens c @ ts) ops tss))"
proof (induction tss arbitrary: ops)
  case (Cons ts tss)
  then show ?case using neutral_op [of ts "Cmp (hd ops)"]
    by (cases ops) (auto intro: neutral_Nil neutral_append simp flip: append_assoc)
qed (simp add: neutral_Nil)

lemma neutral_commas: "\<forall>ts \<in> set tss. neutral ts \<Longrightarrow> neutral (comma_separated tss)"
  by (induction tss rule: comma_separated.induct) (auto intro: neutral_intros)

lemma closed_unary: "closed ts \<Longrightarrow> closed (unary_op_tokens op # ts)"
  by (cases op) (simp_all add: closed_def)

lemma closed_if: "closed ts \<Longrightarrow> closed us \<Longrightarrow> closed vs \<Longrightarrow> closed (ts @ Ident i # us @ Ident j # vs)"
  by (simp add: closed_def lexes_append)

lemma closed_is_name: "is_name names \<Longrightarrow> closed (name_tokens names)"
  by (simp add: is_name_def closed_name)

lemma closed_constant: "closed [constant_token c]"
  by (cases c) (simp_all add: closed_def)

lemma closed_number: "(case v of IntLit i \<Rightarrow> 0 \<le> sint i | FloatLit _ \<Rightarrow> False) \<Longrightarrow> closed (unparse (NumberLit v sx))"
  by (cases v) (simp_all add: closed_def)

lemma closed_selector: "closed ts \<Longrightarrow> attr \<noteq> [] \<Longrightarrow> closed (ts @ question_tokens q @ Dot # name_tokens attr)"
  by (intro closed_append neutral_append neutral_question neutral_mark closed_neutral closed_name) simp_all

lemma closed_call:
  assumes "closed ts" "\<And>x. x \<in> set args \<Longrightarrow> closed (unparse x)" "\<And>kw. kw \<in> set kws \<Longrightarrow> is_name (fst kw) \<and> closed (unparse (snd kw))"
  shows "closed (ts @ OpenDelim ParenDelim #
    comma_separated (map unparse args @ map (\<lambda>kw. name_tokens (fst kw) @ Assign # unparse (snd kw)) kws) @
    [CloseDelim ParenDelim])"
proof -
  have "neutral ts'" if mem: "ts' \<in> set (map unparse args @ map (\<lambda>kw. name_tokens (fst kw) @ Assign # unparse (snd kw)) kws)" for ts'
  proof -
    consider x where "x \<in> set args" "ts' = unparse x"
      | n x where "(n, x) \<in> set kws" "ts' = name_tokens n @ Assign # unparse x" using mem by auto
    then show ?thesis
    proof cases
      case 1
      then show ?thesis using assms(2) closed_neutral by simp
    next
      case (2 n x)
      then show ?thesis using assms(3) [OF 2(1)] closed_is_name
        by (auto intro!: neutral_append neutral_mark intro: closed_neutral)
    qed
  qed
  then have "closed (OpenDelim ParenDelim #
      comma_separated (map unparse args @ map (\<lambda>kw. name_tokens (fst kw) @ Assign # unparse (snd kw)) kws) @
      [CloseDelim ParenDelim])"
    by (intro closed_delims neutral_commas ballI)
  with assms(1) show ?thesis by (intro closed_append closed_neutral)
qed

lemma closed_subscript:
  "neutral us \<Longrightarrow> closed ts \<Longrightarrow> closed (ts @ question_tokens q @ OpenDelim d # us @ [CloseDelim d])"
  using closed_delims [of us d] by (intro closed_append neutral_append neutral_question) (auto intro: closed_neutral)

lemma neutral_option: "(\<And>x. y = Some x \<Longrightarrow> neutral (f x)) \<Longrightarrow> neutral (case y of None \<Rightarrow> [] | Some x \<Rightarrow> f x)"
  by (cases y) (auto intro: neutral_Nil)

lemma closed_slice:
  assumes "closed ts" "\<And>x. lower = Some x \<Longrightarrow> closed (unparse x)" "\<And>x. upper = Some x \<Longrightarrow> closed (unparse x)"
    "\<And>x. step = Some x \<Longrightarrow> closed (unparse x)"
  shows "closed (ts @ question_tokens q @ OpenDelim d #
    (case lower of None \<Rightarrow> [] | Some e \<Rightarrow> unparse e) @ Colon # (case upper of None \<Rightarrow> [] | Some e \<Rightarrow> unparse e) @
    Colon # (case step of None \<Rightarrow> [] | Some e \<Rightarrow> unparse e) @ [CloseDelim d])"
proof -
  have "neutral ((case lower of None \<Rightarrow> [] | Some e \<Rightarrow> unparse e) @ Colon # (case upper of None \<Rightarrow> [] | Some e \<Rightarrow> unparse e) @
      Colon # (case step of None \<Rightarrow> [] | Some e \<Rightarrow> unparse e))"
    using assms(2-4) by (intro neutral_append neutral_mark neutral_option) (auto intro: closed_neutral)
  then show ?thesis using closed_subscript [OF _ assms(1)] by fastforce
qed

lemma unparse_closed:
  fixes e :: "'o expr"
  shows "wf_min k e \<Longrightarrow> closed (unparse e)" "is_primary e \<Longrightarrow> closed (unparse e)" "wf_expr e \<Longrightarrow> closed (unparse e)"
proof (induction k e and e and e rule: wf_min_is_primary_wf_expr.induct)
  case (1 k l op r)
  then show ?case using neutral_op [of "unparse r" "Bin op"] by (auto intro: closed_append)
next
  case (2 k l ops ys)
  have "closed (unparse y)" if y: "y \<in> set ys" for y
  proof -
    obtain c where "wf_min (Suc (op_rank (Cmp c))) y" using 2(3) y by (auto simp: list_all2_conv_all_nth in_set_conv_nth)
    then show ?thesis using 2(2) y by blast
  qed
  then show ?case using 2 by (auto intro!: closed_append neutral_comparators)
next
  case (11 f args kws)
  then show ?case by (simp add: closed_call list_all_iff)
next
  case (12 v index lower upper step q)
  have "pred_option wf_expr index" "pred_option wf_expr lower" "pred_option wf_expr upper" "pred_option wf_expr step"
    using "12.prems" by simp_all
  then have parts: "\<And>x. index = Some x \<Longrightarrow> closed (unparse x)" "\<And>x. lower = Some x \<Longrightarrow> closed (unparse x)"
    "\<And>x. upper = Some x \<Longrightarrow> closed (unparse x)" "\<And>x. step = Some x \<Longrightarrow> closed (unparse x)"
    using "12.IH" by auto
  have v: "closed (unparse v)" using 12 by simp
  show ?case
  proof (cases index)
    case None
    then show ?thesis using closed_slice [OF v parts(2-4)] by simp
  next
    case (Some x)
    then show ?thesis using closed_subscript [OF closed_neutral [OF parts(1) [OF Some]] v] by simp
  qed
qed (auto intro: closed_unary closed_is_name closed_number closed_constant closed_delims closed_selector closed_if closed_neutral)

text \<open>Every token of an expression has a spelling.\<close>

definition ascii_names :: "token list \<Rightarrow> bool" where
  "ascii_names = list_all (\<lambda>t. case t of Ident n \<Rightarrow> ascii_name n | _ \<Rightarrow> True)"

definition word_or_spelled :: "token \<Rightarrow> bool" where
  "word_or_spelled t = ((\<exists>n. t = Ident n) \<or> (\<exists>k. spelled t k))"

lemma word_or_spelled_intros:
  "word_or_spelled (Ident n)" "pred_option (\<lambda>s. s \<in> set binary_suffixes) sx \<Longrightarrow> word_or_spelled (Literal (Lit LitInteger (nat_to_string m) sx None))"
  "t \<in> fst ` set symbol_kinds \<Longrightarrow> word_or_spelled t"
  by (auto simp: word_or_spelled_def spelled_def)

lemma symbols_spelled [simp]:
  "word_or_spelled Dot" "word_or_spelled Comma" "word_or_spelled Colon" "word_or_spelled Question" "word_or_spelled Assign"
  "word_or_spelled (OpenDelim ParenDelim)" "word_or_spelled (CloseDelim ParenDelim)"
  "word_or_spelled (OpenDelim BracketDelim)" "word_or_spelled (CloseDelim BracketDelim)" "word_or_spelled (Ident n)"
  "pred_option (\<lambda>s. s \<in> set binary_suffixes) sx \<Longrightarrow> word_or_spelled (Literal (Lit LitInteger (nat_to_string m) sx None))"
  "word_or_spelled (UnaryOpTok UTilde)"
  by (simp_all add: word_or_spelled_intros symbol_kinds_def)

lemma operators_spelled [simp]: "word_or_spelled (BinOpTok b)" "word_or_spelled (BinCmpTok c)"
  by (cases b; simp add: word_or_spelled_intros symbol_kinds_def) (cases c; simp add: word_or_spelled_intros symbol_kinds_def)

lemma op_spelled:
  "t \<in> set (bin_op_tokens b) \<Longrightarrow> word_or_spelled t" "t \<in> set (cmp_op_tokens c) \<Longrightarrow> word_or_spelled t"
  by (cases b; auto) (cases c; auto)

lemma unary_spelled: "word_or_spelled (unary_op_tokens op)"
  by (cases op) simp_all

lemma constant_spelled: "word_or_spelled (constant_token c)"
  by (cases c) simp_all

lemma name_spelled: "t \<in> set (name_tokens names) \<Longrightarrow> word_or_spelled t"
  by (induction names rule: name_tokens.induct) auto

lemma comma_spelled: "t \<in> set (comma_separated tss) \<Longrightarrow> t = Comma \<or> (\<exists>ts \<in> set tss. t \<in> set ts)"
  by (induction tss rule: comma_separated.induct) auto

abbreviation all_spelled :: "token list \<Rightarrow> bool" where
  "all_spelled ts \<equiv> \<forall>t \<in> set ts. word_or_spelled t"

lemma comparators_spelled:
  assumes "\<forall>y \<in> set ys. all_spelled (unparse y)"
  shows "all_spelled (concat (map2 (\<lambda>c ts. cmp_op_tokens c @ ts) ops (map unparse ys)))"
proof -
  have "\<exists>c y. t \<in> set (cmp_op_tokens c) \<or> y \<in> set ys \<and> t \<in> set (unparse y)"
    if "t \<in> set (concat (map2 (\<lambda>c ts. cmp_op_tokens c @ ts) ops (map unparse ys)))" for t
    using that by (auto dest!: set_zip_rightD)
  with assms show ?thesis using op_spelled(2) by metis
qed

lemma unparse_spelled:
  fixes e :: "'o expr"
  shows "wf_min k e \<Longrightarrow> all_spelled (unparse e)" "is_primary e \<Longrightarrow> all_spelled (unparse e)"
    "wf_expr e \<Longrightarrow> all_spelled (unparse e)"
proof (induction k e and e and e rule: wf_min_is_primary_wf_expr.induct)
  case (2 k l ops ys)
  have "all_spelled (unparse y)" if y: "y \<in> set ys" for y
  proof -
    obtain c where "wf_min (Suc (op_rank (Cmp c))) y" using 2(3) y by (auto simp: list_all2_conv_all_nth in_set_conv_nth)
    then show ?thesis using 2(2) y by blast
  qed
  then have "all_spelled (concat (map2 (\<lambda>c ts. cmp_op_tokens c @ ts) ops (map unparse ys)))"
    by (intro comparators_spelled) blast
  moreover have "all_spelled (unparse l)" using 2 by simp
  ultimately show ?case by auto
next
  case (11 f args kws)
  then show ?case by (auto simp: name_spelled list_all_iff dest!: comma_spelled)
next
  case (12 v index lower upper step q)
  then show ?case by (auto simp: question_tokens_def split: option.splits if_splits)
qed (auto simp: name_spelled op_spelled unary_spelled question_tokens_def constant_spelled split: number_lit.splits)

lemma names_spelled: "ascii_names ts \<Longrightarrow> t \<in> set ts \<Longrightarrow> word_or_spelled t \<Longrightarrow> \<exists>k. spelled t k"
  by (force simp: word_or_spelled_def ascii_names_def list_all_iff spelled_def)

text \<open>The stream of a source without comments is left as it is.\<close>

lemma split_tokens_spelled:
  "\<forall>t \<in> set ts. word_or_spelled t \<Longrightarrow> fst (split_tokens prev (ts @ [Newline, Eof])) = ts @ [Newline, Eof]"
proof (induction ts arbitrary: prev)
  case (Cons t ts)
  then have "t \<noteq> Eof" "\<And>x. t \<noteq> DocComment x" by (auto simp: word_or_spelled_def spelled_def symbol_kinds_def)
  moreover obtain comments where "split_tokens t (ts @ [Newline, Eof]) = (ts @ [Newline, Eof], comments)"
    using Cons by (cases "split_tokens t (ts @ [Newline, Eof])") (auto dest: Cons.IH [of t, THEN sym])
  ultimately show ?case by (cases t) auto
qed simp

section \<open>The text of an expression\<close>

text \<open>The pieces of the text that the printer prints.\<close>

fun cmp_pieces :: "cmp_op \<Rightarrow> piece list" where
  "cmp_pieces CmpOp_NotIn = [Tok (Ident ''not''), Space, Tok (Ident ''in'')]"
| "cmp_pieces CmpOp_IsNot = [Tok (Ident ''is''), Space, Tok (Ident ''not'')]"
| "cmp_pieces c = map Tok (cmp_op_tokens c)"

fun comma_pieces :: "piece list list \<Rightarrow> piece list" where
  "comma_pieces [] = []"
| "comma_pieces [ps] = ps"
| "comma_pieces (ps # pss) = ps @ Tok Comma # Space # comma_pieces pss"

fun pieces :: "'o expr \<Rightarrow> piece list" where
  "pieces (Identifier names) = map Tok (name_tokens names)"
| "pieces (NumberLit (IntLit v) sx) = [Tok (Literal (Lit LitInteger (nat_to_string (unat v)) sx None))]"
| "pieces (NameConstantLit c) = [Tok (constant_token c)]"
| "pieces (Paren e) = Tok (OpenDelim ParenDelim) # pieces e @ [Tok (CloseDelim ParenDelim)]"
| "pieces (Selector v attr q) = pieces v @ map Tok (question_tokens q) @ Tok Dot # map Tok (name_tokens attr)"
| "pieces (Call f args kws) =
     pieces f @ Tok (OpenDelim ParenDelim) #
       comma_pieces (map pieces args @ map (\<lambda>kw. map Tok (name_tokens (fst kw)) @ Tok Assign # pieces (snd kw)) kws) @
       [Tok (CloseDelim ParenDelim)]"
| "pieces (Subscript v index lower upper step q) =
     pieces v @ map Tok (question_tokens q) @ Tok (OpenDelim BracketDelim) #
       (case index of
          Some e \<Rightarrow> pieces e
        | None \<Rightarrow>
            (case lower of Some e \<Rightarrow> pieces e | None \<Rightarrow> []) @ Tok Colon #
            (case upper of Some e \<Rightarrow> pieces e | None \<Rightarrow> []) @ Tok Colon #
            (case step of Some e \<Rightarrow> pieces e | None \<Rightarrow> [])) @
       [Tok (CloseDelim BracketDelim)]"
| "pieces (Unary op e) = Tok (unary_op_tokens op) # (if op = UnaryOp_Not then [Space] else []) @ pieces e"
| "pieces (Binary l op r) = pieces l @ Space # map Tok (bin_op_tokens op) @ Space # pieces r"
| "pieces (Compare l ops ys) = pieces l @ concat (map2 (\<lambda>c ps. Space # cmp_pieces c @ Space # ps) ops (map pieces ys))"
| "pieces (If b c e) =
     pieces b @ Space # Tok (Ident ''if'') # Space # pieces c @ Space # Tok (Ident ''else'') # Space # pieces e"
| "pieces _ = []"

lemma tokens_of_Tok [simp]: "concat (map (piece_tokens \<circ> Tok) ts) = ts"
  by (induction ts) simp_all

lemma text_of_Tok [simp]: "concat (map (piece_text \<circ> Tok) ts) = concat (map token_text ts)"
  by (simp add: comp_def)

lemma tokens_of_commas: "tokens_of (comma_pieces pss) = comma_separated (map tokens_of pss)"
  by (induction pss rule: comma_pieces.induct) simp_all

lemma tokens_of_cmp: "tokens_of (cmp_pieces c) = cmp_op_tokens c"
  by (cases c) simp_all

lemma tokens_of_comparators:
  "tokens_of (concat (map2 (\<lambda>c ps. Space # cmp_pieces c @ Space # ps) ops pss)) =
   concat (map2 (\<lambda>c ts. cmp_op_tokens c @ ts) ops (map tokens_of pss))"
proof (induction pss arbitrary: ops)
  case (Cons ps pss)
  then show ?case by (cases ops) (simp_all add: tokens_of_cmp)
qed simp

lemma tokens_of_pieces: "tokens_of (pieces e) = unparse e"
proof (induction e rule: unparse.induct)
  case (6 f args kws)
  then have "map tokens_of (map pieces args @ map (\<lambda>kw. map Tok (name_tokens (fst kw)) @ Tok Assign # pieces (snd kw)) kws) =
      map unparse args @ map (\<lambda>kw. name_tokens (fst kw) @ Assign # unparse (snd kw)) kws" by simp
  then show ?case using 6(1)
    by (simp only: pieces.simps unparse.simps map_append list.map concat_append concat.simps piece_tokens.simps
        tokens_of_commas append.simps)
next
  case (10 l ops ys)
  then have "map tokens_of (map pieces ys) = map unparse ys" by simp
  then show ?case using 10(1) by (simp only: pieces.simps unparse.simps map_append concat_append tokens_of_comparators)
qed (auto split: option.splits)

text \<open>The pieces are the text that is printed.\<close>

lemma bin_op_pieces_text: "concat (map token_text (bin_op_tokens op)) = bin_op_symbol op"
  by (cases op) simp_all

lemma cmp_pieces_text: "text_of (cmp_pieces c) = cmp_op_symbol c"
  by (cases c) simp_all

lemma unary_text: "token_text (unary_op_tokens op) = unary_op_symbol op"
  by (cases op) simp_all

lemma constant_text: "token_text (constant_token c) = name_constant_symbol c"
  by (cases c) simp_all

lemma name_text: "concat (map token_text (name_tokens names)) = walk_identifier names"
  by (induction names rule: name_tokens.induct) (simp_all add: walk_identifier_def)

lemma question_text: "concat (map token_text (question_tokens q)) = (if q then ''?'' else [])"
  by (simp add: question_tokens_def)

lemma comma_pieces_text: "text_of (comma_pieces pss) = interleave COMMA_WHITESPACE (map text_of pss)"
  by (induction pss rule: comma_pieces.induct) (simp_all add: COMMA_WHITESPACE_def)

lemma interleave_append:
  "interleave sep (xs @ ys) = interleave sep xs @ (if xs \<noteq> [] \<and> ys \<noteq> [] then sep else []) @ interleave sep ys"
proof (induction xs rule: interleave.induct [of "\<lambda>_ xs. _ xs" sep])
  case (2 sep s)
  then show ?case by (cases ys) simp_all
qed simp_all

lemma write_args_append: "write_args_and_kwargs args kwargs = interleave COMMA_WHITESPACE (args @ kwargs)"
  by (simp add: write_args_and_kwargs_def interleave_append)

lemma comparators_text:
  "text_of (concat (map2 (\<lambda>c ps. Space # cmp_pieces c @ Space # ps) ops pss)) =
   concat (map2 (\<lambda>op e. WHITESPACE @ cmp_op_symbol op @ WHITESPACE @ e) ops (map text_of pss))"
proof (induction pss arbitrary: ops)
  case (Cons ps pss)
  then show ?case by (cases ops) (simp_all add: cmp_pieces_text WHITESPACE_def)
qed simp

lemma number_text: "0 \<le> sint (v :: i64) \<Longrightarrow> int_to_string (sint v) = nat_to_string (unat v)"
  by (simp add: int_to_string_def unat_eq_nat_sint)

lemmas piece_texts = walk_number_lit_def opt_text_def number_text walk_paren_expr_def walk_selector_expr_def name_text
  question_text constant_text walk_unary_expr_def unary_text WHITESPACE_def walk_binary_expr_def bin_op_pieces_text
  walk_if_expr_def

lemma call_text:
  assumes "text_of (pieces f) = print_ast_node ft ot f" "\<And>x. x \<in> set args \<Longrightarrow> text_of (pieces x) = print_ast_node ft ot x"
    "\<And>kw. kw \<in> set kws \<Longrightarrow> text_of (pieces (snd kw)) = print_ast_node ft ot (snd kw)"
  shows "text_of (pieces (Call f args kws)) = print_ast_node ft ot (Call f args kws)"
proof -
  have "map text_of (map pieces args @ map (\<lambda>kw. map Tok (name_tokens (fst kw)) @ Tok Assign # pieces (snd kw)) kws) =
      map (print_ast_node ft ot) args @ map (\<lambda>kw. walk_keyword (fst kw) (print_ast_node ft ot (snd kw))) kws"
    using assms(2,3) by (simp add: walk_keyword_def name_text)
  then have "text_of (comma_pieces (map pieces args @
      map (\<lambda>kw. map Tok (name_tokens (fst kw)) @ Tok Assign # pieces (snd kw)) kws)) =
      write_args_and_kwargs (map (print_ast_node ft ot) args) (map (\<lambda>kw. walk_keyword (fst kw) (print_ast_node ft ot (snd kw))) kws)"
    by (simp only: comma_pieces_text write_args_append)
  then show ?thesis using assms(1) by (simp add: walk_call_expr_def)
qed

lemma option_text:
  "(\<And>x. y = Some x \<Longrightarrow> text_of (pieces x) = print_ast_node ft ot x) \<Longrightarrow>
   text_of (case y of Some x \<Rightarrow> pieces x | None \<Rightarrow> []) = opt_text (map_option (print_ast_node ft ot) y)"
  by (cases y) (simp_all add: opt_text_def)

lemma pieces_text:
  fixes e :: "'o expr"
  shows "wf_min k e \<Longrightarrow> text_of (pieces e) = print_ast_node ft ot e" "is_primary e \<Longrightarrow> text_of (pieces e) = print_ast_node ft ot e"
    "wf_expr e \<Longrightarrow> text_of (pieces e) = print_ast_node ft ot e"
proof (induction k e and e and e rule: wf_min_is_primary_wf_expr.induct)
  case (2 k l ops ys)
  have "text_of (pieces y) = print_ast_node ft ot y" if y: "y \<in> set ys" for y
  proof -
    obtain c where "wf_min (Suc (op_rank (Cmp c))) y" using 2(3) y by (auto simp: list_all2_conv_all_nth in_set_conv_nth)
    then show ?thesis using 2(2) y by blast
  qed
  then have "map text_of (map pieces ys) = map (print_ast_node ft ot) ys" by simp
  moreover have "text_of (pieces l) = print_ast_node ft ot l" using 2 by simp
  ultimately show ?case
    by (simp only: pieces.simps print_ast_node.simps map_append concat_append comparators_text walk_compare_def)
next
  case (11 f args kws)
  then show ?case by (intro call_text) (auto simp: list_all_iff)
next
  case (12 v index lower upper step q)
  have "pred_option wf_expr index" "pred_option wf_expr lower" "pred_option wf_expr upper" "pred_option wf_expr step"
    using "12.prems" by simp_all
  then have parts: "\<And>x. index = Some x \<Longrightarrow> text_of (pieces x) = print_ast_node ft ot x"
    "\<And>x. lower = Some x \<Longrightarrow> text_of (pieces x) = print_ast_node ft ot x"
    "\<And>x. upper = Some x \<Longrightarrow> text_of (pieces x) = print_ast_node ft ot x"
    "\<And>x. step = Some x \<Longrightarrow> text_of (pieces x) = print_ast_node ft ot x" using "12.IH" by auto
  have v: "text_of (pieces v) = print_ast_node ft ot v" using 12 by simp
  show ?case using option_text [OF parts(2)] option_text [OF parts(3)] option_text [OF parts(4)] parts(1) v
    by (cases index) (simp_all add: walk_subscript_def question_text)
qed (auto simp: piece_texts split: number_lit.splits option.splits)

text \<open>
  The pieces of an expression are glued, before anything that may follow an operand (\<open>ready\<close>): they begin with the
  start of an operand and end with a word or a closing delimiter.
\<close>

fun ready :: "piece list \<Rightarrow> bool" where
  "ready [] = True"
| "ready (Space # ps) = True"
| "ready (Tok t # ps) = (ends_word t \<and> (t = Dot \<longrightarrow> before_name ps))"

definition operand_pieces :: "piece list \<Rightarrow> bool" where
  "operand_pieces xs =
     ((\<exists>t ys. xs = Tok t # ys \<and> starts_operand t) \<and> (\<forall>ps. ready ps \<longrightarrow> glued ps \<longrightarrow> glued (xs @ ps)))"

lemma operand_glued: "operand_pieces xs \<Longrightarrow> ready ps \<Longrightarrow> glued ps \<Longrightarrow> glued (xs @ ps)"
  by (simp add: operand_pieces_def)

lemma operand_start: "operand_pieces xs \<Longrightarrow> \<exists>t ys. xs = Tok t # ys \<and> starts_operand t"
  by (simp add: operand_pieces_def)

lemma glued_word:
  assumes "ready ps" "glued ps"
  shows "glued (Tok (Ident n) # ps)" "glued (Tok (Literal l) # ps)" "glued (Tok (CloseDelim d) # ps)"
  using assms by (cases ps rule: ready.cases; simp)+

lemma glued_before:
  assumes "operand_pieces xs" "glued (xs @ ps)" "t \<in> {OpenDelim d, Comma, Colon, Question, Assign, UnaryOpTok UTilde, BinOpTok b}"
  shows "glued (Tok t # xs @ ps)"
  using operand_start [OF assms(1)] assms(2,3) by auto

lemma glued_names:
  assumes "ready ps" "glued ps"
  shows "names \<noteq> [] \<Longrightarrow> glued (map Tok (name_tokens names) @ ps)"
proof (induction names rule: name_tokens.induct)
  case (3 n m ns)
  then show ?case by (cases ns) (simp_all add: ends_word_def)
qed (use glued_word assms in simp_all)

lemma operand_names: "names \<noteq> [] \<Longrightarrow> operand_pieces (map Tok (name_tokens names))"
  using name_tokens_hd [of names] glued_names by (auto simp: operand_pieces_def)

lemma operand_word: "operand_pieces [Tok (Ident n)]" "operand_pieces [Tok (Literal l)]"
  by (simp_all add: operand_pieces_def glued_word del: glued.simps)

lemma operand_constant: "operand_pieces [Tok (constant_token c)]"
  by (cases c) (simp_all add: operand_word)

text \<open>Between delimiters: nothing or something that an operand begins.\<close>

definition inner_pieces :: "piece list \<Rightarrow> bool" where
  "inner_pieces xs = (\<forall>d ps. d = ParenDelim \<or> d = BracketDelim \<longrightarrow> ready ps \<longrightarrow> glued ps \<longrightarrow>
     glued (Tok (OpenDelim d) # xs @ Tok (CloseDelim d) # ps))"

lemma inner_operand:
  assumes "operand_pieces xs"
  shows "inner_pieces xs"
  unfolding inner_pieces_def
proof (intro allI impI)
  fix d ps assume d: "d = ParenDelim \<or> d = BracketDelim" and ps: "ready ps" "glued ps"
  have "glued (xs @ Tok (CloseDelim d) # ps)"
    by (rule operand_glued [OF assms _ glued_word(3) [OF ps]]) (use d in \<open>auto simp: ends_word_def\<close>)
  then show "glued (Tok (OpenDelim d) # xs @ Tok (CloseDelim d) # ps)" by (rule glued_before [OF assms]) simp
qed

lemma inner_Nil: "inner_pieces []"
  unfolding inner_pieces_def
proof (intro allI impI)
  fix d ps assume "ready ps" "glued ps"
  then have "glued (Tok (CloseDelim d) # ps)" by (rule glued_word(3))
  then show "glued (Tok (OpenDelim d) # [] @ Tok (CloseDelim d) # ps)" by simp
qed

lemma operand_extend:
  assumes "operand_pieces xs" "ready ys" "ys \<noteq> []" "\<And>ps. ready ps \<Longrightarrow> glued ps \<Longrightarrow> glued (ys @ ps)"
  shows "operand_pieces (xs @ ys)"
proof -
  have "ready (ys @ ps)" for ps using assms(2,3) by (cases ys rule: ready.cases; cases "tl ys" rule: before_name.cases) auto
  then show ?thesis using operand_start [OF assms(1)] operand_glued [OF assms(1)] assms(4) by (auto simp: operand_pieces_def)
qed

lemma operand_paren:
  assumes "inner_pieces xs"
  shows "operand_pieces (Tok (OpenDelim ParenDelim) # xs @ [Tok (CloseDelim ParenDelim)])"
  using assms by (simp add: operand_pieces_def inner_pieces_def)

lemma operand_delims:
  assumes "operand_pieces xs" "inner_pieces ys" "d = ParenDelim \<or> d = BracketDelim"
  shows "operand_pieces (xs @ map Tok (question_tokens q) @ Tok (OpenDelim d) # ys @ [Tok (CloseDelim d)])"
proof (rule operand_extend [OF assms(1)])
  show "ready (map Tok (question_tokens q) @ Tok (OpenDelim d) # ys @ [Tok (CloseDelim d)])"
    using assms(3) by (auto simp: question_tokens_def ends_word_def)
  fix ps assume "ready ps" "glued ps"
  then have "glued (Tok (OpenDelim d) # ys @ Tok (CloseDelim d) # ps)" using assms(2,3) unfolding inner_pieces_def by blast
  then show "glued ((map Tok (question_tokens q) @ Tok (OpenDelim d) # ys @ [Tok (CloseDelim d)]) @ ps)"
    by (simp add: question_tokens_def)
qed simp

lemma operand_selector:
  assumes "operand_pieces xs" "attr \<noteq> []"
  shows "operand_pieces (xs @ map Tok (question_tokens q) @ Tok Dot # map Tok (name_tokens attr))"
proof (rule operand_extend [OF assms(1)])
  obtain ts where attr: "name_tokens attr = Ident (hd attr) # ts" using name_tokens_hd [OF assms(2)] by blast
  then show "ready (map Tok (question_tokens q) @ Tok Dot # map Tok (name_tokens attr))"
    by (auto simp: question_tokens_def ends_word_def)
  fix ps assume "ready ps" "glued ps"
  then have "glued (map Tok (name_tokens attr) @ ps)" by (rule glued_names) (rule assms(2))
  then show "glued ((map Tok (question_tokens q) @ Tok Dot # map Tok (name_tokens attr)) @ ps)"
    by (simp add: question_tokens_def attr)
qed simp

lemma operand_commas: "pss \<noteq> [] \<Longrightarrow> \<forall>xs \<in> set pss. operand_pieces xs \<Longrightarrow> operand_pieces (comma_pieces pss)"
proof (induction pss rule: comma_pieces.induct)
  case (3 xs ys pss)
  then have xs: "operand_pieces xs" and rest: "operand_pieces (comma_pieces (ys # pss))" by simp_all
  show ?case unfolding comma_pieces.simps(3)
    by (rule operand_extend [OF xs]) (use operand_glued [OF rest] in \<open>simp_all add: ends_word_def\<close>)
qed simp_all

lemma inner_commas: "\<forall>xs \<in> set pss. operand_pieces xs \<Longrightarrow> inner_pieces (comma_pieces pss)"
  using operand_commas [of pss] inner_operand inner_Nil by (cases "pss = []") auto

lemma operand_keyword:
  assumes "is_name names" "operand_pieces xs"
  shows "operand_pieces (map Tok (name_tokens names) @ Tok Assign # xs)"
  using assms(1) by (intro operand_extend operand_names)
    (auto simp: is_name_def ends_word_def intro!: glued_before [OF assms(2)] operand_glued [OF assms(2)] simp del: glued.simps)

lemma operand_spaced:
  assumes "operand_pieces xs" "\<And>ps. glued ps \<Longrightarrow> glued (zs @ Space # ps)" "operand_pieces ys"
  shows "operand_pieces (xs @ Space # zs @ Space # ys)"
  by (rule operand_extend [OF assms(1)]) (use assms(2) operand_glued [OF assms(3)] in simp_all)

lemma glued_op: "glued ps \<Longrightarrow> glued (map Tok (bin_op_tokens op) @ Space # ps)"
  by (cases op) simp_all

lemma glued_cmp: "glued ps \<Longrightarrow> glued (cmp_pieces c @ Space # ps)"
  by (cases c) simp_all

lemma operand_comparators:
  "operand_pieces xs \<Longrightarrow> \<forall>ys \<in> set pss. operand_pieces ys \<Longrightarrow>
   operand_pieces (xs @ concat (map2 (\<lambda>c ps. Space # cmp_pieces c @ Space # ps) ops pss))"
proof (induction pss arbitrary: xs ops)
  case (Cons ys pss)
  show ?case
  proof (cases ops)
    case (Cons c cs)
    then show ?thesis using Cons.IH [of "xs @ Space # cmp_pieces c @ Space # ys" cs] Cons.prems
        operand_spaced [of xs "cmp_pieces c" ys] glued_cmp by simp
  qed (use Cons.prems in simp)
qed simp

lemma operand_unary:
  assumes "operand_pieces xs"
  shows "operand_pieces (Tok (unary_op_tokens op) # (if op = UnaryOp_Not then [Space] else []) @ xs)"
  using glued_before [OF assms] operand_glued [OF assms]
  by (cases op) (simp_all add: operand_pieces_def del: glued.simps, simp)

lemma inner_colon:
  assumes "pred_option (\<lambda>e. operand_pieces (pieces e)) lower" "inner_pieces (Tok Colon # ys)"
  shows "inner_pieces ((case lower of Some e \<Rightarrow> pieces e | None \<Rightarrow> []) @ Tok Colon # ys)"
proof (cases lower)
  case (Some e)
  have colon: "glued (Tok Colon # ys @ Tok (CloseDelim d) # ps)"
    if "d = ParenDelim \<or> d = BracketDelim" "ready ps" "glued ps" for d ps
    using assms(2) that by (auto simp: inner_pieces_def)
  have e: "operand_pieces (pieces e)" using assms(1) Some by simp
  have "inner_pieces (pieces e @ Tok Colon # ys)"
    unfolding inner_pieces_def
  proof (intro allI impI)
    fix d ps assume "d = ParenDelim \<or> d = BracketDelim" "ready ps" "glued ps"
    then have "glued (pieces e @ Tok Colon # ys @ Tok (CloseDelim d) # ps)"
      by (intro operand_glued [OF e] colon) (simp add: ends_word_def)
    then show "glued (Tok (OpenDelim d) # (pieces e @ Tok Colon # ys) @ Tok (CloseDelim d) # ps)"
      using glued_before [OF e, of "Tok Colon # ys @ Tok (CloseDelim d) # ps" "OpenDelim d"] by simp
  qed
  then show ?thesis using Some by simp
qed (use assms(2) in simp)

lemma inner_option: "pred_option (\<lambda>e. operand_pieces (pieces e)) step \<Longrightarrow> inner_pieces (case step of Some e \<Rightarrow> pieces e | None \<Rightarrow> [])"
  by (cases step) (auto intro: inner_operand inner_Nil)

lemma inner_shift: "inner_pieces xs \<Longrightarrow> inner_pieces (Tok Colon # xs)"
  by (cases xs rule: before_name.cases) (auto simp: inner_pieces_def)

lemma pieces_operand:
  fixes e :: "'o expr"
  shows "wf_min k e \<Longrightarrow> operand_pieces (pieces e)" "is_primary e \<Longrightarrow> operand_pieces (pieces e)"
    "wf_expr e \<Longrightarrow> operand_pieces (pieces e)"
proof (induction k e and e and e rule: wf_min_is_primary_wf_expr.induct)
  case (1 k l op r)
  then show ?case using operand_spaced [of "pieces l" "map Tok (bin_op_tokens op)" "pieces r"] glued_op by simp
next
  case (2 k l ops ys)
  have "operand_pieces (pieces y)" if y: "y \<in> set ys" for y
  proof -
    obtain c where "wf_min (Suc (op_rank (Cmp c))) y" using 2(3) y by (auto simp: list_all2_conv_all_nth in_set_conv_nth)
    then show ?thesis using 2(2) y by blast
  qed
  then show ?case using 2 operand_comparators [of "pieces l" "map pieces ys" ops] by simp
next
  case (3 k op e)
  then show ?case unfolding pieces.simps by (intro operand_unary) simp
next
  case (11 f args kws)
  then have "inner_pieces (comma_pieces (map pieces args @
      map (\<lambda>kw. map Tok (name_tokens (fst kw)) @ Tok Assign # pieces (snd kw)) kws))"
    by (intro inner_commas) (auto simp: list_all_iff intro!: operand_keyword)
  then show ?case using 11 operand_delims [of "pieces f" _ ParenDelim False] by (simp add: question_tokens_def)
next
  case (12 v index lower upper step q)
  have "pred_option wf_expr index" "pred_option wf_expr lower" "pred_option wf_expr upper" "pred_option wf_expr step"
    using "12.prems" by simp_all
  then have parts: "pred_option (\<lambda>e. operand_pieces (pieces e)) index" "pred_option (\<lambda>e. operand_pieces (pieces e)) lower"
    "pred_option (\<lambda>e. operand_pieces (pieces e)) upper" "pred_option (\<lambda>e. operand_pieces (pieces e)) step"
    using "12.IH" by (auto simp: option.pred_set)
  have v: "operand_pieces (pieces v)" using 12 by simp
  have "inner_pieces (case index of Some e \<Rightarrow> pieces e | None \<Rightarrow> (case lower of Some e \<Rightarrow> pieces e | None \<Rightarrow> []) @ Tok Colon #
      (case upper of Some e \<Rightarrow> pieces e | None \<Rightarrow> []) @ Tok Colon # (case step of Some e \<Rightarrow> pieces e | None \<Rightarrow> []))"
    using inner_colon [OF parts(2) inner_shift [OF inner_colon [OF parts(3) inner_shift [OF inner_option [OF parts(4)]]]]]
      parts(1) inner_operand by (cases index) simp_all
  then show ?case using operand_delims [OF v, of _ BracketDelim q] by simp
next
  case (14 b c e)
  then show ?case
    using operand_spaced [of "pieces b" "[Tok (Ident ''if'')]" "pieces c"]
      operand_spaced [of "pieces b @ Space # [Tok (Ident ''if'')] @ Space # pieces c" "[Tok (Ident ''else'')]" "pieces e"] by simp
qed (auto intro: operand_names operand_word operand_constant operand_paren inner_operand operand_selector operand_unary
    simp: is_name_def simp del: if_split_asm split: number_lit.splits)



end
