(* ===== verification/LexerStr.thy ===== *)
theory LexerStr
  imports LexerNest
begin

text \<open>
  String literals: the literal of a text, with its quotes, backslashes and line ends escaped, is lexed to one
  token whose value is the text.
\<close>

section \<open>Characters\<close>

text \<open>The bytes of one character.\<close>

definition is_char :: "string \<Rightarrow> bool" where
  "is_char c = (c \<noteq> [] \<and> \<not> is_continuation (hd c) \<and> list_all is_continuation (tl c))"

lemma str_chars_one:
  assumes "t = [] \<or> \<not> is_continuation (hd t)"
  shows "list_all is_continuation s \<Longrightarrow> str_chars (b # s @ t) = (b # s) # str_chars t"
proof (induction s arbitrary: b)
  case Nil
  show ?case
  proof (cases "str_chars t")
    case (Cons g gs)
    then have "g \<noteq> [] \<and> concat (g # gs) = t" using concat_str_chars [of t] str_chars_nonempty [of g t] by simp
    then obtain d g' where "g = d # g'" "d = hd t" by (cases g) auto
    moreover have "t \<noteq> []" using Cons by auto
    ultimately show ?thesis using assms Cons by simp
  qed simp
next
  case (Cons c s)
  then show ?case by simp
qed

lemma str_chars_concat: "list_all is_char cs \<Longrightarrow> str_chars (concat cs) = cs"
proof (induction cs)
  case (Cons c cs)
  then obtain b s where c: "c = b # s" "list_all is_continuation s" by (cases c) (auto simp: is_char_def)
  have "concat cs = [] \<or> \<not> is_continuation (hd (concat cs))" using Cons.prems by (cases cs) (auto simp: is_char_def)
  then show ?case using Cons c str_chars_one [of "concat cs" s b] by simp
qed simp

section \<open>Literals\<close>

definition CR :: string where
  "CR = [CHR 0x0D]"

definition escaped :: "string \<Rightarrow> string list" where
  "escaped c =
     (if c = BACKSLASH \<or> c = DOUBLE_QUOTE then [BACKSLASH, c]
      else if c = NEWLINE then [BACKSLASH, ''n'']
      else if c = CR then [BACKSLASH, ''r'']
      else [c])"

definition quoted :: "string list \<Rightarrow> string list" where
  "quoted cs = DOUBLE_QUOTE # concat (map escaped cs) @ [DOUBLE_QUOTE]"

lemmas special_chars = BACKSLASH_def DOUBLE_QUOTE_def QUOTE_def NEWLINE_def CR_def EOF_CHAR_def

text \<open>The text after the characters of a literal, up to its end: it does not stop the loop of \<open>eat_quoted_string\<close>.\<close>

lemma escaped_next:
  assumes "EOF_CHAR \<notin> set cs"
  shows "peek_char (concat (map escaped cs) @ DOUBLE_QUOTE # rest) \<notin> {CR, NEWLINE, EOF_CHAR}"
  using assms by (cases cs) (auto simp: peek_char_def escaped_def special_chars)

lemma quoted_loop_escaped:
  assumes "EOF_CHAR \<notin> set cs"
  shows "quoted_loop DOUBLE_QUOTE False (concat (map escaped cs) @ DOUBLE_QUOTE # rest) = (True, rest)"
  using assms
proof (induction cs)
  case Nil
  show ?case by (simp add: special_chars)
next
  case (Cons c cs)
  note follow = escaped_next [of cs rest]
  consider (special) "c = BACKSLASH \<or> c = DOUBLE_QUOTE" | (line) "c = NEWLINE \<or> c = CR"
    | (other) "c \<noteq> BACKSLASH" "c \<noteq> DOUBLE_QUOTE" "c \<noteq> NEWLINE" "c \<noteq> CR" by blast
  then show ?case
  proof cases
    case special
    then show ?thesis using Cons by (auto simp: escaped_def peek_char_def bump_char_def)
  next
    case line
    then obtain x where x: "escaped c = [BACKSLASH, x]" "x \<in> {''n'', ''r''}"
      by (auto simp: escaped_def special_chars)
    then have "x \<notin> {BACKSLASH, DOUBLE_QUOTE, CR, NEWLINE, EOF_CHAR}" "BACKSLASH \<noteq> DOUBLE_QUOTE"
      by (auto simp: special_chars)
    then show ?thesis using Cons follow x(1) by (simp add: peek_char_def CR_def)
  next
    case other
    then have "escaped c = [c]" by (simp add: escaped_def)
    then show ?thesis using other Cons follow by (simp add: CR_def)
  qed
qed

lemma content_eval_escaped:
  "content_eval lib DOUBLE_QUOTE False False False out (concat (map escaped cs)) = Some (out @ concat cs)"
proof (induction cs arbitrary: out)
  case (Cons c cs)
  then show ?case by (simp add: escaped_def escape_def) (simp add: special_chars)
qed simp

lemma escaped_chars: "list_all is_char cs \<Longrightarrow> list_all is_char (concat (map escaped cs))"
  by (induction cs) (auto simp: escaped_def special_chars is_char_def is_continuation_def)

lemma first_token_quoted:
  assumes "EOF_CHAR \<notin> set cs" "peek_char rest \<noteq> DOUBLE_QUOTE"
  shows "first_token lib (quoted cs @ rest) = (RawLiteral (StrKind True False) (length (concat (quoted cs))), rest)"
proof -
  let ?content = "concat (map escaped cs) @ DOUBLE_QUOTE # rest"
  have "\<not> (DOUBLE_QUOTE = peek_char ?content \<and> DOUBLE_QUOTE = peek1th ?content)"
    using assms(2) by (cases cs) (auto simp: peek_char_def peek1th_def escaped_def special_chars)
  then show ?thesis using quoted_loop_escaped [OF assms(1), of rest]
    by (auto simp: quoted_def first_token_def Let_def peek_char_def bump_char_def try_comment_magic_def is_whitespace_def
        try_string_magic_def eat_string_def eat_quoted_string_def len_consumed_def DOUBLE_QUOTE_def)
qed

lemma lex_quoted:
  assumes "list_all is_char cs"
  shows "lex_literal lib (StrKind True False) (length (concat (quoted cs))) (concat (quoted cs)) =
    (Lit (LitStr False False) (concat cs) None (Some (concat (quoted cs))), [])"
proof -
  have "str_chars (concat (concat (map escaped cs))) = concat (map escaped cs)"
    by (rule str_chars_concat [OF escaped_chars [OF assms]])
  then show ?thesis using content_eval_escaped [of lib "[]" cs]
    by (simp add: lex_string_def quoted_def str_content_eval_def Let_def DOUBLE_QUOTE_def)
qed

text \<open>
  C39: a string literal denotes its text: the text between double quotes, with the quotes, backslashes and line ends in it
  escaped, is lexed without a message to one token whose value is the text. The text has no NUL character, which the
  lexer takes for the end of the source.
\<close>

theorem string_literal_value:
  assumes "list_all is_char cs" "EOF_CHAR \<notin> set cs"
  shows "messages (parse_token_streams lib (quoted cs)) = [] \<and>
    lx_buf (parse_token_streams lib (quoted cs)) =
      [Literal (Lit (LitStr False False) (concat cs) None (Some (concat (quoted cs)))), Newline, Eof]"
proof -
  have "peek_char [] \<noteq> DOUBLE_QUOTE" by (simp add: peek_char_def special_chars)
  then have "first_token lib (quoted cs @ []) = (RawLiteral (StrKind True False) (length (concat (quoted cs))), [])"
    by (rule first_token_quoted [OF assms(2)])
  then have "tokenize lib (quoted cs) = [(RawLiteral (StrKind True False) (length (concat (quoted cs))), quoted cs)]"
    by (subst tokenize.simps) (simp add: quoted_def)
  then show ?thesis using lex_quoted [OF assms(1), of lib]
    by (simp add: parse_token_streams_def lex_step_def lex_indent_context_def lex_token_def lex_eof_def initial_lexer_def)
qed

theorem string_literal_value_witness:
  "let cs = [''a'', DOUBLE_QUOTE, NEWLINE, [CHR 0xC3, CHR 0xA9], BACKSLASH]
   in concat (quoted cs) = [CHR 0x22, CHR ''a'', CHR 0x5C, CHR 0x22, CHR 0x5C, CHR ''n'', CHR 0xC3, CHR 0xA9, CHR 0x5C, CHR 0x5C, CHR 0x22] \<and>
      messages (parse_token_streams ascii_lib (quoted cs)) = [] \<and>
      lx_buf (parse_token_streams ascii_lib (quoted cs)) =
        [Literal (Lit (LitStr False False) (concat cs) None (Some (concat (quoted cs)))), Newline, Eof]"
  unfolding Let_def
  using string_literal_value [of "[''a'', DOUBLE_QUOTE, NEWLINE, [CHR 0xC3, CHR 0xA9], BACKSLASH]" ascii_lib]
  by (simp add: quoted_def escaped_def special_chars is_char_def is_continuation_def)

text \<open>An octal escape takes the character after it along.\<close>

lemma octal_escape_loses_character:
  "str_content_eval lib [BACKSLASH, ''1'', ''a'', ''b''] DOUBLE_QUOTE False False False = Some [CHR 0x01, CHR ''b'']"
  by (simp add: str_content_eval_def escape_def special_chars char_to_digit_def to_digit_def parse_octet_def
      eval_nat_numeral utf8_encode_def char_of_def bit_0)

end
