(* ===== verification/Spec2Isabelle.thy ===== *)
theory Spec2Isabelle
  imports ValueUnion ValueIter ValuePlan ValueBinAug ValueBuiltin SemaCalc ParseSource LexerStr
begin

text \<open>
  \<^bold>\<open>The KCL runtime.\<close>
  KCL programs compute a tree of configuration values. The compiler (or the evaluator) turns a program
  into calls of the runtime library (\<open>kclvm/runtime\<close>), which owns the value type and everything done
  to values: arithmetic, comparison, lists, dicts, schema instances, the union of configurations, iteration,
  and the planning of the final output. This development models that library.

  \<^bold>\<open>Theories.\<close> The import order is the order of the calls.
  \<^item> \<open>Prelude\<close>: results (\<open>'e + 'a\<close>, \<open>Inl\<close> the panic), vectors, and \<open>IndexMap\<close> as an association list
    with the laws of its interface as the locale \<open>index_map\<close>.
  \<^item> \<open>RustInt\<close>, \<open>RustFloat\<close>: \<open>i64\<close>/\<open>i32\<close> as words with their casts and checked operations, \<open>f64\<close> as IEEE
    doubles (sign, mantissa, exponent; round to nearest even), and the range predicates of
    \<open>value/val_overflow.rs\<close>.
  \<^item> \<open>Value\<close>: the enum \<open>Value\<close> of \<open>api/kclvm.rs\<close> with its structs, kinds, tests, coercions, truth values,
    lengths, unary operators, \<open>deep_copy\<close>; the panics as \<open>rt_error\<close>; well-formedness \<open>wf_val\<close>.
  \<^item> \<open>ValueCmp\<close>: \<open>val_cmp.rs\<close>, \<open>val_is_in.rs\<close>, \<open>unification/subsume.rs\<close>.
  \<^item> \<open>ValueList\<close>: \<open>val_list.rs\<close> and \<open>must_normalize_index\<close> of \<open>val_union.rs\<close>.
  \<^item> \<open>ValueBin\<close>, \<open>ValueBinAug\<close>: \<open>val_bin.rs\<close> and \<open>val_bin_aug.rs\<close>. The locales \<open>sound_int_op\<close> and
    \<open>checked_int_op\<close> are the contract of the integer operators, \<open>aug_agrees\<close> that of an assignment.
  \<^item> \<open>ValueDict\<close>: \<open>val_dict.rs\<close>, \<open>val_schema.rs\<close>, \<open>walker.rs\<close>, \<open>val_get_set.rs\<close>, \<open>val_attr.rs\<close>.
  \<^item> \<open>ValueUnion\<close>: \<open>val_union.rs\<close>, the operators \<open>|\<close> and \<open>|=\<close>, the merging operations of \<open>val_dict.rs\<close>,
    \<open>resolve_schema\<close> of \<open>val_type.rs\<close>. The locale \<open>union_invariant\<close> carries the induction over the
    mutually recursive functions for every invariant.
  \<^item> \<open>ValueIter\<close>: \<open>iter.rs\<close>. \<open>ValuePlan\<close>: \<open>val_plan.rs\<close> and \<open>type_of\<close> of \<open>stdlib/builtin.rs\<close>.

  \<^bold>\<open>Modelling decisions.\<close>
  \<^item> A \<open>ValueRef\<close> is a reference-counted cell; the model keeps the tree it leads to, and an operation
    that updates a cell returns the new tree. Sharing is not modelled: where the code tests
    \<open>is_same_ref\<close> the model takes two objects.
  \<^item> The release profile has no overflow checks (\<open>kclvm/Cargo.toml\<close>): \<open>+\<close>, \<open>-\<close>, \<open>*\<close> on \<open>i64\<close> and \<open>i32\<close>
    wrap, division by zero, indexing, capacity and \<open>unwrap\<close> panic (\<open>RustPanic\<close>). A panic of the
    runtime is an \<open>Inl\<close>; its message is kept as the data it prints, in shortened words.
  \<^item> A \<open>String\<close> is the list of its UTF-8 bytes; \<open>str_chars\<close> groups them.
  \<^item> Code outside the repository is an argument: \<open>f64::powf\<close>, the functions schemas are compiled to
    (\<open>schema_fns\<close>, with \<open>wf_env\<close> the hypothesis that they return well-formed values), the JSON printer
    in conflict messages, and the addresses of builtin functions.
  \<^item> Loops over data are structural recursion or recursion by size. Only \<open>visit\<close>, the client's loop
    over an iterator, has fuel; one step more than the number of elements is enough, and
    \<open>iteration_visits_all\<close> proves it.

  \<^bold>\<open>What the properties show.\<close> The union of configurations (C1-C5): the merged entries and key order,
  idempotence, the outcome of merging one entry on every branch, preservation of well-formedness,
  conflicts always carry a path. Planning (C6, C7): it refines a recursive plan and emits nothing
  hidden. Arithmetic (C8, C9, C22-C25): exact or an error, floor division, subscripts,
  agreement of assignments with operators. Lists (C10, C26-C28), iteration (C11), schema checks (C12),
  comparison (C13-C17), copies and lookups (C18-C21).

  \<^bold>\<open>Not modelled.\<close> The printers and parsers of JSON and YAML (they go through \<open>serde\<close>), string formatting and
  methods, type checks by type string, the standard library beyond \<open>type_of\<close>, the C wrappers, and the
  rest of the tool chain: lexer, parser, resolver, code generation, evaluator, language server, driver.
\<close>

end
